(* ===== verification/Prelude.thy ===== *)
theory Prelude
  imports "HOL-Library.Word" "HOL-Library.Signed_Division"
begin

text \<open>
  Shared vocabulary of the development: the fixed-width integer types of \<^verbatim>\<open><stdint.h>\<close>,
  byte buffers with checked accesses, and the generic lemmas on lists and machine words
  that more than one component uses.

  A pointer into a byte array is modelled by the rest of the array it points to, so
  \<^verbatim>\<open>&buf[i]\<close> is \<open>drop i buf\<close> and \<^verbatim>\<open>p[i]\<close> is \<open>rd p i\<close>.  C++ leaves an access
  outside the array undefined; here it is the value \<open>None\<close>, so that a function that
  returns \<open>Some\<close> has been shown to stay inside its buffers.
\<close>

unbundle bit_operations_syntax

subsection \<open>Fixed-width integers\<close>

type_synonym u8 = "8 word"
type_synonym u16 = "16 word"
type_synonym u32 = "32 word"
type_synonym i16 = "16 word"    \<comment> \<open>int16_t: the same 16 bits, read with \<open>sint\<close>\<close>
type_synonym i64 = int          \<comment> \<open>int64_t milliseconds since boot; see \<open>i64_range\<close>\<close>
type_synonym errno = int        \<comment> \<open>0 or a negative errno, the Zephyr convention\<close>

type_synonym bytes = "u8 list"

text \<open>The range of a signed 64-bit integer: arithmetic that leaves it is undefined in C++.\<close>

definition i64_range :: "i64 \<Rightarrow> bool" where
  "i64_range t \<longleftrightarrow> - (2 ^ 63) \<le> t \<and> t < 2 ^ 63"

subsection \<open>Checked buffer accesses\<close>

definition rd :: "'a list \<Rightarrow> nat \<Rightarrow> 'a option" where
  "rd p i = (if i < length p then Some (p ! i) else None)"

definition wr :: "'a list \<Rightarrow> nat \<Rightarrow> 'a \<Rightarrow> 'a list option" where
  "wr p i x = (if i < length p then Some (p[i := x]) else None)"

named_theorems buffer_simps

lemma rd_in [simp, buffer_simps]: "i < length p \<Longrightarrow> rd p i = Some (p ! i)"
  by (simp add: rd_def)

lemma rd_out [simp, buffer_simps]: "length p \<le> i \<Longrightarrow> rd p i = None"
  by (simp add: rd_def)

lemma wr_in [simp, buffer_simps]: "i < length p \<Longrightarrow> wr p i x = Some (p[i := x])"
  by (simp add: wr_def)

lemma rd_eq_Some [simp]: "rd p i = Some x \<longleftrightarrow> i < length p \<and> p ! i = x"
  by (simp add: rd_def)

lemma wr_length: "wr p i x = Some q \<Longrightarrow> length q = length p"
  by (auto simp: wr_def split: if_splits)

subsection \<open>Words of a few bits\<close>

lemma word_and_bit_iff:
  "(w :: 'a::len word) AND push_bit n 1 \<noteq> 0 \<longleftrightarrow> bit w n"
proof
  assume "w AND push_bit n 1 \<noteq> 0"
  then obtain m where "bit (w AND push_bit n 1) m"
    by (metis bit_0_eq bit_word_eqI bot_apply bot_bool_def)
  then show "bit w n" by (auto simp: bit_simps)
next
  assume *: "bit w n"
  then have "bit (w AND push_bit n 1) n"
    using bit_imp_le_length [OF *] by (auto simp: bit_simps)
  then show "w AND push_bit n 1 \<noteq> 0" by auto
qed

lemma xor_eq_0_word [simp]: "(a :: 'a::len word) XOR b = 0 \<longleftrightarrow> a = b"
  by (metis bit.xor_self xor.assoc xor.commute xor.right_neutral)

lemma xor_eq_self_word [simp]: "(a :: 'a::len word) XOR b = a \<longleftrightarrow> b = 0"
  by (metis xor_eq_0_word bit.xor_self xor.assoc xor.left_neutral)

lemma xor_cancel_left_word [simp]: "(a :: 'a::len word) XOR b = a XOR c \<longleftrightarrow> b = c"
proof
  assume "a XOR b = a XOR c"
  then have "a XOR (a XOR b) = a XOR (a XOR c)" by simp
  then show "b = c" by (simp flip: xor.assoc)
qed simp

text \<open>The list of the positions of the bits of a byte, and its length, the byte's weight.\<close>

definition bits_of :: "'a::len word \<Rightarrow> nat list" where
  "bits_of w = filter (bit w) [0..<LENGTH('a)]"

definition pop_count :: "'a::len word \<Rightarrow> nat" where
  "pop_count w = length (bits_of w)"

lemma distinct_bits_of [simp]: "distinct (bits_of w)"
  by (simp add: bits_of_def)

lemma set_bits_of: "set (bits_of (w :: 'a::len word)) = {n. bit w n}"
  by (auto simp: bits_of_def dest: bit_imp_le_length)

lemma pop_count_0_iff [simp]: "pop_count w = 0 \<longleftrightarrow> w = 0"
proof -
  have "pop_count w = 0 \<longleftrightarrow> set (bits_of w) = {}"
    by (simp add: pop_count_def)
  also have "\<dots> \<longleftrightarrow> w = 0"
    by (auto simp: set_bits_of intro: bit_word_eqI)
  finally show ?thesis .
qed

lemma pop_count_0 [simp]: "pop_count 0 = 0"
  by simp

subsection \<open>Lists cut into groups of three\<close>

lemma drop_mult_append:
  "length (concat xss) = 3 * n \<Longrightarrow> drop (3 * n) (concat xss @ ys) = ys"
  by simp

lemma length_concat_const: "\<forall>xs \<in> set xss. length xs = k \<Longrightarrow> length (concat xss) = k * length xss"
  by (induction xss) auto

lemma list_of_length_3E:
  assumes "length xs = 3"
  obtains a b c where "xs = [a, b, c]"
  using assms by (auto simp: numeral_3_eq_3 length_Suc_conv)

lemma split_first_three:
  assumes "length xs = 3 * Suc n"
  obtains a b c ys where "xs = a # b # c # ys" "length ys = 3 * n"
proof -
  have "length xs = Suc (Suc (Suc (3 * n)))" using assms by simp
  then show thesis using that by (auto simp: length_Suc_conv)
qed

end
