(* ===== verification/Sen66_Crc.thy ===== *)
theory Sen66_Crc
  imports Prelude
begin

text \<open>
  \<^verbatim>\<open>src/sen66/sen66_crc.cpp\<close>: the Sensirion CRC-8, polynomial 0x31, initial value 0xFF,
  MSB first, no final XOR.  After the code come the facts a checksum is chosen for: it is
  linear, it is the remainder of the message polynomial modulo x^8 + x^5 + x^4 + 1, and
  over one two-byte word it tells every pattern of one to three flipped bits.
\<close>

section \<open>The code\<close>

definition kPolynomial :: u8 where
  "kPolynomial = 0x31"

definition kInit :: u8 where
  "kInit = 0xFF"

text \<open>One iteration of the inner loop, and the inner loop with its count of iterations left.\<close>

definition crc_shift :: "u8 \<Rightarrow> u8" where
  "crc_shift crc =
     (if crc AND 0x80 \<noteq> 0 then push_bit 1 crc XOR kPolynomial else push_bit 1 crc)"

primrec bit_loop :: "nat \<Rightarrow> u8 \<Rightarrow> u8" where
  "bit_loop 0 crc = crc"
| "bit_loop (Suc n) crc = bit_loop n (crc_shift crc)"

lemma bit_loop_numeral [simp]: "bit_loop (numeral k) crc = bit_loop (pred_numeral k) (crc_shift crc)"
  by (simp add: numeral_eq_Suc)

definition crc_byte :: "u8 \<Rightarrow> u8 \<Rightarrow> u8" where
  "crc_byte crc d = bit_loop 8 (crc XOR d)"

text \<open>The outer loop \<^verbatim>\<open>for (size_t i = 0; i < length; i++)\<close> over the bytes of \<open>data\<close>.\<close>

function crc_loop :: "bytes \<Rightarrow> nat \<Rightarrow> nat \<Rightarrow> u8 \<Rightarrow> u8 option" where
  "crc_loop data i len crc =
     (if i < len
      then (case rd data i of
              None \<Rightarrow> None
            | Some d \<Rightarrow> crc_loop data (Suc i) len (crc_byte crc d))
      else Some crc)"
  by pat_completeness auto
termination
  by (relation "measure (\<lambda>(data, i, len, crc). len - i)") auto

declare crc_loop.simps [simp del]

definition Crc :: "bytes \<Rightarrow> nat \<Rightarrow> u8 option" where
  "Crc data len = crc_loop data 0 len kInit"

section \<open>The loops in closed form\<close>

lemma crc_loop_eq:
  "crc_loop data i len crc =
     (if i < len \<and> length data < len then None
      else Some (foldl crc_byte crc (take (len - i) (drop i data))))"
proof (induction data i len crc rule: crc_loop.induct)
  case (1 data i len crc)
  show ?case
  proof (cases "i < len \<and> i < length data")
    case True
    then have "drop i data = data ! i # drop (Suc i) data" and "len - i = Suc (len - Suc i)"
      by (simp_all add: Cons_nth_drop_Suc Suc_diff_Suc)
    with True 1 show ?thesis
      by (subst crc_loop.simps) auto
  next
    case False
    then show ?thesis
      by (subst crc_loop.simps) auto
  qed
qed

text \<open>The checksum of a buffer that holds \<open>len\<close> bytes is the fold over its first \<open>len\<close> bytes.\<close>

definition crc_of :: "bytes \<Rightarrow> u8" where
  "crc_of bs = foldl crc_byte kInit bs"

lemma Crc_eq: "Crc data len = (if len \<le> length data then Some (crc_of (take len data)) else None)"
  by (auto simp: Crc_def crc_loop_eq crc_of_def)

section \<open>Linearity\<close>

lemma crc_shift_bit: "crc_shift crc = push_bit 1 crc XOR (if bit crc 7 then kPolynomial else 0)"
  using word_and_bit_iff [of crc 7] by (auto simp: crc_shift_def)

lemma crc_shift_xor: "crc_shift (a XOR b) = crc_shift a XOR crc_shift b"
  by (simp add: crc_shift_bit bit_xor_iff push_bit_xor xor.left_commute xor.commute)

lemma crc_shift_0 [simp]: "crc_shift 0 = 0"
  by (simp add: crc_shift_bit)

lemma bit_loop_xor: "bit_loop n (a XOR b) = bit_loop n a XOR bit_loop n b"
  by (induction n arbitrary: a b) (simp_all add: crc_shift_xor)

lemma bit_loop_0 [simp]: "bit_loop n 0 = 0"
  by (induction n) simp_all

lemma crc_byte_xor: "crc_byte (c XOR d) (a XOR b) = crc_byte c a XOR crc_byte d b"
  by (simp add: crc_byte_def bit_loop_xor ac_simps)

text \<open>
  Flipping the bits \<open>es\<close> of a message flips, in its checksum, the bits of the checksum of
  \<open>es\<close> computed from the initial value 0: what is flipped does not depend on the message.
\<close>

definition xor_bytes :: "bytes \<Rightarrow> bytes \<Rightarrow> bytes" where
  "xor_bytes bs es = map2 (XOR) bs es"

definition syndrome :: "bytes \<Rightarrow> u8" where
  "syndrome es = foldl crc_byte 0 es"

lemma foldl_crc_xor:
  "length bs = length es \<Longrightarrow>
   foldl crc_byte (c XOR d) (xor_bytes bs es) = foldl crc_byte c bs XOR foldl crc_byte d es"
proof (induction bs es arbitrary: c d rule: list_induct2)
  case Nil
  then show ?case by (simp add: xor_bytes_def)
next
  case (Cons b bs e es)
  have "foldl crc_byte (c XOR d) (xor_bytes (b # bs) (e # es))
      = foldl crc_byte (crc_byte c b XOR crc_byte d e) (xor_bytes bs es)"
    by (simp add: xor_bytes_def crc_byte_xor)
  then show ?case by (simp add: Cons.IH)
qed

lemma crc_of_xor:
  "length bs = length es \<Longrightarrow> crc_of (xor_bytes bs es) = crc_of bs XOR syndrome es"
  using foldl_crc_xor [of bs es kInit 0] by (simp add: crc_of_def syndrome_def)


section \<open>Which flipped bits a word's checksum tells\<close>

text \<open>
  The syndrome of the three bytes of a word, checksum byte included, is the exclusive or of
  one column of the table \<open>columns\<close> for each flipped bit.  The columns are distinct and of odd
  parity, so no pair of them and no odd number of them cancels.
\<close>

definition syndrome3 :: "u8 \<Rightarrow> u8 \<Rightarrow> u8 \<Rightarrow> u8" where
  "syndrome3 e0 e1 e2 = syndrome [e0, e1] XOR e2"

definition weight :: "bytes \<Rightarrow> nat" where
  "weight es = sum_list (map pop_count es)"

definition xor_sum :: "u8 list \<Rightarrow> u8" where
  "xor_sum ws = foldr (XOR) ws 0"

lemma xor_sum_simps [simp]: "xor_sum [] = 0" "xor_sum (w # ws) = w XOR xor_sum ws"
  by (simp_all add: xor_sum_def)

lemma xor_sum_append: "xor_sum (vs @ ws) = xor_sum vs XOR xor_sum ws"
  by (induction vs) (simp_all add: xor.assoc)

text \<open>The byte with bit \<open>i\<close> alone set.\<close>

definition bit_at :: "nat \<Rightarrow> u8" where
  "bit_at i = push_bit i 1"

lemma bit_xor_sum_single:
  "distinct is \<Longrightarrow> bit (xor_sum (map bit_at is)) n \<longleftrightarrow> n \<in> set is \<and> n < 8"
  by (induction "is") (auto simp: bit_simps bit_at_def)

lemma byte_as_xor_sum: "xor_sum (map bit_at (bits_of w)) = w"
  by (rule bit_word_eqI) (simp add: bit_xor_sum_single set_bits_of)

lemma xor_sum_additive:
  assumes "f 0 = 0" and "\<And>a b. f (a XOR b) = f a XOR f b"
  shows "f (xor_sum ws) = xor_sum (map f ws)"
  by (induction ws) (simp_all add: assms)

definition columns :: "u8 list" where
  "columns = map (\<lambda>i. syndrome3 (bit_at i) 0 0) [0..<8]
     @ map (\<lambda>i. syndrome3 0 (bit_at i) 0) [0..<8]
     @ map (\<lambda>i. syndrome3 0 0 (bit_at i)) [0..<8]"

lemma syndrome_pair: "syndrome [e0, e1] = bit_loop 8 (bit_loop 8 e0 XOR e1)"
  by (simp add: syndrome_def crc_byte_def)

lemma upto_8: "[0..<8] = [0, 1, 2, 3, 4, 5, 6, 7]"
  by (simp add: upt_rec)

lemma columns_eq:
  "columns = [0xF4, 0xD9, 0x83, 0x37, 0x6E, 0xDC, 0x89, 0x23,
              0x31, 0x62, 0xC4, 0xB9, 0x43, 0x86, 0x3D, 0x7A,
              0x01, 0x02, 0x04, 0x08, 0x10, 0x20, 0x40, 0x80]"
  unfolding columns_def upto_8 list.map append.simps syndrome3_def syndrome_pair bit_at_def
  by (simp add: crc_shift_def kPolynomial_def)

lemma columns_nth:
  "i < 8 \<Longrightarrow> columns ! i = syndrome3 (bit_at i) 0 0"
  "i < 8 \<Longrightarrow> columns ! (8 + i) = syndrome3 0 (bit_at i) 0"
  "i < 8 \<Longrightarrow> columns ! (16 + i) = syndrome3 0 0 (bit_at i)"
  by (simp_all add: columns_def nth_append)

lemma syndrome3_xor:
  "syndrome3 (a0 XOR b0) (a1 XOR b1) (a2 XOR b2) = syndrome3 a0 a1 a2 XOR syndrome3 b0 b1 b2"
  by (simp add: syndrome3_def syndrome_pair bit_loop_xor ac_simps)

lemma syndrome3_0 [simp]: "syndrome3 0 0 0 = 0"
  by (simp add: syndrome3_def syndrome_pair)

text \<open>The positions of the flipped bits of a word, counted from 0 to 23.\<close>

definition flipped :: "u8 \<Rightarrow> u8 \<Rightarrow> u8 \<Rightarrow> nat list" where
  "flipped e0 e1 e2 = bits_of e0 @ map ((+) 8) (bits_of e1) @ map ((+) 16) (bits_of e2)"

lemma bits_of_byte: "i \<in> set (bits_of (w :: u8)) \<Longrightarrow> i < 8"
  by (simp add: bits_of_def)

lemma flipped_range: "p \<in> set (flipped e0 e1 e2) \<Longrightarrow> p < 24"
  by (auto simp: flipped_def dest: bits_of_byte)

lemma flipped_distinct: "distinct (flipped e0 e1 e2)"
  by (auto simp: flipped_def distinct_map dest: bits_of_byte)

lemma flipped_length: "length (flipped e0 e1 e2) = weight [e0, e1, e2]"
  by (simp add: flipped_def weight_def pop_count_def)

lemma xor_sum_columns:
  assumes "f 0 = 0" and "\<And>a b. f (a XOR b) = f a XOR f b"
    and "\<And>i. i < 8 \<Longrightarrow> columns ! (k + i) = f (bit_at i)"
  shows "f w = xor_sum (map (\<lambda>i. columns ! (k + i)) (bits_of w))"
proof -
  have "f w = f (xor_sum (map bit_at (bits_of w)))"
    by (simp only: byte_as_xor_sum)
  also have "\<dots> = xor_sum (map f (map bit_at (bits_of w)))"
    using assms(1,2) by (rule xor_sum_additive)
  also have "map f (map bit_at (bits_of w)) = map (\<lambda>i. columns ! (k + i)) (bits_of w)"
    using assms(3) by (simp add: bits_of_byte)
  finally show ?thesis .
qed

lemma syndrome3_columns: "syndrome3 e0 e1 e2 = xor_sum (map ((!) columns) (flipped e0 e1 e2))"
proof -
  have "syndrome3 e0 e1 e2 = syndrome3 e0 0 0 XOR syndrome3 0 e1 0 XOR syndrome3 0 0 e2"
    by (simp flip: syndrome3_xor)
  also have "syndrome3 e0 0 0 = xor_sum (map (\<lambda>i. columns ! (0 + i)) (bits_of e0))"
    by (rule xor_sum_columns) (simp_all add: columns_nth flip: syndrome3_xor)
  also have "syndrome3 0 e1 0 = xor_sum (map (\<lambda>i. columns ! (8 + i)) (bits_of e1))"
    by (rule xor_sum_columns) (simp_all add: columns_nth flip: syndrome3_xor)
  also have "syndrome3 0 0 e2 = xor_sum (map (\<lambda>i. columns ! (16 + i)) (bits_of e2))"
    by (rule xor_sum_columns) (simp_all add: columns_nth flip: syndrome3_xor)
  finally show ?thesis
    by (simp add: flipped_def xor_sum_append xor.assoc comp_def)
qed

text \<open>Parity: each column has an odd number of ones, and parity adds up.\<close>

definition parity :: "u8 \<Rightarrow> bool" where
  "parity w = fold (\<lambda>i p. p \<noteq> bit w i) [0..<8] False"

lemma fold_parity_xor:
  "fold (\<lambda>i p. p \<noteq> bit (a XOR b) i) is (p \<noteq> q) \<longleftrightarrow>
   fold (\<lambda>i p. p \<noteq> bit (a :: u8) i) is p \<noteq> fold (\<lambda>i p. p \<noteq> bit b i) is q"
proof (induction "is" arbitrary: p q)
  case Nil
  then show ?case by simp
next
  case (Cons i "is")
  have "((p \<noteq> q) \<noteq> bit (a XOR b) i) = ((p \<noteq> bit a i) \<noteq> (q \<noteq> bit b i))"
    by (auto simp: bit_xor_iff)
  then show ?case using Cons.IH [of "p \<noteq> bit a i" "q \<noteq> bit b i"] by simp
qed

lemma parity_xor: "parity (a XOR b) \<longleftrightarrow> parity a \<noteq> parity b"
  using fold_parity_xor [of a b "[0..<8]" False False] by (simp add: parity_def)

lemma columns_odd: "p < 24 \<Longrightarrow> parity (columns ! p)"
proof -
  have "\<forall>w \<in> set columns. parity w"
    by (simp add: columns_eq parity_def upto_8)
  moreover have "length columns = 24" by (simp add: columns_eq)
  ultimately show "p < 24 \<Longrightarrow> parity (columns ! p)" by simp
qed

lemma parity_xor_sum:
  "\<forall>p \<in> set ps. p < 24 \<Longrightarrow> parity (xor_sum (map ((!) columns) ps)) \<longleftrightarrow> odd (length ps)"
  by (induction ps) (simp_all add: parity_xor columns_odd, simp add: parity_def upto_8)

lemma columns_inj: "p < 24 \<Longrightarrow> q < 24 \<Longrightarrow> p \<noteq> q \<Longrightarrow> columns ! p \<noteq> columns ! q"
proof -
  have "distinct columns" and "length columns = 24" by (simp_all add: columns_eq)
  then show "p < 24 \<Longrightarrow> q < 24 \<Longrightarrow> p \<noteq> q \<Longrightarrow> columns ! p \<noteq> columns ! q"
    by (simp add: nth_eq_iff_index_eq)
qed

lemma syndrome3_detects:
  assumes "odd (weight [e0, e1, e2]) \<or> weight [e0, e1, e2] = 2"
  shows "syndrome3 e0 e1 e2 \<noteq> 0"
proof (cases "odd (weight [e0, e1, e2])")
  case True
  have "parity (syndrome3 e0 e1 e2) \<longleftrightarrow> odd (weight [e0, e1, e2])"
    unfolding syndrome3_columns flipped_length [symmetric]
    by (rule parity_xor_sum) (auto dest: flipped_range)
  with True show ?thesis by (auto simp: parity_def upto_8)
next
  case False
  with assms have "length (flipped e0 e1 e2) = Suc (Suc 0)" by (simp add: flipped_length)
  then obtain p q where pq: "flipped e0 e1 e2 = [p, q]"
    by (auto simp: length_Suc_conv)
  with flipped_distinct [of e0 e1 e2] flipped_range [of _ e0 e1 e2]
  have "columns ! p \<noteq> columns ! q" by (intro columns_inj) auto
  with pq show ?thesis by (simp add: syndrome3_columns)
qed

text \<open>A word of three bytes is accepted when its third byte is the checksum of the other two.\<close>

lemma flips_break_checksum:
  assumes "crc_of [b0, b1] = b2" and "odd (weight [e0, e1, e2]) \<or> weight [e0, e1, e2] = 2"
  shows "crc_of [b0 XOR e0, b1 XOR e1] \<noteq> b2 XOR e2"
proof -
  have "crc_of [b0 XOR e0, b1 XOR e1] = b2 XOR syndrome [e0, e1]"
    using crc_of_xor [of "[b0, b1]" "[e0, e1]"] assms(1) by (simp add: xor_bytes_def)
  moreover have "syndrome [e0, e1] \<noteq> e2"
    using syndrome3_detects [OF assms(2)] by (auto simp: syndrome3_def)
  ultimately show ?thesis by simp
qed


section \<open>The checksum as the remainder of a polynomial division\<close>

text \<open>
  A polynomial over the field of two elements is written as the natural number whose bits are
  its coefficients; addition is then \<open>XOR\<close> and multiplication by x is doubling.
\<close>

fun gf2_mul :: "nat \<Rightarrow> nat \<Rightarrow> nat" where
  "gf2_mul q g = (if q = 0 then 0 else (if odd q then g else 0) XOR 2 * gf2_mul (q div 2) g)"

declare gf2_mul.simps [simp del]

text \<open>x^8 + x^5 + x^4 + 1, and the dividend: the message times x^8 with the register's initial
  value added to its first eight coefficients.\<close>

definition kGenerator :: nat where
  "kGenerator = 0x131"

definition message_poly :: "bytes \<Rightarrow> nat" where
  "message_poly bs = foldl (\<lambda>m b. push_bit 8 m XOR unat b) 0 bs"

definition dividend :: "bytes \<Rightarrow> nat" where
  "dividend bs = push_bit 8 (message_poly bs) XOR push_bit (8 * length bs) 0xFF"

lemma double_xor_nat: "2 * (a XOR b) = 2 * a XOR 2 * (b :: nat)"
  using push_bit_xor [of 1 a b] by (simp add: push_bit_eq_mult mult.commute)

lemma xor_div_2_nat: "(a XOR b) div 2 = a div 2 XOR b div (2 :: nat)"
  using drop_bit_xor [of 1 a b] by (simp add: drop_bit_eq_div)

lemma xor_self_nat [simp]: "(a :: nat) XOR a = 0"
  by (rule bit_eqI) (simp add: bit_xor_iff)

lemma xor_self_left_nat [simp]: "(a :: nat) XOR (a XOR b) = b"
  by (rule bit_eqI) (auto simp: bit_xor_iff)

lemma odd_xor_nat: "odd (a XOR b) \<longleftrightarrow> odd a \<noteq> odd (b :: nat)"
  using bit_xor_iff [of a b 0] by (simp add: bit_0)

lemma gf2_mul_0 [simp]: "gf2_mul 0 g = 0"
  by (simp add: gf2_mul.simps)

lemma gf2_mul_unfold: "gf2_mul q g = (if odd q then g else 0) XOR 2 * gf2_mul (q div 2) g"
  by (cases "q = 0") (simp, subst gf2_mul.simps, simp)

lemma gf2_mul_double: "gf2_mul (2 * q) g = 2 * gf2_mul q g"
  by (subst gf2_mul_unfold) simp

lemma gf2_mul_push_bit: "gf2_mul (push_bit n q) g = push_bit n (gf2_mul q g)"
  by (induction n arbitrary: q) (simp_all add: gf2_mul_double mult.commute [of _ 2])

lemma gf2_mul_xor: "gf2_mul (a XOR b) g = gf2_mul a g XOR gf2_mul b g"
proof (induction a arbitrary: b rule: less_induct)
  case (less a)
  show ?case
  proof (cases "a = 0")
    case True
    then show ?thesis by simp
  next
    case False
    then have "gf2_mul (a div 2 XOR b div 2) g = gf2_mul (a div 2) g XOR gf2_mul (b div 2) g"
      by (intro less.IH) simp
    then show ?thesis
      by (subst (1 2 3) gf2_mul_unfold)
        (simp add: xor_div_2_nat odd_xor_nat double_xor_nat ac_simps)
  qed
qed

lemma crc_shift_divides:
  "2 * unat c = (if bit c 7 then kGenerator else 0) XOR unat (crc_shift c)"
proof -
  have top: "2 * unat c = (if bit c 7 then 2 ^ 8 else 0) XOR unat (push_bit 1 c)"
  proof (rule bit_eqI)
    fix n
    have 1: "bit (2 * unat c) n \<longleftrightarrow> 0 < n \<and> bit c (n - 1)"
      by (simp add: bit_double_iff bit_unsigned_iff)
    have 2: "bit (if bit c 7 then (2 :: nat) ^ 8 else 0) n \<longleftrightarrow> bit c 7 \<and> n = 8"
      by (cases "bit c 7") (simp_all only: if_True if_False bit_exp_iff possible_bit_nat, simp_all)
    have 3: "bit (unat (push_bit 1 c)) n \<longleftrightarrow> n < 8 \<and> 0 < n \<and> bit c (n - 1)"
      by (simp only: bit_unsigned_iff bit_push_bit_iff possible_bit_nat) (auto simp: possible_bit_def)
    show "bit (2 * unat c) n = bit ((if bit c 7 then 2 ^ 8 else 0) XOR unat (push_bit 1 c)) n"
    proof (cases "n = 8")
      case True
      then have "bit c (n - 1) \<longleftrightarrow> bit c 7" by simp
      with True show ?thesis unfolding 1 bit_xor_iff 2 3 by simp
    next
      case False
      have "n < 8" if "0 < n" "bit c (n - 1)"
        using that False bit_imp_le_length [of c "n - 1"] by simp
      then show ?thesis
        unfolding 1 bit_xor_iff 2 3 using False by auto
    qed
  qed
  have gen: "kGenerator = 2 ^ 8 XOR unat kPolynomial"
    by (simp add: kGenerator_def kPolynomial_def)
  show ?thesis
    unfolding top crc_shift_bit unsigned_xor_eq gen
    by (cases "bit c 7") (simp_all only: if_True if_False unsigned_0 xor.left_neutral
      xor.right_neutral xor_self_nat xor_self_left_nat ac_simps)
qed

lemma remainder_step: "\<exists>q. 2 * unat c = gf2_mul q kGenerator XOR unat (crc_shift c)"
proof (intro exI)
  have "gf2_mul 1 kGenerator = kGenerator" by (subst gf2_mul_unfold) simp
  then show "2 * unat c = gf2_mul (if bit c 7 then 1 else 0) kGenerator XOR unat (crc_shift c)"
    by (simp add: crc_shift_divides)
qed

lemma remainder_steps: "\<exists>q. push_bit n (unat c) = gf2_mul q kGenerator XOR unat (bit_loop n c)"
proof (induction n arbitrary: c)
  case 0
  show ?case by (rule exI [of _ 0]) simp
next
  case (Suc n)
  obtain p where p: "2 * unat c = gf2_mul p kGenerator XOR unat (crc_shift c)"
    using remainder_step by blast
  obtain q where q: "push_bit n (unat (crc_shift c)) = gf2_mul q kGenerator XOR unat (bit_loop n (crc_shift c))"
    using Suc.IH by blast
  have "push_bit (Suc n) (unat c) = push_bit n (2 * unat c)"
    by (simp add: mult.commute)
  also have "\<dots> = gf2_mul (push_bit n p XOR q) kGenerator XOR unat (bit_loop n (crc_shift c))"
    by (simp only: p push_bit_xor q gf2_mul_xor gf2_mul_push_bit xor.assoc)
  finally show ?case by auto
qed

lemma remainder_message: "\<exists>q. dividend bs = gf2_mul q kGenerator XOR unat (crc_of bs)"
proof (induction bs rule: rev_induct)
  case Nil
  show ?case by (rule exI [of _ 0]) (simp add: dividend_def message_poly_def crc_of_def kInit_def)
next
  case (snoc b bs)
  let ?c = "crc_of bs"
  obtain p where p: "dividend bs = gf2_mul p kGenerator XOR unat ?c"
    using snoc.IH by blast
  obtain q where q: "push_bit 8 (unat (?c XOR b)) = gf2_mul q kGenerator XOR unat (bit_loop 8 (?c XOR b))"
    using remainder_steps by blast
  have "dividend (bs @ [b]) = push_bit 8 (dividend bs XOR unat b)"
    by (simp add: dividend_def message_poly_def push_bit_xor push_bit_push_bit ac_simps)
  also have "\<dots> = push_bit 8 (gf2_mul p kGenerator) XOR push_bit 8 (unat (?c XOR b))"
    by (simp add: p push_bit_xor unsigned_xor_eq ac_simps)
  also have "\<dots> = gf2_mul (push_bit 8 p XOR q) kGenerator XOR unat (bit_loop 8 (?c XOR b))"
    by (simp only: q gf2_mul_xor gf2_mul_push_bit xor.assoc)
  finally show ?case by (auto simp: crc_of_def crc_byte_def)
qed

text \<open>A multiple of the generator other than 0 has degree eight or more, so the remainder is unique.\<close>

lemma xor_keeps_high_nat: "g < 512 \<Longrightarrow> 512 \<le> x \<Longrightarrow> 512 \<le> (x XOR g :: nat)"
proof -
  assume "g < 512" "512 \<le> x"
  then have "drop_bit 9 (x XOR g) = drop_bit 9 x"
    by (simp add: drop_bit_xor drop_bit_eq_div [of 9 g])
  with \<open>512 \<le> x\<close> show ?thesis
    by (simp add: drop_bit_eq_div) (metis div_greater_zero_iff zero_less_numeral)
qed

lemma gf2_mul_degree: "q \<noteq> 0 \<Longrightarrow> 256 \<le> gf2_mul q kGenerator"
proof (induction q rule: less_induct)
  case (less q)
  show ?case
  proof (cases "q div 2 = 0")
    case True
    with less.prems have "q = 1" by simp
    then show ?thesis by (subst gf2_mul_unfold) (simp add: kGenerator_def)
  next
    case False
    with less have "256 \<le> gf2_mul (q div 2) kGenerator" by simp
    then have "512 \<le> 2 * gf2_mul (q div 2) kGenerator" by simp
    then have "512 \<le> 2 * gf2_mul (q div 2) kGenerator XOR (if odd q then kGenerator else 0)"
      by (intro xor_keeps_high_nat) (simp_all add: kGenerator_def)
    then show ?thesis by (subst gf2_mul_unfold) (simp add: xor.commute)
  qed
qed

lemma remainder_unique:
  assumes "gf2_mul p kGenerator XOR unat (c :: u8) = gf2_mul q kGenerator XOR unat d"
  shows "c = d"
proof -
  have "gf2_mul (p XOR q) kGenerator = unat (c XOR d)"
    using arg_cong [OF assms, of "\<lambda>x. x XOR (gf2_mul q kGenerator XOR unat c)"]
    by (simp add: gf2_mul_xor unsigned_xor_eq ac_simps)
  moreover have "unat (c XOR d) < 256" using unsigned_less [of "c XOR d", where ?'a = nat] by simp
  ultimately have "p XOR q = 0" using gf2_mul_degree [of "p XOR q"] by linarith
  with \<open>gf2_mul (p XOR q) kGenerator = unat (c XOR d)\<close> have "c XOR d = 0"
    by (simp add: unat_eq_0)
  then show ?thesis by simp
qed


section \<open>Properties\<close>

lemma Crc_datasheet_vector: "Crc [0xBE, 0xEF] 2 = Some 0x92"
  by (simp add: Crc_eq crc_of_def crc_byte_def kInit_def crc_shift_def kPolynomial_def)

text \<open>
  C17. \<^verbatim>\<open>Crc(data, length)\<close> returns \<open>c\<close> exactly when \<open>c\<close> is the remainder, of degree below
  eight, of the division of the message polynomial (with the initial value 0xFF in its first
  eight coefficients) by x^8 + x^5 + x^4 + 1, for messages of every length.
\<close>

theorem Crc_is_remainder:
  "Crc bs (length bs) = Some c \<longleftrightarrow> (\<exists>q. dividend bs = gf2_mul q kGenerator XOR unat c)"
  using remainder_message [of bs] by (auto simp: Crc_eq dest: remainder_unique)

end
