(* ===== verification/Sen66_Protocol.thy ===== *)
theory Sen66_Protocol
  imports Sen66_Crc
begin

text \<open>
  \<^verbatim>\<open>src/sen66/sen66_protocol.h\<close> and \<^verbatim>\<open>sen66_protocol.cpp\<close>: the commands, the layout
  of the responses, the \<open>Measurement\<close> record with its validity bits, and the two parsers.
  A parser returns \<open>None\<close> when it would read or write outside a buffer, and otherwise its
  boolean result together with its \<^verbatim>\<open>out\<close> parameter after the call.

  \<open>PutWord\<close>, \<open>BuildFrame\<close> and \<open>BuildSerial\<close> are the sensor's side of the wire format, taken
  from the encoders of \<^verbatim>\<open>tests/sen66/src/test_parser.cpp\<close>; the parsers are shown to accept
  exactly what they produce.
\<close>

unbundle bit_operations_syntax

section \<open>Commands, layout and sentinels\<close>

datatype Command =
    Cmd_StartMeasurement
  | Cmd_StopMeasurement
  | Cmd_GetDataReady
  | Cmd_ReadMeasuredValues
  | Cmd_GetSerialNumber
  | Cmd_DeviceReset

primrec opcode_of :: "Command \<Rightarrow> u16" where
  "opcode_of Cmd_StartMeasurement = 0x0021"
| "opcode_of Cmd_StopMeasurement = 0x0104"
| "opcode_of Cmd_GetDataReady = 0x0202"
| "opcode_of Cmd_ReadMeasuredValues = 0x0300"
| "opcode_of Cmd_GetSerialNumber = 0xD033"
| "opcode_of Cmd_DeviceReset = 0xD304"

definition kWordSize :: nat where "kWordSize = 3"
definition kMeasurementWords :: nat where "kMeasurementWords = 9"
definition kMeasurementBytes :: nat where "kMeasurementBytes = kMeasurementWords * kWordSize"
definition kSerialWords :: nat where "kSerialWords = 16"
definition kSerialBytes :: nat where "kSerialBytes = kSerialWords * kWordSize"
definition kSerialChars :: nat where "kSerialChars = kSerialWords * 2 + 1"
definition kDataReadyBytes :: nat where "kDataReadyBytes = kWordSize"

lemmas layout_defs = kWordSize_def kMeasurementWords_def kMeasurementBytes_def kSerialWords_def
  kSerialBytes_def kSerialChars_def kDataReadyBytes_def

definition kUnavailableUnsigned :: u16 where "kUnavailableUnsigned = 0xFFFF"
definition kUnavailableSigned :: i16 where "kUnavailableSigned = 0x7FFF"

lemmas sentinel_defs = kUnavailableUnsigned_def kUnavailableSigned_def

datatype Field =
    kFieldPm1p0
  | kFieldPm2p5
  | kFieldPm4p0
  | kFieldPm10
  | kFieldHumidity
  | kFieldTemperature
  | kFieldVocIndex
  | kFieldNoxIndex
  | kFieldCo2

primrec field_bit :: "Field \<Rightarrow> nat" where
  "field_bit kFieldPm1p0 = 0"
| "field_bit kFieldPm2p5 = 1"
| "field_bit kFieldPm4p0 = 2"
| "field_bit kFieldPm10 = 3"
| "field_bit kFieldHumidity = 4"
| "field_bit kFieldTemperature = 5"
| "field_bit kFieldVocIndex = 6"
| "field_bit kFieldNoxIndex = 7"
| "field_bit kFieldCo2 = 8"

text \<open>The value of the enumerator, \<^verbatim>\<open>1u << n\<close>.\<close>

definition field_mask :: "Field \<Rightarrow> u16" where
  "field_mask f = push_bit (field_bit f) 1"

record Measurement =
  pm1p0 :: u16
  pm2p5 :: u16
  pm4p0 :: u16
  pm10 :: u16
  humidity :: i16
  temperature :: i16
  voc_index :: i16
  nox_index :: i16
  co2 :: u16
  valid :: u16

text \<open>\<^verbatim>\<open>Measurement{}\<close>: every member zero.\<close>

definition Measurement_init :: Measurement where
  "Measurement_init =
     \<lparr>pm1p0 = 0, pm2p5 = 0, pm4p0 = 0, pm10 = 0, humidity = 0, temperature = 0,
      voc_index = 0, nox_index = 0, co2 = 0, valid = 0\<rparr>"

text \<open>The test \<^verbatim>\<open>m.valid & kField...\<close>, and the assignment \<^verbatim>\<open>if (c) out.valid |= kField...\<close>.\<close>

definition is_valid :: "Measurement \<Rightarrow> Field \<Rightarrow> bool" where
  "is_valid m f \<longleftrightarrow> valid m AND field_mask f \<noteq> 0"

definition mark_valid :: "Field \<Rightarrow> bool \<Rightarrow> Measurement \<Rightarrow> Measurement" where
  "mark_valid f c m = (if c then m\<lparr>valid := valid m OR field_mask f\<rparr> else m)"

section \<open>The parsers\<close>

definition Word_at :: "bytes \<Rightarrow> u16 option" where
  "Word_at w =
     (case rd w 0 of None \<Rightarrow> None
      | Some hi \<Rightarrow>
         (case rd w 1 of None \<Rightarrow> None
          | Some lo \<Rightarrow> Some (push_bit 8 (ucast hi) OR ucast lo)))"

function check_loop :: "bytes \<Rightarrow> nat \<Rightarrow> nat \<Rightarrow> bool option" where
  "check_loop buf i words =
     (if i < words
      then (let w = drop (i * kWordSize) buf in
            case Crc w 2 of None \<Rightarrow> None
            | Some c \<Rightarrow>
               (case rd w 2 of None \<Rightarrow> None
                | Some x \<Rightarrow> if c \<noteq> x then Some False else check_loop buf (Suc i) words))
      else Some True)"
  by pat_completeness auto
termination
  by (relation "measure (\<lambda>(buf, i, words). words - i)") auto

declare check_loop.simps [simp del]

definition CheckWordsCrc :: "bytes \<Rightarrow> nat \<Rightarrow> bool option" where
  "CheckWordsCrc buf words = check_loop buf 0 words"

definition ParseMeasurement :: "bytes \<Rightarrow> Measurement \<Rightarrow> (bool \<times> Measurement) option" where
  "ParseMeasurement raw out =
     Option.bind (CheckWordsCrc raw kMeasurementWords) (\<lambda>ok.
     if \<not> ok then Some (False, out) else
     Option.bind (Word_at (drop (0 * kWordSize) raw)) (\<lambda>v_pm1p0.
     Option.bind (Word_at (drop (1 * kWordSize) raw)) (\<lambda>v_pm2p5.
     Option.bind (Word_at (drop (2 * kWordSize) raw)) (\<lambda>v_pm4p0.
     Option.bind (Word_at (drop (3 * kWordSize) raw)) (\<lambda>v_pm10.
     Option.bind (Word_at (drop (4 * kWordSize) raw)) (\<lambda>v_humidity.
     Option.bind (Word_at (drop (5 * kWordSize) raw)) (\<lambda>v_temperature.
     Option.bind (Word_at (drop (6 * kWordSize) raw)) (\<lambda>v_voc.
     Option.bind (Word_at (drop (7 * kWordSize) raw)) (\<lambda>v_nox.
     Option.bind (Word_at (drop (8 * kWordSize) raw)) (\<lambda>v_co2.
     let out = Measurement_init;
         out = out\<lparr>pm1p0 := v_pm1p0, pm2p5 := v_pm2p5, pm4p0 := v_pm4p0, pm10 := v_pm10,
           humidity := v_humidity, temperature := v_temperature,
           voc_index := v_voc, nox_index := v_nox, co2 := v_co2\<rparr>;
         out = mark_valid kFieldPm1p0 (v_pm1p0 \<noteq> kUnavailableUnsigned) out;
         out = mark_valid kFieldPm2p5 (v_pm2p5 \<noteq> kUnavailableUnsigned) out;
         out = mark_valid kFieldPm4p0 (v_pm4p0 \<noteq> kUnavailableUnsigned) out;
         out = mark_valid kFieldPm10 (v_pm10 \<noteq> kUnavailableUnsigned) out;
         out = mark_valid kFieldHumidity (humidity out \<noteq> kUnavailableSigned) out;
         out = mark_valid kFieldTemperature (temperature out \<noteq> kUnavailableSigned) out;
         out = mark_valid kFieldVocIndex (voc_index out \<noteq> kUnavailableSigned) out;
         out = mark_valid kFieldNoxIndex (nox_index out \<noteq> kUnavailableSigned) out;
         out = mark_valid kFieldCo2 (v_co2 \<noteq> kUnavailableUnsigned) out
     in Some (True, out)))))))))))"

text \<open>The character loop of \<^verbatim>\<open>ParseSerialNumber\<close>, with its index \<open>i\<close> and its cursor \<open>n\<close>.\<close>

function serial_loop :: "bytes \<Rightarrow> nat \<Rightarrow> nat \<Rightarrow> bytes \<Rightarrow> (nat \<times> bytes) option" where
  "serial_loop raw i n out =
     (if i < kSerialWords
      then (let w = drop (i * kWordSize) raw in
            Option.bind (rd w 0) (\<lambda>c0.
            Option.bind (wr out n c0) (\<lambda>out.
            Option.bind (rd w 1) (\<lambda>c1.
            Option.bind (wr out (n + 1) c1) (\<lambda>out.
            serial_loop raw (Suc i) (n + 2) out)))))
      else Some (n, out))"
  by pat_completeness auto
termination
  by (relation "measure (\<lambda>(raw, i, n, out). kSerialWords - i)") auto

declare serial_loop.simps [simp del]

definition ParseSerialNumber :: "bytes \<Rightarrow> bytes \<Rightarrow> (bool \<times> bytes) option" where
  "ParseSerialNumber raw out =
     Option.bind (CheckWordsCrc raw kSerialWords) (\<lambda>ok.
     if \<not> ok then Some (False, out) else
     Option.bind (serial_loop raw 0 0 out) (\<lambda>(n, out).
     Option.bind (wr out n 0) (\<lambda>out.
     Some (True, out))))"

section \<open>The sensor's side of the wire format\<close>

definition hi_byte :: "u16 \<Rightarrow> u8" where
  "hi_byte w = ucast (drop_bit 8 w)"

definition lo_byte :: "u16 \<Rightarrow> u8" where
  "lo_byte w = ucast (w AND 0xFF)"

definition PutWord :: "u16 \<Rightarrow> bytes" where
  "PutWord value = [hi_byte value, lo_byte value, crc_of [hi_byte value, lo_byte value]]"

definition BuildFrame :: "u16 list \<Rightarrow> bytes" where
  "BuildFrame words = concat (map PutWord words)"

text \<open>\<^verbatim>\<open>strncpy\<close> into a zeroed array of 32 characters, then one word for each two characters.\<close>

definition BuildSerial :: "bytes \<Rightarrow> bytes" where
  "BuildSerial text =
     (let padded = take (kSerialWords * 2) (text @ replicate (kSerialWords * 2) 0)
      in BuildFrame (map (\<lambda>i. push_bit 8 (ucast (padded ! (2 * i))) OR ucast (padded ! (2 * i + 1)))
           [0..<kSerialWords]))"

section \<open>Words and bytes\<close>

definition join :: "u8 \<Rightarrow> u8 \<Rightarrow> u16" where
  "join hi lo = push_bit 8 (ucast hi) OR ucast lo"

lemma bit_join: "bit (join hi lo) n \<longleftrightarrow> (if n < 8 then bit lo n else n < 16 \<and> bit hi (n - 8))"
  by (auto simp: join_def bit_or_iff bit_push_bit_iff bit_ucast_iff possible_bit_def dest: bit_imp_le_length)

lemma bit_hi_byte: "bit (hi_byte w) n \<longleftrightarrow> n < 8 \<and> bit w (n + 8)"
  by (auto simp add: hi_byte_def bit_ucast_iff bit_drop_bit_eq possible_bit_def add.commute [of 8])

lemma bit_lo_byte: "bit (lo_byte w) n \<longleftrightarrow> n < 8 \<and> bit w n"
proof -
  have "lo_byte w = ucast (w AND mask 8)" by (simp add: lo_byte_def mask_eq_exp_minus_1)
  then show ?thesis
    by (auto simp: bit_ucast_iff bit_and_iff bit_mask_iff possible_bit_def)
qed

lemma join_bytes [simp]: "join (hi_byte w) (lo_byte w) = w"
  by (rule bit_word_eqI) (auto simp: bit_join bit_hi_byte bit_lo_byte)

lemma hi_join [simp]: "hi_byte (join a b) = a"
  by (rule bit_word_eqI) (simp add: bit_join bit_hi_byte)

lemma lo_join [simp]: "lo_byte (join a b) = b"
  by (rule bit_word_eqI) (simp add: bit_join bit_lo_byte)

lemma Word_at_Cons [simp]: "Word_at (a # b # p) = Some (join a b)"
  by (simp add: Word_at_def join_def)

lemma length_BuildFrame [simp]: "length (BuildFrame ws) = 3 * length ws"
  by (induction ws) (simp_all add: BuildFrame_def PutWord_def)

lemma BuildFrame_simps [simp]:
  "BuildFrame [] = []"
  "BuildFrame (w # ws) = hi_byte w # lo_byte w # crc_of [hi_byte w, lo_byte w] # BuildFrame ws"
  by (simp_all add: BuildFrame_def PutWord_def)

text \<open>The words of a buffer, its checksum bytes left out, and the test of all its checksums.\<close>

fun payload_words :: "bytes \<Rightarrow> u16 list" where
  "payload_words (a # b # c # p) = join a b # payload_words p"
| "payload_words _ = []"

fun frame_ok :: "bytes \<Rightarrow> bool" where
  "frame_ok (a # b # c # p) \<longleftrightarrow> crc_of [a, b] = c \<and> frame_ok p"
| "frame_ok _ \<longleftrightarrow> True"

lemma payload_words_BuildFrame [simp]: "payload_words (BuildFrame ws) = ws"
  by (induction ws) simp_all

lemma BuildFrame_inject [simp]: "BuildFrame vs = BuildFrame ws \<longleftrightarrow> vs = ws"
  by (metis payload_words_BuildFrame)

lemma frame_ok_BuildFrame [simp]: "frame_ok (BuildFrame ws)"
  by (induction ws) simp_all

lemma BuildFrame_payload:
  "length raw = 3 * n \<Longrightarrow> frame_ok raw \<Longrightarrow> BuildFrame (payload_words raw) = raw"
proof (induction n arbitrary: raw)
  case 0
  then show ?case by simp
next
  case (Suc n)
  obtain a b c p where "raw = a # b # c # p" "length p = 3 * n"
    using Suc.prems(1) by (rule split_first_three)
  with Suc show ?case by simp
qed

lemma length_payload_words: "length raw = 3 * n \<Longrightarrow> length (payload_words raw) = n"
proof (induction n arbitrary: raw)
  case 0
  then show ?case by simp
next
  case (Suc n)
  obtain a b c p where "raw = a # b # c # p" "length p = 3 * n"
    using Suc.prems by (rule split_first_three)
  with Suc show ?case by simp
qed

lemma check_loop_frame_ok:
  "length buf = 3 * words \<Longrightarrow> i \<le> words \<Longrightarrow>
   check_loop buf i words = Some (frame_ok (drop (3 * i) buf))"
proof (induction buf i words rule: check_loop.induct)
  case (1 buf i words)
  show ?case
  proof (cases "i < words")
    case True
    then have "length (drop (3 * i) buf) = 3 * Suc (words - Suc i)"
      using "1.prems" by simp
    then obtain a b c p where w: "drop (3 * i) buf = a # b # c # p"
      by (rule split_first_three)
    have "drop (3 * Suc i) buf = drop 3 (drop (3 * i) buf)"
      by (simp add: drop_drop)
    then have p: "drop (3 * Suc i) buf = p"
      by (simp add: w)
    have "check_loop buf (Suc i) words = Some (frame_ok p)" if "crc_of [a, b] = c"
      using "1.IH" [of "drop (3 * i) buf" c c] "1.prems" True w p that
      by (simp add: kWordSize_def mult.commute [of i] Crc_eq)
    with True w show ?thesis
      by (subst check_loop.simps) (simp add: kWordSize_def mult.commute [of i] Crc_eq)
  next
    case False
    with "1.prems" show ?thesis by (subst check_loop.simps) simp
  qed
qed

lemma CheckWordsCrc_eq: "length buf = 3 * words \<Longrightarrow> CheckWordsCrc buf words = Some (frame_ok buf)"
  by (simp add: CheckWordsCrc_def check_loop_frame_ok)


lemma drop_three: "drop (3 + k) (a # b # c # p) = drop k p"
  by (simp add: numeral_3_eq_3)

lemma Word_at_drop:
  "length raw = 3 * n \<Longrightarrow> k < n \<Longrightarrow> Word_at (drop (3 * k) raw) = Some (payload_words raw ! k)"
proof (induction n arbitrary: raw k)
  case 0
  then show ?case by simp
next
  case (Suc n)
  obtain a b c p where "raw = a # b # c # p" "length p = 3 * n"
    using Suc.prems(1) by (rule split_first_three)
  with Suc show ?case by (cases k) (simp_all add: drop_three)
qed

section \<open>What the measurement parser computes\<close>

definition all_fields :: "Field list" where
  "all_fields = [kFieldPm1p0, kFieldPm2p5, kFieldPm4p0, kFieldPm10, kFieldHumidity,
     kFieldTemperature, kFieldVocIndex, kFieldNoxIndex, kFieldCo2]"

text \<open>The member a field's bit stands for, and the value that says the sensor has no reading.\<close>

primrec channel :: "Field \<Rightarrow> Measurement \<Rightarrow> u16" where
  "channel kFieldPm1p0 m = pm1p0 m"
| "channel kFieldPm2p5 m = pm2p5 m"
| "channel kFieldPm4p0 m = pm4p0 m"
| "channel kFieldPm10 m = pm10 m"
| "channel kFieldHumidity m = humidity m"
| "channel kFieldTemperature m = temperature m"
| "channel kFieldVocIndex m = voc_index m"
| "channel kFieldNoxIndex m = nox_index m"
| "channel kFieldCo2 m = co2 m"

fun is_signed :: "Field \<Rightarrow> bool" where
  "is_signed f \<longleftrightarrow> f \<in> {kFieldHumidity, kFieldTemperature, kFieldVocIndex, kFieldNoxIndex}"

definition sentinel :: "Field \<Rightarrow> u16" where
  "sentinel f = (if is_signed f then kUnavailableSigned else kUnavailableUnsigned)"

definition valid_of :: "u16 list \<Rightarrow> u16" where
  "valid_of ws =
     foldl (\<lambda>v f. v OR (if ws ! field_bit f \<noteq> sentinel f then field_mask f else 0)) 0 all_fields"

definition decode :: "u16 list \<Rightarrow> Measurement" where
  "decode ws =
     \<lparr>pm1p0 = ws ! 0, pm2p5 = ws ! 1, pm4p0 = ws ! 2, pm10 = ws ! 3, humidity = ws ! 4,
      temperature = ws ! 5, voc_index = ws ! 6, nox_index = ws ! 7, co2 = ws ! 8,
      valid = valid_of ws\<rparr>"

lemma set_all_fields [simp]: "f \<in> set all_fields"
  by (cases f) (simp_all add: all_fields_def)

lemma field_bit_less: "field_bit f < 9"
  by (cases f) simp_all

lemma field_bit_inject [simp]: "field_bit f = field_bit g \<longleftrightarrow> f = g"
  by (cases f; cases g) simp_all

lemma bit_field_mask [simp]: "bit (field_mask f) n \<longleftrightarrow> n = field_bit f"
  using field_bit_less [of f] by (auto simp: field_mask_def bit_simps)

lemma and_field_mask: "w AND field_mask f \<noteq> 0 \<longleftrightarrow> bit w (field_bit f)"
  unfolding field_mask_def by (rule word_and_bit_iff)

lemma is_valid_iff: "is_valid m f \<longleftrightarrow> bit (valid m) (field_bit f)"
  by (simp add: is_valid_def and_field_mask)

lemma mark_valid_eq:
  "mark_valid f c m = m\<lparr>valid := valid m OR (if c then field_mask f else 0)\<rparr>"
  by (simp add: mark_valid_def)

lemma bit_foldl_mask:
  "bit (foldl (\<lambda>v f. v OR (if P f then field_mask f else 0)) v fs) n \<longleftrightarrow>
   bit v n \<or> (\<exists>f \<in> set fs. P f \<and> n = field_bit f)"
  by (induction fs arbitrary: v) (auto simp: bit_or_iff)

lemma bit_valid_of: "bit (valid_of ws) n \<longleftrightarrow> (\<exists>f. ws ! field_bit f \<noteq> sentinel f \<and> n = field_bit f)"
  by (auto simp: valid_of_def bit_foldl_mask)

lemma is_valid_decode: "is_valid (decode ws) f \<longleftrightarrow> ws ! field_bit f \<noteq> sentinel f"
  by (auto simp: is_valid_iff decode_def bit_valid_of)

lemma channel_decode [simp]: "channel f (decode ws) = ws ! field_bit f"
  by (cases f) (simp_all add: decode_def)

text \<open>No bit of \<open>valid\<close> other than the nine fields' is ever set.\<close>

lemma valid_decode_bits: "bit (valid (decode ws)) n \<Longrightarrow> n < 9"
  by (auto simp: decode_def bit_valid_of field_bit_less)

lemma ParseMeasurement_eq:
  assumes "length raw = kMeasurementBytes"
  shows "ParseMeasurement raw out =
    Some (if frame_ok raw then (True, decode (payload_words raw)) else (False, out))"
proof -
  have len: "length raw = 3 * 9" using assms by (simp add: layout_defs)
  have words: "Word_at (drop (k * kWordSize) raw) = Some (payload_words raw ! k)" if "k < 9" for k
    using Word_at_drop [OF len that] by (simp add: layout_defs mult.commute)
  show ?thesis
    using CheckWordsCrc_eq [OF len]
    by (simp add: ParseMeasurement_def kMeasurementWords_def words words [of 0, simplified]
      words [of 1, simplified] Measurement_init_def
      mark_valid_eq decode_def valid_of_def all_fields_def sentinel_def)
qed

lemma ParseMeasurement_frame:
  "length ws = kMeasurementWords \<Longrightarrow> ParseMeasurement (BuildFrame ws) out = Some (True, decode ws)"
  by (simp add: ParseMeasurement_eq layout_defs)

section \<open>Corrupted frames\<close>

lemma weight_simps [simp]: "weight [] = 0" "weight (e # es) = pop_count e + weight es"
  by (simp_all add: weight_def)

lemma xor_bytes_simps [simp]:
  "xor_bytes [] [] = []" "xor_bytes (b # bs) (e # es) = (b XOR e) # xor_bytes bs es"
  by (simp_all add: xor_bytes_def)

lemma corrupted_frame:
  "length es = 3 * length ws \<Longrightarrow> weight es \<in> {1, 2, 3} \<Longrightarrow> \<not> frame_ok (xor_bytes (BuildFrame ws) es)"
proof (induction ws arbitrary: es)
  case Nil
  then show ?case by simp
next
  case (Cons w ws)
  obtain e0 e1 e2 es' where es: "es = e0 # e1 # e2 # es'" "length es' = 3 * length ws"
    by (rule split_first_three [of es "length ws"]) (use Cons.prems(1) in simp_all)
  show ?case
  proof (cases "weight [e0, e1, e2] = 0")
    case True
    then have "weight es' \<in> {1, 2, 3}" using Cons.prems(2) es by simp
    then show ?thesis using Cons.IH [OF es(2)] es(1) by simp
  next
    case False
    have "weight [e0, e1, e2] \<le> 3" using Cons.prems(2) es(1) by auto
    with False have "odd (weight [e0, e1, e2]) \<or> weight [e0, e1, e2] = 2"
      by (metis One_nat_def Suc_1 le_SucE le_zero_eq numeral_3_eq_3 odd_Suc_minus_one even_Suc odd_one)
    then show ?thesis
      using flips_break_checksum [OF refl, of e0 e1 e2] es(1) by simp
  qed
qed


section \<open>What the serial-number parser computes\<close>

fun payload_bytes :: "bytes \<Rightarrow> bytes" where
  "payload_bytes (a # b # c # p) = a # b # payload_bytes p"
| "payload_bytes _ = []"

lemma length_payload_bytes: "length raw = 3 * n \<Longrightarrow> length (payload_bytes raw) = 2 * n"
proof (induction n arbitrary: raw)
  case 0
  then show ?case by simp
next
  case (Suc n)
  obtain a b c p where "raw = a # b # c # p" "length p = 3 * n"
    using Suc.prems by (rule split_first_three)
  with Suc show ?case by simp
qed

lemma serial_loop_eq:
  "length raw = kSerialBytes \<Longrightarrow> length out = kSerialChars \<Longrightarrow> i \<le> kSerialWords \<Longrightarrow> n = 2 * i \<Longrightarrow>
   serial_loop raw i n out =
     Some (32, take n out @ payload_bytes (drop (3 * i) raw) @ drop 32 out)"
proof (induction raw i n out rule: serial_loop.induct)
  case (1 raw i n out)
  show ?case
  proof (cases "i < kSerialWords")
    case True
    then have "length (drop (3 * i) raw) = 3 * Suc (15 - i)"
      using "1.prems" by (simp add: layout_defs)
    then obtain a b c p where w: "drop (3 * i) raw = a # b # c # p"
      by (rule split_first_three)
    have "drop (3 * Suc i) raw = drop 3 (drop (3 * i) raw)"
      by (simp add: drop_drop)
    then have p: "drop (3 * Suc i) raw = p"
      by (simp add: w)
    let ?out = "out[n := a, Suc n := b]"
    have len: "Suc n < length out" using True "1.prems" by (simp add: layout_defs)
    then have out: "take (n + 2) ?out = take n out @ [a, b]" "drop 32 ?out = drop 32 out"
      using True "1.prems"
      by (simp_all add: take_Suc_conv_app_nth layout_defs)
    have "serial_loop raw (Suc i) (n + 2) ?out
        = Some (32, take (n + 2) ?out @ payload_bytes (drop (3 * Suc i) raw) @ drop 32 ?out)"
    proof (rule "1.IH" [OF True refl, of a "out[n := a]" b ?out])
      show "rd (drop (i * kWordSize) raw) 0 = Some a" "rd (drop (i * kWordSize) raw) 1 = Some b"
        using w by (simp_all add: kWordSize_def mult.commute [of i])
      show "wr out n a = Some (out[n := a])" "wr (out[n := a]) (n + 1) b = Some ?out"
        using len by simp_all
    qed (use "1.prems" True in simp_all)
    then show ?thesis
      using True w len unfolding p out
      by (subst serial_loop.simps) (simp add: layout_defs mult.commute [of i])
  next
    case False
    with "1.prems" show ?thesis
      by (subst serial_loop.simps) (simp add: layout_defs)
  qed
qed

lemma ParseSerialNumber_eq:
  assumes "length raw = kSerialBytes" and "length out = kSerialChars"
  shows "ParseSerialNumber raw out =
    Some (if frame_ok raw then (True, payload_bytes raw @ [0]) else (False, out))"
proof -
  have "CheckWordsCrc raw kSerialWords = Some (frame_ok raw)"
    using assms(1) by (intro CheckWordsCrc_eq) (simp add: layout_defs)
  moreover have "serial_loop raw 0 0 out = Some (32, payload_bytes raw @ drop 32 out)"
    using serial_loop_eq [OF assms, of 0 0] by simp
  moreover have "length (payload_bytes raw) = 32"
    using length_payload_bytes [of raw 16] assms(1) by (simp add: layout_defs)
  moreover have "\<exists>x. drop 32 out = [x]"
    using assms(2) by (cases "drop 32 out") (auto simp: layout_defs Cons_eq_append_conv dest: arg_cong [of _ _ length])
  ultimately show ?thesis
    by (auto simp: ParseSerialNumber_def list_update_append)
qed

text \<open>The string a NUL-terminated character array holds.\<close>

definition c_string :: "bytes \<Rightarrow> bytes" where
  "c_string cs = takeWhile (\<lambda>c. c \<noteq> 0) cs"

lemma payload_bytes_BuildFrame:
  "payload_bytes (BuildFrame ws) = concat (map (\<lambda>w. [hi_byte w, lo_byte w]) ws)"
  by (induction ws) simp_all

lemma concat_pairs:
  "length cs = 2 * n \<Longrightarrow> concat (map (\<lambda>i. [cs ! (2 * i), cs ! (2 * i + 1)]) [0..<n]) = cs"
proof (induction n arbitrary: cs)
  case 0
  then show ?case by simp
next
  case (Suc n)
  then obtain a b ds where cs: "cs = a # b # ds" "length ds = 2 * n"
    by (auto simp: length_Suc_conv)
  have "map (\<lambda>i. [cs ! (2 * i), cs ! (2 * i + 1)]) [0..<Suc n]
      = [a, b] # map (\<lambda>i. [ds ! (2 * i), ds ! (2 * i + 1)]) [0..<n]"
    by (simp add: upt_conv_Cons map_Suc_upt [symmetric] cs comp_def del: upt_Suc)
  then show ?case using Suc.IH [OF cs(2)] by (simp add: cs(1))
qed

lemma payload_bytes_BuildSerial:
  "payload_bytes (BuildSerial text) = take 32 (text @ replicate 32 0)"
proof -
  let ?padded = "take 32 (text @ replicate 32 (0 :: u8))"
  have "payload_bytes (BuildSerial text)
      = concat (map (\<lambda>i. [?padded ! (2 * i), ?padded ! (2 * i + 1)]) [0..<16])"
    by (simp add: BuildSerial_def Let_def payload_bytes_BuildFrame layout_defs comp_def
      flip: join_def)
  also have "\<dots> = ?padded" by (rule concat_pairs) simp
  finally show ?thesis .
qed

lemma c_string_padded:
  assumes "length text \<le> 32" and "0 \<notin> set text"
  shows "c_string (take 32 (text @ replicate 32 0) @ [0]) = text"
  using assms by (auto simp: c_string_def takeWhile_append takeWhile_eq_all_conv)

lemma length_BuildSerial: "length (BuildSerial text) = kSerialBytes"
  by (simp add: BuildSerial_def Let_def layout_defs)

lemma frame_ok_BuildSerial: "frame_ok (BuildSerial text)"
  by (simp add: BuildSerial_def Let_def)


section \<open>Properties\<close>

text \<open>The frame the tests of the parser start from.\<close>

definition plausible_words :: "u16 list" where
  "plausible_words = [100, 150, 180, 200, 4550, 4400, 120, 10, 800]"

lemma frame_accepted_iff:
  assumes "length raw = kMeasurementBytes"
  shows "frame_ok raw \<longleftrightarrow> (\<exists>ws. length ws = kMeasurementWords \<and> raw = BuildFrame ws)"
proof
  assume ok: "frame_ok raw"
  have len: "length raw = 3 * 9" using assms by (simp add: layout_defs)
  have "length (payload_words raw) = kMeasurementWords"
    using length_payload_words [OF len] by (simp add: layout_defs)
  moreover have "raw = BuildFrame (payload_words raw)"
    using BuildFrame_payload [OF len ok] by simp
  ultimately show "\<exists>ws. length ws = kMeasurementWords \<and> raw = BuildFrame ws" by blast
qed auto

text \<open>
  C1. A 27-byte response is accepted exactly when it is the encoding of nine 16-bit words, it
  then decodes to those words, and every other response is refused with the caller's
  measurement left as it was.  No byte outside the response is read.
\<close>

theorem ParseMeasurement_accepts_encodings:
  assumes "length raw = kMeasurementBytes"
  shows "(ParseMeasurement raw out = Some (True, m) \<longleftrightarrow>
      (\<exists>ws. length ws = kMeasurementWords \<and> raw = BuildFrame ws \<and> m = decode ws)) \<and>
    (ParseMeasurement raw out = Some (False, m) \<longleftrightarrow>
      (\<nexists>ws. length ws = kMeasurementWords \<and> raw = BuildFrame ws) \<and> m = out)"
  using frame_accepted_iff [OF assms] by (auto simp: ParseMeasurement_eq [OF assms])

theorem ParseMeasurement_accepts_encodings_witness:
  "ParseMeasurement (BuildFrame plausible_words) Measurement_init = Some (True, decode plausible_words)"
proof -
  have "length (BuildFrame plausible_words) = kMeasurementBytes"
    by (simp add: layout_defs plausible_words_def)
  from ParseMeasurement_accepts_encodings [OF this, of Measurement_init "decode plausible_words"]
  show ?thesis by (auto simp: layout_defs plausible_words_def simp del: BuildFrame_simps)
qed

text \<open>
  C15. Every channel of an accepted frame carries the word the sensor sent for it, its validity
  bit is set exactly when that word is not the channel's sentinel (0x7FFF for humidity,
  temperature, VOC and NOx, 0xFFFF for the particulate channels and CO2), and \<^verbatim>\<open>valid\<close> has no
  bit beside those nine.
\<close>

theorem ParseMeasurement_validity:
  assumes "length ws = kMeasurementWords"
  shows "\<exists>m. ParseMeasurement (BuildFrame ws) out = Some (True, m) \<and>
    (\<forall>f. channel f m = ws ! field_bit f \<and> (is_valid m f \<longleftrightarrow> ws ! field_bit f \<noteq> sentinel f)) \<and>
    drop_bit 9 (valid m) = 0"
proof -
  have "drop_bit 9 (valid (decode ws)) = 0"
    by (rule bit_word_eqI) (auto simp: bit_drop_bit_eq dest: valid_decode_bits)
  then show ?thesis
    using ParseMeasurement_frame [OF assms, of out] by (simp add: is_valid_decode)
qed

theorem ParseMeasurement_validity_witness:
  "\<exists>m. ParseMeasurement (BuildFrame (plausible_words[5 := 0x7FFF])) Measurement_init = Some (True, m) \<and>
     \<not> is_valid m kFieldTemperature \<and> is_valid m kFieldHumidity \<and> channel kFieldCo2 m = 800"
proof -
  let ?ws = "plausible_words[5 := 0x7FFF]"
  have "length ?ws = kMeasurementWords" by (simp add: plausible_words_def layout_defs)
  from ParseMeasurement_validity [OF this, of Measurement_init] obtain m
    where m: "ParseMeasurement (BuildFrame ?ws) Measurement_init = Some (True, m)"
      and ch: "\<And>f. channel f m = ?ws ! field_bit f"
      and va: "\<And>f. is_valid m f \<longleftrightarrow> ?ws ! field_bit f \<noteq> sentinel f" by auto
  have "channel kFieldCo2 m = 800" unfolding ch by (simp add: plausible_words_def)
  moreover have "\<not> is_valid m kFieldTemperature" "is_valid m kFieldHumidity"
    unfolding va by (simp_all add: plausible_words_def sentinel_def sentinel_defs)
  ultimately show ?thesis using m by blast
qed

text \<open>
  C16. Flip any one, two or three of the 216 bits of a valid response, checksum bytes included:
  the frame is refused and the caller's measurement is left as it was.
\<close>

theorem ParseMeasurement_detects_three_flips:
  assumes "length ws = kMeasurementWords" and "length es = kMeasurementBytes"
    and "weight es \<in> {1, 2, 3}"
  shows "ParseMeasurement (xor_bytes (BuildFrame ws) es) out = Some (False, out)"
proof -
  have "length (xor_bytes (BuildFrame ws) es) = kMeasurementBytes"
    using assms by (simp add: xor_bytes_def layout_defs)
  moreover have "\<not> frame_ok (xor_bytes (BuildFrame ws) es)"
    using assms by (intro corrupted_frame) (simp_all add: layout_defs)
  ultimately show ?thesis by (simp add: ParseMeasurement_eq)
qed

theorem ParseMeasurement_detects_three_flips_witness:
  "ParseMeasurement (xor_bytes (BuildFrame plausible_words) ([0, 0, 0x81] @ replicate 23 0 @ [4])) Measurement_init
     = Some (False, Measurement_init)"
  by (rule ParseMeasurement_detects_three_flips)
    (simp_all add: plausible_words_def layout_defs weight_def pop_count_def bits_of_def upto_8
      sum_list_replicate)

text \<open>
  C18. The serial-number parser inverts the sensor's encoding: whatever the 33-character buffer
  held before, the C string in it afterwards is the text of up to 32 characters the sensor
  sent, and all 33 characters are written inside the buffer.
\<close>

theorem ParseSerialNumber_roundtrip:
  assumes "length text \<le> 32" and "0 \<notin> set text" and "length out = kSerialChars"
  shows "\<exists>out'. ParseSerialNumber (BuildSerial text) out = Some (True, out') \<and>
    length out' = kSerialChars \<and> c_string out' = text"
proof -
  let ?out = "take 32 (text @ replicate 32 0) @ [0]"
  have "ParseSerialNumber (BuildSerial text) out = Some (True, ?out)"
    using assms(3) by (simp add: ParseSerialNumber_eq length_BuildSerial frame_ok_BuildSerial
      payload_bytes_BuildSerial)
  moreover have "c_string ?out = text"
    using assms(1,2) by (rule c_string_padded)
  ultimately show ?thesis by (simp add: layout_defs)
qed

theorem ParseSerialNumber_roundtrip_witness:
  "\<exists>out'. ParseSerialNumber (BuildSerial [0x53, 0x45, 0x4E, 0x36, 0x36]) (replicate 33 0xAA)
     = Some (True, out') \<and> c_string out' = [0x53, 0x45, 0x4E, 0x36, 0x36]"
  using ParseSerialNumber_roundtrip [of "[0x53, 0x45, 0x4E, 0x36, 0x36]" "replicate 33 0xAA"]
  by (auto simp: layout_defs)

text \<open>
  Any 48-byte response the serial-number parser accepts leaves a terminator at index 32, so
  reading the buffer as a C string never runs past it; a response it refuses leaves the
  caller's buffer as it was.
\<close>

theorem ParseSerialNumber_terminates_string:
  assumes "length raw = kSerialBytes" and "length out = kSerialChars"
  shows "ParseSerialNumber raw out \<noteq> None \<and>
    (\<forall>out'. ParseSerialNumber raw out = Some (True, out') \<longrightarrow>
       length out' = kSerialChars \<and> out' ! 32 = 0 \<and> length (c_string out') \<le> 32) \<and>
    (\<forall>out'. ParseSerialNumber raw out = Some (False, out') \<longrightarrow> out' = out)"
proof -
  have len: "length (payload_bytes raw) = 32"
    using length_payload_bytes [of raw 16] assms(1) by (simp add: layout_defs)
  have "length (c_string (payload_bytes raw @ [0])) \<le> 32"
    using length_takeWhile_le [of "\<lambda>c. c \<noteq> 0" "payload_bytes raw"] len
    by (auto simp: c_string_def takeWhile_append)
  then show ?thesis
    using len by (auto simp: ParseSerialNumber_eq [OF assms] layout_defs nth_append split: if_splits)
qed

theorem ParseSerialNumber_terminates_string_witness:
  "\<exists>out'. ParseSerialNumber (BuildSerial (replicate 40 0x41)) (replicate 33 0xAA) = Some (True, out') \<and>
     out' ! 32 = 0 \<and> length (c_string out') \<le> 32"
proof -
  let ?raw = "BuildSerial (replicate 40 0x41)" and ?out = "replicate 33 (0xAA :: u8)"
  have len: "length ?raw = kSerialBytes" "length ?out = kSerialChars"
    by (simp_all add: length_BuildSerial layout_defs)
  obtain out' where "ParseSerialNumber ?raw ?out = Some (True, out')"
    by (simp add: ParseSerialNumber_eq [OF len] frame_ok_BuildSerial)
  with ParseSerialNumber_terminates_string [OF len] show ?thesis by blast
qed

end
