(* ===== verification/Measurement_Policy.thy ===== *)
theory Measurement_Policy
  imports Sen66_Protocol
begin

text \<open>
  \<^verbatim>\<open>src/measurement_service/measurement_policy.h\<close> and \<^verbatim>\<open>measurement_policy.cpp\<close>: the
  poll, retry, backoff and notify decisions.  The class is a record, its member functions
  take the record and return it updated.  \<^verbatim>\<open>uint32_t\<close> and \<^verbatim>\<open>uint16_t\<close> members are words and
  wrap as they do in the code; \<^verbatim>\<open>int64_t\<close> timestamps are integers, and the lemma
  \<open>timestamps_do_not_overflow\<close> shows that their differences fit.
\<close>

unbundle bit_operations_syntax

section \<open>The state\<close>

record ChangeThresholds =
  th_pm :: u16
  th_temperature :: u16
  th_humidity :: u16
  th_co2 :: u16
  th_index :: u16

definition ChangeThresholds_default :: ChangeThresholds where
  "ChangeThresholds_default =
     \<lparr>th_pm = 50, th_temperature = 100, th_humidity = 300, th_co2 = 50, th_index = 20\<rparr>"

record PolicyConfig =
  pollIntervalMs :: u32
  notifyIntervalMs :: u32
  failureThreshold :: u32
  backoffStepsMs :: "u32 list"
  thresholds :: ChangeThresholds

definition PolicyConfig_default :: PolicyConfig where
  "PolicyConfig_default =
     \<lparr>pollIntervalMs = 1000, notifyIntervalMs = 7000, failureThreshold = 3,
      backoffStepsMs = [2000, 5000, 10000, 30000], thresholds = ChangeThresholds_default\<rparr>"

text \<open>\<^verbatim>\<open>sizeof(config_.backoffStepsMs) / sizeof(config_.backoffStepsMs[0])\<close> of a \<^verbatim>\<open>uint32_t[4]\<close>.\<close>

definition kBackoffStepCount :: nat where
  "kBackoffStepCount = 16 div 4"

record Policy =
  config :: PolicyConfig
  latest :: Measurement
  hasEverBeenValid :: bool
  lastUpdateMs :: i64
  lastNotified :: Measurement
  lastNotifyMs :: i64
  shouldNotify :: bool
  changedMask :: u16
  consecutiveFailures :: u32
  inBackoff :: bool
  backoffStepIndex :: nat

definition Policy_init :: "PolicyConfig \<Rightarrow> Policy" where
  "Policy_init cfg =
     \<lparr>config = cfg, latest = Measurement_init, hasEverBeenValid = False, lastUpdateMs = 0,
      lastNotified = Measurement_init, lastNotifyMs = 0, shouldNotify = False, changedMask = 0,
      consecutiveFailures = 0, inBackoff = False, backoffStepIndex = 0\<rparr>"

section \<open>The operations\<close>

definition AbsDeltaU16 :: "u16 \<Rightarrow> u16 \<Rightarrow> u16" where
  "AbsDeltaU16 a b = (if b < a then a - b else b - a)"

definition AbsDeltaS16 :: "i16 \<Rightarrow> i16 \<Rightarrow> u16" where
  "AbsDeltaS16 a b =
     (let diff = sint a - sint b in word_of_int (if diff < 0 then - diff else diff))"

text \<open>\<^verbatim>\<open>if ((bothValid & kField...) && delta >= threshold) mask |= kField...\<close>\<close>

definition mark_changed :: "u16 \<Rightarrow> Field \<Rightarrow> u16 \<Rightarrow> u16 \<Rightarrow> u16 \<Rightarrow> u16" where
  "mark_changed bothValid f delta threshold msk =
     (if bothValid AND field_mask f \<noteq> 0 \<and> threshold \<le> delta then msk OR field_mask f else msk)"

definition DeltaMask :: "Measurement \<Rightarrow> Measurement \<Rightarrow> ChangeThresholds \<Rightarrow> u16" where
  "DeltaMask prev fresh t =
     (let both = valid prev AND valid fresh;
          msk = 0;
          msk = mark_changed both kFieldPm1p0 (AbsDeltaU16 (pm1p0 prev) (pm1p0 fresh)) (th_pm t) msk;
          msk = mark_changed both kFieldPm2p5 (AbsDeltaU16 (pm2p5 prev) (pm2p5 fresh)) (th_pm t) msk;
          msk = mark_changed both kFieldPm4p0 (AbsDeltaU16 (pm4p0 prev) (pm4p0 fresh)) (th_pm t) msk;
          msk = mark_changed both kFieldPm10 (AbsDeltaU16 (pm10 prev) (pm10 fresh)) (th_pm t) msk;
          msk = mark_changed both kFieldHumidity
                   (AbsDeltaS16 (humidity prev) (humidity fresh)) (th_humidity t) msk;
          msk = mark_changed both kFieldTemperature
                   (AbsDeltaS16 (temperature prev) (temperature fresh)) (th_temperature t) msk;
          msk = mark_changed both kFieldVocIndex
                   (AbsDeltaS16 (voc_index prev) (voc_index fresh)) (th_index t) msk;
          msk = mark_changed both kFieldNoxIndex
                   (AbsDeltaS16 (nox_index prev) (nox_index fresh)) (th_index t) msk;
          msk = mark_changed both kFieldCo2 (AbsDeltaU16 (co2 prev) (co2 fresh)) (th_co2 t) msk
      in msk)"

definition EvaluateNotify :: "Policy \<Rightarrow> Measurement \<Rightarrow> Policy" where
  "EvaluateNotify p fresh =
     (if valid fresh = 0 \<and> valid (lastNotified p) = 0 then p
      else
        let msk = valid fresh XOR valid (lastNotified p);
            msk = msk OR DeltaMask (lastNotified p) fresh (thresholds (config p));
            intervalElapsed =
              (lastUpdateMs p - lastNotifyMs p \<ge> uint (notifyIntervalMs (config p)))
        in if msk \<noteq> 0 \<or> intervalElapsed
           then p\<lparr>shouldNotify := True, changedMask := msk\<rparr>
           else p)"

definition OnReadResult :: "Policy \<Rightarrow> errno \<Rightarrow> Measurement \<Rightarrow> i64 \<Rightarrow> Policy" where
  "OnReadResult p err m nowMs =
     (let p = p\<lparr>shouldNotify := False, changedMask := 0\<rparr> in
      if err \<noteq> 0
      then
        (let p = p\<lparr>consecutiveFailures := consecutiveFailures p + 1\<rparr> in
         if failureThreshold (config p) \<le> consecutiveFailures p
         then (if \<not> inBackoff p
               then p\<lparr>inBackoff := True, backoffStepIndex := 0\<rparr>
               else if backoffStepIndex p + 1 < kBackoffStepCount
               then p\<lparr>backoffStepIndex := backoffStepIndex p + 1\<rparr>
               else p)
         else p)
      else
        (let p = p\<lparr>consecutiveFailures := 0, inBackoff := False, backoffStepIndex := 0\<rparr>;
             p = p\<lparr>latest := m, lastUpdateMs := nowMs\<rparr>;
             p = (if valid m \<noteq> 0 then p\<lparr>hasEverBeenValid := True\<rparr> else p)
         in EvaluateNotify p m))"

text \<open>\<^verbatim>\<open>GetLatest\<close> returns false with its out parameters untouched (\<open>None\<close>), or true with both set.\<close>

definition GetLatest :: "Policy \<Rightarrow> i64 \<Rightarrow> (Measurement \<times> i64) option" where
  "GetLatest p nowMs =
     (if \<not> hasEverBeenValid p then None else Some (latest p, nowMs - lastUpdateMs p))"

definition ShouldNotify :: "Policy \<Rightarrow> bool" where
  "ShouldNotify p = shouldNotify p"

definition ChangedMask :: "Policy \<Rightarrow> u16" where
  "ChangedMask p = changedMask p"

definition MarkNotified :: "Policy \<Rightarrow> i64 \<Rightarrow> Policy" where
  "MarkNotified p nowMs =
     p\<lparr>lastNotified := latest p, lastNotifyMs := nowMs, shouldNotify := False, changedMask := 0\<rparr>"

text \<open>Indexing the four backoff steps out of range is undefined in the code, \<open>None\<close> here.\<close>

definition NextDelayMs :: "Policy \<Rightarrow> u32 option" where
  "NextDelayMs p =
     (if \<not> inBackoff p then Some (pollIntervalMs (config p))
      else rd (backoffStepsMs (config p)) (backoffStepIndex p))"

definition NeedsRestart :: "Policy \<Rightarrow> bool" where
  "NeedsRestart p = inBackoff p"

section \<open>Deltas\<close>

lemma sint_i16: "- 32768 \<le> sint (a :: i16) \<and> sint a \<le> 32767"
  using sint_range_size [of a] by (simp add: word_size)

lemma uint_AbsDeltaU16: "uint (AbsDeltaU16 a b) = \<bar>uint a - uint b\<bar>"
  by (auto simp: AbsDeltaU16_def word_less_def uint_sub_if')

text \<open>The difference of two signed values needs 17 bits, its magnitude 16: the cast loses nothing.\<close>

lemma uint_AbsDeltaS16: "uint (AbsDeltaS16 a b) = \<bar>sint a - sint b\<bar>"
proof -
  have "0 \<le> \<bar>sint a - sint b\<bar>" "\<bar>sint a - sint b\<bar> < 2 ^ 16"
    using sint_i16 [of a] sint_i16 [of b] by auto
  then have "take_bit 16 \<bar>sint a - sint b\<bar> = \<bar>sint a - sint b\<bar>"
    by (simp add: take_bit_int_eq_self_iff)
  then show ?thesis
    by (simp add: AbsDeltaS16_def Let_def uint_word_of_int_eq abs_if)
qed

text \<open>How far a channel is from another reading of it, in its own signedness, and its threshold.\<close>

definition channel_delta :: "Field \<Rightarrow> Measurement \<Rightarrow> Measurement \<Rightarrow> int" where
  "channel_delta f m n =
     (if is_signed f then \<bar>sint (channel f m) - sint (channel f n)\<bar>
      else \<bar>uint (channel f m) - uint (channel f n)\<bar>)"

primrec channel_threshold :: "Field \<Rightarrow> ChangeThresholds \<Rightarrow> u16" where
  "channel_threshold kFieldPm1p0 t = th_pm t"
| "channel_threshold kFieldPm2p5 t = th_pm t"
| "channel_threshold kFieldPm4p0 t = th_pm t"
| "channel_threshold kFieldPm10 t = th_pm t"
| "channel_threshold kFieldHumidity t = th_humidity t"
| "channel_threshold kFieldTemperature t = th_temperature t"
| "channel_threshold kFieldVocIndex t = th_index t"
| "channel_threshold kFieldNoxIndex t = th_index t"
| "channel_threshold kFieldCo2 t = th_co2 t"

definition moved :: "ChangeThresholds \<Rightarrow> Measurement \<Rightarrow> Measurement \<Rightarrow> Field \<Rightarrow> bool" where
  "moved t prev fresh f \<longleftrightarrow>
     is_valid prev f \<and> is_valid fresh f \<and> uint (channel_threshold f t) \<le> channel_delta f prev fresh"

lemma mark_changed_eq:
  "mark_changed both f delta threshold msk =
     msk OR (if bit both (field_bit f) \<and> uint threshold \<le> uint delta then field_mask f else 0)"
  by (simp add: mark_changed_def and_field_mask word_le_def)

lemma bit_DeltaMask: "bit (DeltaMask prev fresh t) n \<longleftrightarrow> (\<exists>f. n = field_bit f \<and> moved t prev fresh f)"
proof -
  have "DeltaMask prev fresh t =
    foldl (\<lambda>v f. v OR (if moved t prev fresh f then field_mask f else 0)) 0 all_fields"
    by (simp add: DeltaMask_def mark_changed_eq all_fields_def moved_def is_valid_iff bit_and_iff
      channel_delta_def uint_AbsDeltaU16 uint_AbsDeltaS16)
  then show ?thesis by (auto simp: bit_foldl_mask)
qed

text \<open>A channel is reported when its validity flipped or it moved by its threshold or more.\<close>

definition reported :: "ChangeThresholds \<Rightarrow> Measurement \<Rightarrow> Measurement \<Rightarrow> Field \<Rightarrow> bool" where
  "reported t prev fresh f \<longleftrightarrow> is_valid prev f \<noteq> is_valid fresh f \<or> moved t prev fresh f"

text \<open>The validity masks the parser produces have the nine fields' bits only.\<close>

definition well_masked :: "Measurement \<Rightarrow> bool" where
  "well_masked m \<longleftrightarrow> drop_bit 9 (valid m) = 0"

lemma well_masked_bits: "well_masked m \<Longrightarrow> bit (valid m) n \<Longrightarrow> \<exists>f. n = field_bit f"
proof -
  assume "well_masked m" "bit (valid m) n"
  then have "\<not> bit (drop_bit 9 (valid m)) (n - 9)" by (simp add: well_masked_def)
  with \<open>bit (valid m) n\<close> have "n < 9" by (cases "n < 9") (simp_all add: bit_drop_bit_eq)
  then have "n \<in> {0, 1, 2, 3, 4, 5, 6, 7, 8}" by auto
  then have "n \<in> field_bit ` set all_fields" by (auto simp: all_fields_def)
  then show ?thesis by auto
qed

lemma well_masked_0_iff: "well_masked m \<Longrightarrow> valid m = 0 \<longleftrightarrow> (\<forall>f. \<not> is_valid m f)"
  using well_masked_bits [of m] by (auto simp: is_valid_iff intro!: bit_word_eqI)

lemma well_masked_init [simp]: "well_masked Measurement_init"
  by (simp add: well_masked_def Measurement_init_def)

lemma well_masked_decode [simp]: "well_masked (decode ws)"
  unfolding well_masked_def
  by (rule bit_word_eqI) (auto simp: bit_drop_bit_eq dest: valid_decode_bits)

definition notify_mask :: "ChangeThresholds \<Rightarrow> Measurement \<Rightarrow> Measurement \<Rightarrow> u16" where
  "notify_mask t prev fresh = (valid fresh XOR valid prev) OR DeltaMask prev fresh t"

lemma bit_notify_mask: "bit (notify_mask t prev fresh) (field_bit f) \<longleftrightarrow> reported t prev fresh f"
  by (auto simp: notify_mask_def bit_or_iff bit_xor_iff bit_DeltaMask reported_def is_valid_iff)

lemma notify_mask_bits:
  "well_masked prev \<Longrightarrow> well_masked fresh \<Longrightarrow> bit (notify_mask t prev fresh) n \<Longrightarrow> \<exists>f. n = field_bit f"
  by (auto simp: notify_mask_def bit_or_iff bit_xor_iff bit_DeltaMask dest: well_masked_bits)

lemma notify_mask_0_iff:
  assumes "well_masked prev" and "well_masked fresh"
  shows "notify_mask t prev fresh = 0 \<longleftrightarrow> (\<forall>f. \<not> reported t prev fresh f)"
proof
  assume "notify_mask t prev fresh = 0"
  then show "\<forall>f. \<not> reported t prev fresh f" by (metis bit_0_eq bit_notify_mask bot_apply bot_bool_def)
next
  assume *: "\<forall>f. \<not> reported t prev fresh f"
  show "notify_mask t prev fresh = 0"
    by (rule bit_word_eqI) (use * notify_mask_bits [OF assms] bit_notify_mask in fastforce)
qed

lemma notify_mask_first: "valid prev = 0 \<Longrightarrow> notify_mask t prev fresh = valid fresh"
  by (rule bit_word_eqI)
    (auto simp: notify_mask_def bit_or_iff bit_xor_iff bit_DeltaMask moved_def is_valid_iff)

section \<open>One step\<close>

definition interval_elapsed :: "Policy \<Rightarrow> i64 \<Rightarrow> bool" where
  "interval_elapsed p now \<longleftrightarrow> uint (notifyIntervalMs (config p)) \<le> now - lastNotifyMs p"

definition notify_due :: "Policy \<Rightarrow> Measurement \<Rightarrow> i64 \<Rightarrow> bool" where
  "notify_due p m now \<longleftrightarrow>
     (valid m \<noteq> 0 \<or> valid (lastNotified p) \<noteq> 0) \<and>
     (notify_mask (thresholds (config p)) (lastNotified p) m \<noteq> 0 \<or> interval_elapsed p now)"

lemma OnReadResult_success:
  "OnReadResult p 0 m now =
     p\<lparr>latest := m, hasEverBeenValid := hasEverBeenValid p \<or> valid m \<noteq> 0, lastUpdateMs := now,
       shouldNotify := notify_due p m now,
       changedMask := (if notify_due p m now
                       then notify_mask (thresholds (config p)) (lastNotified p) m else 0),
       consecutiveFailures := 0, inBackoff := False, backoffStepIndex := 0\<rparr>"
  by (auto simp: OnReadResult_def EvaluateNotify_def Let_def notify_due_def notify_mask_def
    interval_elapsed_def)

lemma OnReadResult_failure:
  assumes "err \<noteq> 0"
  shows "OnReadResult p err m now =
    p\<lparr>shouldNotify := False, changedMask := 0, consecutiveFailures := consecutiveFailures p + 1,
      inBackoff := inBackoff p \<or> failureThreshold (config p) \<le> consecutiveFailures p + 1,
      backoffStepIndex :=
        (if failureThreshold (config p) \<le> consecutiveFailures p + 1
         then if inBackoff p then if backoffStepIndex p + 1 < 4 then backoffStepIndex p + 1
                                  else backoffStepIndex p
              else 0
         else backoffStepIndex p)\<rparr>"
  using assms by (auto simp: OnReadResult_def Let_def kBackoffStepCount_def)


lemma MarkNotified_simps [simp]:
  "config (MarkNotified p t) = config p" "latest (MarkNotified p t) = latest p"
  "hasEverBeenValid (MarkNotified p t) = hasEverBeenValid p"
  "lastUpdateMs (MarkNotified p t) = lastUpdateMs p"
  "lastNotified (MarkNotified p t) = latest p" "lastNotifyMs (MarkNotified p t) = t"
  "shouldNotify (MarkNotified p t) = False" "changedMask (MarkNotified p t) = 0"
  "consecutiveFailures (MarkNotified p t) = consecutiveFailures p"
  "inBackoff (MarkNotified p t) = inBackoff p"
  "backoffStepIndex (MarkNotified p t) = backoffStepIndex p"
  by (simp_all add: MarkNotified_def)

lemma config_OnReadResult [simp]: "config (OnReadResult p err m now) = config p"
  by (cases "err = 0") (simp_all add: OnReadResult_success OnReadResult_failure)

lemma Policy_init_simps [simp]:
  "config (Policy_init cfg) = cfg" "latest (Policy_init cfg) = Measurement_init"
  "hasEverBeenValid (Policy_init cfg) = False" "lastUpdateMs (Policy_init cfg) = 0"
  "lastNotified (Policy_init cfg) = Measurement_init" "lastNotifyMs (Policy_init cfg) = 0"
  "shouldNotify (Policy_init cfg) = False" "changedMask (Policy_init cfg) = 0"
  "consecutiveFailures (Policy_init cfg) = 0" "inBackoff (Policy_init cfg) = False"
  "backoffStepIndex (Policy_init cfg) = 0"
  by (simp_all add: Policy_init_def)

section \<open>Histories\<close>

text \<open>What a caller can do to a policy, in any order and any number of times.\<close>

datatype policy_op =
    Feed errno Measurement i64
  | Notified i64

primrec apply_op :: "Policy \<Rightarrow> policy_op \<Rightarrow> Policy" where
  "apply_op p (Feed err m now) = OnReadResult p err m now"
| "apply_op p (Notified now) = MarkNotified p now"

definition run_ops :: "PolicyConfig \<Rightarrow> policy_op list \<Rightarrow> Policy" where
  "run_ops cfg ops = foldl apply_op (Policy_init cfg) ops"

lemma run_ops_simps [simp]:
  "run_ops cfg [] = Policy_init cfg"
  "run_ops cfg (ops @ [x]) = apply_op (run_ops cfg ops) x"
  by (simp_all add: run_ops_def)

lemma config_run_ops [simp]: "config (run_ops cfg ops) = cfg"
proof (induction ops rule: rev_induct)
  case (snoc x ops)
  then show ?case by (cases x) simp_all
qed simp

text \<open>What holds between the members in every reachable state.\<close>

definition policy_inv :: "Policy \<Rightarrow> bool" where
  "policy_inv p \<longleftrightarrow>
     backoffStepIndex p < kBackoffStepCount \<and>
     (inBackoff p \<or> backoffStepIndex p = 0) \<and>
     (shouldNotify p \<or> changedMask p = 0) \<and>
     (hasEverBeenValid p \<or>
        valid (latest p) = 0 \<and> valid (lastNotified p) = 0 \<and> \<not> shouldNotify p)"

lemma valid_Measurement_init [simp]: "valid Measurement_init = 0"
  by (simp add: Measurement_init_def)

lemma policy_inv_init: "policy_inv (Policy_init cfg)"
  by (simp add: policy_inv_def kBackoffStepCount_def)

lemma policy_inv_OnReadResult: "policy_inv p \<Longrightarrow> policy_inv (OnReadResult p err m now)"
  by (cases "err = 0")
    (auto simp: policy_inv_def OnReadResult_success OnReadResult_failure notify_due_def
      kBackoffStepCount_def)

lemma policy_inv_MarkNotified: "policy_inv p \<Longrightarrow> policy_inv (MarkNotified p now)"
  by (auto simp: policy_inv_def)

lemma policy_inv_run_ops: "policy_inv (run_ops cfg ops)"
proof (induction ops rule: rev_induct)
  case (snoc x ops)
  then show ?case by (cases x) (simp_all add: policy_inv_OnReadResult policy_inv_MarkNotified)
qed (simp add: policy_inv_init)

subsection \<open>The backoff schedule refines a counter that does not wrap\<close>

text \<open>Failed reads since the last successful one.\<close>

definition failures :: "policy_op list \<Rightarrow> nat" where
  "failures ops =
     foldl (\<lambda>n x. case x of Feed err m now \<Rightarrow> if err = 0 then 0 else Suc n | Notified now \<Rightarrow> n) 0 ops"

lemma failures_simps [simp]:
  "failures [] = 0"
  "failures (ops @ [Feed err m now]) = (if err = 0 then 0 else Suc (failures ops))"
  "failures (ops @ [Notified now]) = failures ops"
  by (simp_all add: failures_def)

definition backoff_threshold :: "PolicyConfig \<Rightarrow> nat" where
  "backoff_threshold cfg = max 1 (unat (failureThreshold cfg))"

definition scheduled_delay :: "PolicyConfig \<Rightarrow> nat \<Rightarrow> u32" where
  "scheduled_delay cfg n =
     (if n < backoff_threshold cfg then pollIntervalMs cfg
      else backoffStepsMs cfg ! min 3 (n - backoff_threshold cfg))"

definition backoff_rel :: "Policy \<Rightarrow> nat \<Rightarrow> bool" where
  "backoff_rel p n \<longleftrightarrow>
     consecutiveFailures p = of_nat n \<and>
     (inBackoff p \<longleftrightarrow> backoff_threshold (config p) \<le> n) \<and>
     backoffStepIndex p = (if inBackoff p then min 3 (n - backoff_threshold (config p)) else 0)"

lemma backoff_rel_failure:
  assumes rel: "backoff_rel p n" and err: "err \<noteq> 0"
    and bound: "unat (failureThreshold (config p)) + 3 < 2 ^ 32"
  shows "backoff_rel (OnReadResult p err m now) (Suc n)"
proof (cases "Suc n < 2 ^ 32")
  case True
  have "unat (of_nat (Suc n) :: u32) = Suc n"
    using True by (simp add: unat_of_nat take_bit_nat_eq_self del: of_nat_Suc)
  then have "failureThreshold (config p) \<le> of_nat n + 1 \<longleftrightarrow> backoff_threshold (config p) \<le> Suc n"
    by (auto simp: word_le_nat_alt backoff_threshold_def add.commute)
  with rel err show ?thesis
    by (auto simp: backoff_rel_def OnReadResult_failure add.commute)
next
  case False
  with bound have "backoff_threshold (config p) + 3 \<le> n"
    by (auto simp: backoff_threshold_def)
  with rel err show ?thesis
    by (auto simp: backoff_rel_def OnReadResult_failure add.commute)
qed

lemma backoff_rel_run_ops:
  assumes "unat (failureThreshold cfg) + 3 < 2 ^ 32"
  shows "backoff_rel (run_ops cfg ops) (failures ops)"
proof (induction ops rule: rev_induct)
  case Nil
  show ?case by (simp add: backoff_rel_def backoff_threshold_def)
next
  case (snoc x ops)
  show ?case
  proof (cases x)
    case (Feed err m now)
    show ?thesis
    proof (cases "err = 0")
      case True
      with Feed show ?thesis
        by (simp add: backoff_rel_def OnReadResult_success backoff_threshold_def)
    next
      case False
      with Feed snoc.IH assms show ?thesis
        using backoff_rel_failure [of "run_ops cfg ops" "failures ops" err m now] by simp
    qed
  next
    case (Notified now)
    with snoc.IH show ?thesis by (simp add: backoff_rel_def)
  qed
qed


subsection \<open>The snapshot as a function of the history\<close>

definition last_read :: "policy_op list \<Rightarrow> (Measurement \<times> i64) option" where
  "last_read ops =
     foldl (\<lambda>r x. case x of Feed err m now \<Rightarrow> if err = 0 then Some (m, now) else r | Notified now \<Rightarrow> r)
       None ops"

definition ever_valid :: "policy_op list \<Rightarrow> bool" where
  "ever_valid ops =
     list_ex (\<lambda>x. case x of Feed err m now \<Rightarrow> err = 0 \<and> valid m \<noteq> 0 | Notified now \<Rightarrow> False) ops"

lemma last_read_simps [simp]:
  "last_read [] = None"
  "last_read (ops @ [Feed err m now]) = (if err = 0 then Some (m, now) else last_read ops)"
  "last_read (ops @ [Notified now]) = last_read ops"
  by (simp_all add: last_read_def)

lemma ever_valid_simps [simp]:
  "ever_valid [] = False"
  "ever_valid (ops @ [Feed err m now]) = (ever_valid ops \<or> err = 0 \<and> valid m \<noteq> 0)"
  "ever_valid (ops @ [Notified now]) = ever_valid ops"
  by (auto simp: ever_valid_def)

lemma snapshot_of_history:
  "hasEverBeenValid (run_ops cfg ops) = ever_valid ops \<and>
   (case last_read ops of
      None \<Rightarrow> latest (run_ops cfg ops) = Measurement_init \<and> \<not> ever_valid ops
    | Some (m, u) \<Rightarrow> latest (run_ops cfg ops) = m \<and> lastUpdateMs (run_ops cfg ops) = u)"
proof (induction ops rule: rev_induct)
  case (snoc x ops)
  show ?case
  proof (cases x)
    case (Feed err m now)
    with snoc.IH show ?thesis
      by (cases "err = 0")
        (auto simp: OnReadResult_success OnReadResult_failure split: option.splits)
  next
    case (Notified now)
    with snoc.IH show ?thesis by (auto split: option.splits)
  qed
qed simp

subsection \<open>Timestamps\<close>

primrec op_time :: "policy_op \<Rightarrow> i64" where
  "op_time (Feed err m now) = now"
| "op_time (Notified now) = now"

definition uptime_ok :: "i64 \<Rightarrow> bool" where
  "uptime_ok t \<longleftrightarrow> 0 \<le> t \<and> t < 2 ^ 63"

lemma timestamps_of_history:
  "list_all (uptime_ok \<circ> op_time) ops \<Longrightarrow>
   uptime_ok (lastUpdateMs (run_ops cfg ops)) \<and> uptime_ok (lastNotifyMs (run_ops cfg ops))"
proof (induction ops rule: rev_induct)
  case (snoc x ops)
  then show ?case
  proof (cases x)
    case (Feed err m now)
    with snoc show ?thesis
      by (cases "err = 0") (auto simp: OnReadResult_success OnReadResult_failure)
  qed auto
qed (simp add: uptime_ok_def)

lemma uptime_difference: "uptime_ok s \<Longrightarrow> uptime_ok t \<Longrightarrow> i64_range (s - t)"
  by (simp add: uptime_ok_def i64_range_def)

section \<open>Properties\<close>

definition kAllValid :: u16 where
  "kAllValid = 0x1FF"

text \<open>The fully valid frame the tests of the policy start from.\<close>

definition PlausibleMeasurement :: "u16 \<Rightarrow> Measurement" where
  "PlausibleMeasurement v =
     \<lparr>pm1p0 = 100, pm2p5 = 150, pm4p0 = 180, pm10 = 200, humidity = 4550, temperature = 4400,
      voc_index = 120, nox_index = 10, co2 = 800, valid = v\<rparr>"

text \<open>
  C19. After any history of reads and notifications, the delay before the next poll and the
  demand for a restart are those of an abstract machine that only counts the failures since
  the last successful read: the poll interval below the threshold, then the four backoff
  steps in turn, then the last one for good.  The 32-bit failure counter wraps after 2^32
  failures, and the schedule does not notice.
\<close>

theorem backoff_schedule_refines_counter:
  assumes "length (backoffStepsMs cfg) = kBackoffStepCount"
    and "unat (failureThreshold cfg) + 3 < 2 ^ 32"
  shows "NextDelayMs (run_ops cfg ops) = Some (scheduled_delay cfg (failures ops)) \<and>
    (NeedsRestart (run_ops cfg ops) \<longleftrightarrow> backoff_threshold cfg \<le> failures ops)"
  using backoff_rel_run_ops [OF assms(2), of ops] assms(1)
  by (auto simp: backoff_rel_def NextDelayMs_def NeedsRestart_def scheduled_delay_def
    kBackoffStepCount_def)

theorem backoff_schedule_refines_counter_witness:
  "NextDelayMs (run_ops PolicyConfig_default
      [Feed 0 Measurement_init 0, Feed (- 5) Measurement_init 1, Notified 1, Feed (- 5) Measurement_init 2,
       Feed (- 5) Measurement_init 3, Feed (- 5) Measurement_init 4]) = Some 5000"
  by (subst conjunct1 [OF backoff_schedule_refines_counter])
    (simp_all add: PolicyConfig_default_def kBackoffStepCount_def failures_def scheduled_delay_def
      backoff_threshold_def)

text \<open>
  C21. In every state a caller can bring the policy to, whatever the configuration: the backoff
  index stays below the number of steps, so \<^verbatim>\<open>NextDelayMs\<close> never reads past the array, and
  a state that asks for a notification has a measurement to deliver, so the \<^verbatim>\<open>GetLatest\<close>
  inside the notification branch of the poll handler cannot fail.
\<close>

theorem reachable_policy_is_usable:
  assumes "length (backoffStepsMs cfg) = kBackoffStepCount"
  shows "policy_inv (run_ops cfg ops) \<and> NextDelayMs (run_ops cfg ops) \<noteq> None \<and>
    (ShouldNotify (run_ops cfg ops) \<longrightarrow>
       (\<exists>m age. GetLatest (run_ops cfg ops) now = Some (m, age)))"
  using policy_inv_run_ops [of cfg ops] assms
  by (auto simp: policy_inv_def NextDelayMs_def ShouldNotify_def GetLatest_def rd_def)

theorem reachable_policy_is_usable_witness:
  "\<exists>m age. GetLatest (run_ops PolicyConfig_default [Feed 0 (PlausibleMeasurement kAllValid) 5]) 9 = Some (m, age)"
proof -
  have len: "length (backoffStepsMs PolicyConfig_default) = kBackoffStepCount"
    by (simp add: PolicyConfig_default_def kBackoffStepCount_def)
  have due: "ShouldNotify (run_ops PolicyConfig_default [Feed 0 (PlausibleMeasurement kAllValid) 5])"
    using run_ops_simps(2) [of PolicyConfig_default "[]"]
    by (simp add: ShouldNotify_def OnReadResult_success notify_due_def notify_mask_first
      PlausibleMeasurement_def kAllValid_def)
  show ?thesis
    using reachable_policy_is_usable [OF len, of "[Feed 0 (PlausibleMeasurement kAllValid) 5]" 9] due
    by blast
qed

text \<open>
  C20. A successful read asks for a notification exactly when some channel is to be reported,
  that is, its validity flipped or it moved by its threshold or more since the last notified
  reading, or when the notify interval has passed and some channel is valid; and the mask it
  hands over has exactly the bits of the channels to be reported, none for a plain heartbeat.
\<close>

theorem notification_decision:
  assumes "well_masked m" and "well_masked (lastNotified p)"
  shows "(ShouldNotify (OnReadResult p 0 m now) \<longleftrightarrow>
      (\<exists>f. reported (thresholds (config p)) (lastNotified p) m f) \<or>
      interval_elapsed p now \<and> (\<exists>f. is_valid m f)) \<and>
    (\<forall>f. ChangedMask (OnReadResult p 0 m now) AND field_mask f \<noteq> 0 \<longleftrightarrow>
      reported (thresholds (config p)) (lastNotified p) m f) \<and>
    drop_bit 9 (ChangedMask (OnReadResult p 0 m now)) = 0"
proof -
  let ?t = "thresholds (config p)" and ?prev = "lastNotified p"
  have none: "notify_mask ?t ?prev m = 0 \<longleftrightarrow> (\<forall>f. \<not> reported ?t ?prev m f)"
    using assms(2,1) by (rule notify_mask_0_iff)
  have some_valid: "(\<exists>f. is_valid m f) \<or> (\<exists>f. is_valid ?prev f)" if "reported ?t ?prev m f" for f
    using that by (auto simp: reported_def moved_def)
  have due: "notify_due p m now \<longleftrightarrow>
      (\<exists>f. reported ?t ?prev m f) \<or> interval_elapsed p now \<and> (\<exists>f. is_valid m f)"
    unfolding notify_due_def none well_masked_0_iff [OF assms(1)] well_masked_0_iff [OF assms(2)]
    using some_valid by (auto simp: reported_def)
  have bits: "bit (ChangedMask (OnReadResult p 0 m now)) n \<longleftrightarrow> bit (notify_mask ?t ?prev m) n" for n
    using due none by (auto simp: ChangedMask_def OnReadResult_success)
  have "n < 9" if "bit (notify_mask ?t ?prev m) n" for n
    using notify_mask_bits [OF assms(2,1) that] field_bit_less by blast
  then have "drop_bit 9 (ChangedMask (OnReadResult p 0 m now)) = 0"
    by (intro bit_word_eqI) (auto simp: bit_drop_bit_eq bits)
  moreover have "ShouldNotify (OnReadResult p 0 m now) = notify_due p m now"
    by (simp add: ShouldNotify_def OnReadResult_success)
  ultimately show ?thesis
    unfolding and_field_mask bits bit_notify_mask due by simp
qed

text \<open>A policy that has delivered a fully valid reading at time 0.\<close>

definition notified_policy :: Policy where
  "notified_policy =
     run_ops PolicyConfig_default [Feed 0 (PlausibleMeasurement kAllValid) 0, Notified 0]"

lemma notified_policy_simps:
  "config notified_policy = PolicyConfig_default" "lastNotifyMs notified_policy = 0"
  "lastNotified notified_policy = PlausibleMeasurement kAllValid"
  "hasEverBeenValid notified_policy"
  using run_ops_simps(2) [of PolicyConfig_default "[Feed 0 (PlausibleMeasurement kAllValid) 0]"]
    run_ops_simps(2) [of PolicyConfig_default "[]"]
  by (simp_all add: notified_policy_def OnReadResult_success)
    (simp add: PlausibleMeasurement_def kAllValid_def)

lemma well_masked_Plausible: "well_masked (PlausibleMeasurement kAllValid)"
  by (simp add: well_masked_def PlausibleMeasurement_def kAllValid_def)

theorem notification_decision_witness:
  "ShouldNotify (OnReadResult notified_policy 0 ((PlausibleMeasurement kAllValid)\<lparr>pm2p5 := 200\<rparr>) 500)"
proof -
  let ?m = "(PlausibleMeasurement kAllValid)\<lparr>pm2p5 := 200\<rparr>"
  have wm: "well_masked ?m" "well_masked (lastNotified notified_policy)"
    using well_masked_Plausible by (simp_all add: well_masked_def notified_policy_simps)
  have "reported (thresholds (config notified_policy)) (lastNotified notified_policy) ?m kFieldPm2p5"
    by (simp add: reported_def moved_def notified_policy_simps is_valid_def field_mask_def
      channel_delta_def PlausibleMeasurement_def kAllValid_def PolicyConfig_default_def
      ChangeThresholds_default_def)
  then show ?thesis using notification_decision [OF wm, of 500] by blast
qed

text \<open>
  C22. After any history, the latest snapshot is the measurement of the last successful read,
  with the time since that read as its age, from the first read on in which some channel
  was valid; before it there is no snapshot.
\<close>

theorem snapshot_is_last_successful_read:
  "GetLatest (run_ops cfg ops) now =
     (if ever_valid ops then map_option (\<lambda>(m, u). (m, now - u)) (last_read ops) else None)"
  using snapshot_of_history [of cfg ops]
  by (auto simp: GetLatest_def split: option.splits)

text \<open>
  A failed read changes neither the snapshot nor its validity bits, and asks for no
  notification: while the sensor is disconnected or in backoff, its last channels stay
  marked valid, whatever number of reads fail.
\<close>

theorem failed_reads_keep_snapshot_valid:
  assumes "list_all (\<lambda>x. \<exists>err m u. x = Feed err m u \<and> err \<noteq> 0) fails"
  shows "GetLatest (foldl apply_op p fails) now = GetLatest p now \<and>
    (fails = [] \<or> \<not> ShouldNotify (foldl apply_op p fails))"
  using assms
proof (induction fails rule: rev_induct)
  case (snoc x fails)
  then show ?case by (auto simp: OnReadResult_failure GetLatest_def ShouldNotify_def split: if_splits)
qed simp

theorem failed_reads_keep_snapshot_valid_witness:
  "GetLatest (foldl apply_op notified_policy (replicate 9 (Feed (- 5) Measurement_init 60000))) 60000
     = Some (PlausibleMeasurement kAllValid, 60000)"
proof -
  have "list_all (\<lambda>x. \<exists>err m u. x = Feed err m u \<and> err \<noteq> 0) (replicate 9 (Feed (- 5) Measurement_init 60000))"
    by (simp add: list_all_iff)
  from failed_reads_keep_snapshot_valid [OF this, of notified_policy 60000]
  have "GetLatest (foldl apply_op notified_policy (replicate 9 (Feed (- 5) Measurement_init 60000))) 60000
      = GetLatest notified_policy 60000" by blast
  also have "\<dots> = Some (PlausibleMeasurement kAllValid, 60000)"
    using notified_policy_simps(4) snapshot_of_history
      [of PolicyConfig_default "[Feed 0 (PlausibleMeasurement kAllValid) 0, Notified 0]"]
    by (simp add: notified_policy_def [symmetric] GetLatest_def last_read_def)
  finally show ?thesis .
qed


text \<open>
  A reading with no valid channel that follows a notified reading with no valid channel
  asks for no notification, however long ago that notification was: the heartbeat stops,
  also on a device that has delivered valid readings before.
\<close>

theorem no_heartbeat_while_all_invalid:
  assumes "valid m = 0" and "valid (lastNotified p) = 0"
  shows "\<not> ShouldNotify (OnReadResult p 0 m now)"
  using assms by (simp add: ShouldNotify_def OnReadResult_success notify_due_def)

theorem no_heartbeat_while_all_invalid_witness:
  "hasEverBeenValid (MarkNotified (OnReadResult notified_policy 0 Measurement_init 1000) 1000) \<and>
   \<not> ShouldNotify (OnReadResult (MarkNotified (OnReadResult notified_policy 0 Measurement_init 1000) 1000)
       0 Measurement_init 3600000)"
  using no_heartbeat_while_all_invalid [of Measurement_init
      "MarkNotified (OnReadResult notified_policy 0 Measurement_init 1000) 1000" 3600000]
  by (simp add: OnReadResult_success notified_policy_simps)

text \<open>
  Fed with uptimes, which lie between 0 and 2^63 - 1, the policy's two subtractions of
  timestamps, the age of the snapshot and the time since the last notification, stay within
  64 signed bits, in every reachable state.
\<close>

theorem timestamps_do_not_overflow:
  assumes "list_all (uptime_ok \<circ> op_time) ops" and "uptime_ok now"
  shows "i64_range (now - lastUpdateMs (run_ops cfg ops)) \<and>
    i64_range (now - lastNotifyMs (run_ops cfg ops)) \<and>
    i64_range (lastUpdateMs (run_ops cfg ops) - lastNotifyMs (run_ops cfg ops))"
  using timestamps_of_history [OF assms(1), of cfg] assms(2) by (auto intro: uptime_difference)

theorem timestamps_do_not_overflow_witness:
  "i64_range (2 ^ 62 - lastUpdateMs (run_ops PolicyConfig_default [Feed 0 Measurement_init 7, Notified 9]))"
  using timestamps_do_not_overflow [of "[Feed 0 Measurement_init 7, Notified 9]" "2 ^ 62" PolicyConfig_default]
  by (simp add: uptime_ok_def)

section \<open>The contract of a notifying policy\<close>

text \<open>
  What the poll handler relies on: an invariant that the operations keep, under which a
  delay is always defined and a pending notification always has a measurement, and an
  acknowledgement that clears the request.
\<close>

locale notify_policy =
  fixes feed :: "'p \<Rightarrow> errno \<Rightarrow> Measurement \<Rightarrow> i64 \<Rightarrow> 'p"
    and due :: "'p \<Rightarrow> bool"
    and snapshot :: "'p \<Rightarrow> i64 \<Rightarrow> (Measurement \<times> i64) option"
    and acknowledge :: "'p \<Rightarrow> i64 \<Rightarrow> 'p"
    and delay :: "'p \<Rightarrow> u32 option"
    and inv :: "'p \<Rightarrow> bool"
  assumes inv_feed: "inv p \<Longrightarrow> inv (feed p err m now)"
    and inv_acknowledge: "inv p \<Longrightarrow> inv (acknowledge p now)"
    and due_snapshot: "inv p \<Longrightarrow> due p \<Longrightarrow> snapshot p now \<noteq> None"
    and acknowledge_settles: "\<not> due (acknowledge p now)"
    and snapshot_acknowledge: "snapshot (acknowledge p u) now = snapshot p now"
    and delay_acknowledge: "delay (acknowledge p u) = delay p"
    and delay_defined: "inv p \<Longrightarrow> delay p \<noteq> None"
begin

text \<open>One round: the outcome of a read, then the acknowledgement if one is due.\<close>

lemma inv_round: "inv p \<Longrightarrow> inv (if due (feed p err m now) then acknowledge (feed p err m now) u
  else feed p err m now)"
  by (simp add: inv_feed inv_acknowledge)

lemma round_settled: "\<not> due (if due (feed p err m now) then acknowledge (feed p err m now) u
  else feed p err m now)"
  by (simp add: acknowledge_settles)

lemma round_delay: "delay (if due (feed p err m now) then acknowledge (feed p err m now) u
  else feed p err m now) = delay (feed p err m now)"
  by (simp add: delay_acknowledge)

lemma due_obtains:
  assumes "inv p" and "due p"
  obtains m age where "snapshot p now = Some (m, age)"
  using due_snapshot [OF assms, of now] by auto

end

definition usable :: "Policy \<Rightarrow> bool" where
  "usable p \<longleftrightarrow> policy_inv p \<and> length (backoffStepsMs (config p)) = kBackoffStepCount"

lemma usable_OnReadResult: "usable p \<Longrightarrow> usable (OnReadResult p err m now)"
  by (simp add: usable_def policy_inv_OnReadResult)

lemma usable_MarkNotified: "usable p \<Longrightarrow> usable (MarkNotified p now)"
  by (simp add: usable_def policy_inv_MarkNotified)

interpretation sen66_policy: notify_policy OnReadResult ShouldNotify GetLatest MarkNotified NextDelayMs usable
  by unfold_locales
    (auto simp: usable_OnReadResult usable_MarkNotified, auto simp: usable_def policy_inv_def
      ShouldNotify_def GetLatest_def NextDelayMs_def rd_def)

end
