(* ===== verification/Firmware_Io.thy ===== *)
theory Firmware_Io
  imports Sen66_Protocol Complex_Main
begin

text \<open>
  How the firmware's code meets the world it runs in.  A function with effects is a value of
  the type \<open>'a io\<close>: the sequence of its calls into the kernel, the I2C bus, the shell and the
  Matter stack and of its accesses to the variables threads share, ending in its result.
  The calls themselves are not code of this repository; what they answer is left open, so a
  statement about a program holds for every answer of the bus, the clock and the stack.

  The same program has two readings.  \<open>run\<close> executes it alone against an environment, a
  triple of functions of everything that has happened so far.  The theory \<open>Interleaved_System\<close>
  interleaves programs of several threads, one call or access at a time.
\<close>

section \<open>Calls and shared variables\<close>

datatype mutex = kBusMutex | sSnapshotMutex

text \<open>\<^verbatim>\<open>struct Snapshot\<close> of \<^verbatim>\<open>measurement_service.h\<close>, the record threads exchange.\<close>

record Snapshot =
  measurement :: Measurement
  ageMs :: i64
  everValid :: bool

definition Snapshot_init :: Snapshot where
  "Snapshot_init = \<lparr>measurement = Measurement_init, ageMs = 0, everValid = False\<rparr>"

text \<open>The only function whose address is registered as an update callback.\<close>

datatype UpdateCallback = OnMeasurementUpdated_fn

text \<open>The four concentration clusters, and the writes the Matter adapter performs.\<close>

datatype concentration = sCo2Instance | sPm1Instance | sPm25Instance | sPm10Instance

datatype attribute_write =
    TemperatureSet nat i16
  | TemperatureSetNull nat
  | HumiditySet nat u16
  | HumiditySetNull nat
  | SetMeasuredValue concentration "rat option"
  | UpdateAirQuality u8

datatype shell_stream = ShellNormal | ShellWarning | ShellError

text \<open>Calls that return nothing the code looks at, and writes of shared variables.\<close>

datatype act =
    Lock mutex
  | Unlock mutex
  | Msleep nat
  | SetMeasurement Measurement
  | SetAgeMs i64
  | SetEverValid bool
  | SetCallback "UpdateCallback option"
  | ScheduleWork
  | WorkQueueInit
  | WorkQueueStart
  | WorkInit
  | WorkSchedule u32
  | WriteAttribute attribute_write
  | ShellPrint shell_stream string

text \<open>Calls that return an integer: an errno, a boolean or an error code of the Matter stack.\<close>

datatype query =
    I2cWrite bytes
  | DeviceIsReady
  | IdentifyInit nat
  | AirQualityInit
  | ConcentrationInit concentration
  | PrepareServer
  | BoardInit
  | RegisterEventHandler
  | StartServer
  | DispatchNextTask

section \<open>Programs\<close>

text \<open>
  \<open>Undefined\<close> is a program whose next action is undefined behaviour of C++.  A read of \<open>n\<close>
  bytes returns its errno and the contents of the buffer after the call; a read of the
  snapshot or of the callback pointer returns the variable's value at that moment.
\<close>

datatype 'a io =
    Ret 'a
  | Undefined
  | Do act "'a io"
  | Ask query "int \<Rightarrow> 'a io"
  | I2cRead nat "errno \<times> (nat \<Rightarrow> u8) \<Rightarrow> 'a io"
  | Uptime "i64 \<Rightarrow> 'a io"
  | GetSnapshot "Snapshot \<Rightarrow> 'a io"
  | GetCallback "UpdateCallback option \<Rightarrow> 'a io"

text \<open>Calling one function and going on with its result.\<close>

primrec io_bind :: "'a io \<Rightarrow> ('a \<Rightarrow> 'b io) \<Rightarrow> 'b io" where
  "io_bind (Ret x) f = f x"
| "io_bind Undefined f = Undefined"
| "io_bind (Do a p) f = Do a (io_bind p f)"
| "io_bind (Ask q k) f = Ask q (\<lambda>r. io_bind (k r) f)"
| "io_bind (I2cRead n k) f = I2cRead n (\<lambda>r. io_bind (k r) f)"
| "io_bind (Uptime k) f = Uptime (\<lambda>t. io_bind (k t) f)"
| "io_bind (GetSnapshot k) f = GetSnapshot (\<lambda>s. io_bind (k s) f)"
| "io_bind (GetCallback k) f = GetCallback (\<lambda>c. io_bind (k c) f)"

lemma io_bind_Ret_right [simp]: "io_bind p Ret = p"
  by (induction p) simp_all

lemma io_bind_assoc: "io_bind (io_bind p f) g = io_bind p (\<lambda>x. io_bind (f x) g)"
  by (induction p) simp_all

text \<open>A computation whose value \<open>None\<close> stands for undefined behaviour.\<close>

definition defined :: "'a option \<Rightarrow> 'a io" where
  "defined r = (case r of None \<Rightarrow> Undefined | Some x \<Rightarrow> Ret x)"

lemma defined_Some [simp]: "defined (Some x) = Ret x"
  by (simp add: defined_def)

section \<open>Running one program\<close>

datatype event =
    Did act
  | Asked query int
  | ReadBus nat errno bytes
  | Clock i64
  | SawSnapshot Snapshot
  | SawCallback "UpdateCallback option"

record world =
  snap :: Snapshot
  callback :: "UpdateCallback option"
  history :: "event list"

definition world_init :: world where
  "world_init = \<lparr>snap = Snapshot_init, callback = None, history = []\<rparr>"

text \<open>The environment's answers may depend on everything that has happened so far.\<close>

record env =
  answer :: "event list \<Rightarrow> query \<Rightarrow> int"
  bus_data :: "event list \<Rightarrow> nat \<Rightarrow> errno \<times> (nat \<Rightarrow> u8)"
  clock :: "event list \<Rightarrow> i64"

text \<open>The effect of a call on the shared snapshot.\<close>

fun snap_effect :: "act \<Rightarrow> Snapshot \<Rightarrow> Snapshot" where
  "snap_effect (SetMeasurement m) s = s\<lparr>measurement := m\<rparr>"
| "snap_effect (SetAgeMs a) s = s\<lparr>ageMs := a\<rparr>"
| "snap_effect (SetEverValid b) s = s\<lparr>everValid := b\<rparr>"
| "snap_effect _ s = s"

fun callback_effect :: "act \<Rightarrow> UpdateCallback option \<Rightarrow> UpdateCallback option" where
  "callback_effect (SetCallback c) _ = c"
| "callback_effect _ c = c"

definition log_event :: "event \<Rightarrow> world \<Rightarrow> world" where
  "log_event e w = w\<lparr>history := history w @ [e]\<rparr>"

definition perform :: "act \<Rightarrow> world \<Rightarrow> world" where
  "perform a w =
     log_event (Did a) (w\<lparr>snap := snap_effect a (snap w), callback := callback_effect a (callback w)\<rparr>)"

primrec run :: "env \<Rightarrow> 'a io \<Rightarrow> world \<Rightarrow> 'a option \<times> world" where
  "run E (Ret x) w = (Some x, w)"
| "run E Undefined w = (None, w)"
| "run E (Do a p) w = run E p (perform a w)"
| "run E (Ask q k) w =
     (let r = answer E (history w) q in run E (k r) (log_event (Asked q r) w))"
| "run E (I2cRead n k) w =
     (let r = bus_data E (history w) n
      in run E (k r) (log_event (ReadBus n (fst r) (map (snd r) [0..<n])) w))"
| "run E (Uptime k) w =
     (let t = clock E (history w) in run E (k t) (log_event (Clock t) w))"
| "run E (GetSnapshot k) w = run E (k (snap w)) (log_event (SawSnapshot (snap w)) w)"
| "run E (GetCallback k) w = run E (k (callback w)) (log_event (SawCallback (callback w)) w)"

lemma run_bind:
  "run E (io_bind p f) w =
     (case run E p w of (Some x, w') \<Rightarrow> run E (f x) w' | (None, w') \<Rightarrow> (None, w'))"
  by (induction p arbitrary: w) (simp_all add: Let_def)

lemma log_event_simps [simp]:
  "snap (log_event e w) = snap w" "callback (log_event e w) = callback w"
  "history (log_event e w) = history w @ [e]"
  by (simp_all add: log_event_def)

lemma perform_simps [simp]:
  "snap (perform a w) = snap_effect a (snap w)"
  "callback (perform a w) = callback_effect a (callback w)"
  "history (perform a w) = history w @ [Did a]"
  by (simp_all add: perform_def)

section \<open>The locking discipline\<close>

text \<open>
  The mutex that must be held for an event: the bus mutex for every I2C transaction, the
  snapshot mutex for every access to the snapshot.
\<close>

fun required :: "event \<Rightarrow> mutex option" where
  "required (Asked (I2cWrite _) _) = Some kBusMutex"
| "required (ReadBus _ _ _) = Some kBusMutex"
| "required (Did (SetMeasurement _)) = Some sSnapshotMutex"
| "required (Did (SetAgeMs _)) = Some sSnapshotMutex"
| "required (Did (SetEverValid _)) = Some sSnapshotMutex"
| "required (SawSnapshot _) = Some sSnapshotMutex"
| "required _ = None"

definition permitted :: "mutex option \<Rightarrow> event \<Rightarrow> bool" where
  "permitted held e \<longleftrightarrow> required e = None \<or> required e = held"

text \<open>
  A program keeps the discipline from a point where it holds \<open>held\<close>: it takes a mutex only
  when it holds none, releases only the one it holds, makes an access only under the mutex
  the access requires, and returns with none held, whatever the calls answer; and it never
  runs into undefined behaviour.  The callback pointer has no mutex: it is only ever set to
  a function, so a program that has seen a function there (\<open>seen\<close>) may rely on finding one
  again.
\<close>

primrec well_locked :: "'a io \<Rightarrow> mutex option \<Rightarrow> bool \<Rightarrow> bool" where
  "well_locked (Ret x) held seen \<longleftrightarrow> held = None"
| "well_locked Undefined held seen \<longleftrightarrow> False"
| "well_locked (Do a p) held seen \<longleftrightarrow>
     (case a of
        Lock m \<Rightarrow> held = None \<and> well_locked p (Some m) seen
      | Unlock m \<Rightarrow> held = Some m \<and> well_locked p None seen
      | SetCallback c \<Rightarrow> c \<noteq> None \<and> well_locked p held seen
      | _ \<Rightarrow> permitted held (Did a) \<and> well_locked p held seen)"
| "well_locked (Ask q k) held seen \<longleftrightarrow>
     (\<forall>r. permitted held (Asked q r) \<and> well_locked (k r) held seen)"
| "well_locked (I2cRead n k) held seen \<longleftrightarrow>
     (\<forall>r. permitted held (ReadBus n (fst r) (map (snd r) [0..<n])) \<and> well_locked (k r) held seen)"
| "well_locked (Uptime k) held seen \<longleftrightarrow> (\<forall>t. well_locked (k t) held seen)"
| "well_locked (GetSnapshot k) held seen \<longleftrightarrow>
     (\<forall>s. permitted held (SawSnapshot s) \<and> well_locked (k s) held seen)"
| "well_locked (GetCallback k) held seen \<longleftrightarrow>
     (\<forall>c. (seen \<longrightarrow> c \<noteq> None) \<longrightarrow> well_locked (k c) held (c \<noteq> None))"

named_theorems discipline

lemma permitted_simps [simp, discipline]:
  "permitted held (Asked q r) \<longleftrightarrow> (case q of I2cWrite _ \<Rightarrow> held = Some kBusMutex | _ \<Rightarrow> True)"
  "permitted held (ReadBus n err bs) \<longleftrightarrow> held = Some kBusMutex"
  "permitted held (SawSnapshot s) \<longleftrightarrow> held = Some sSnapshotMutex"
  "permitted held (Clock t)" "permitted held (SawCallback c)"
  by (auto simp: permitted_def split: query.splits)

lemma permitted_Did [simp, discipline]:
  "permitted held (Did a) \<longleftrightarrow>
     (case a of SetMeasurement _ \<Rightarrow> held = Some sSnapshotMutex
      | SetAgeMs _ \<Rightarrow> held = Some sSnapshotMutex
      | SetEverValid _ \<Rightarrow> held = Some sSnapshotMutex
      | _ \<Rightarrow> True)"
  by (auto simp: permitted_def split: act.splits)

lemma well_locked_seen: "well_locked p held False \<Longrightarrow> well_locked p held seen"
  by (induction p arbitrary: held) (auto split: act.splits)

text \<open>A function that keeps the discipline can be called wherever no mutex is held.\<close>

lemma well_locked_bind:
  "well_locked p held seen \<Longrightarrow> (\<And>x. well_locked (f x) None False) \<Longrightarrow>
   well_locked (io_bind p f) held seen"
  by (induction p arbitrary: held seen) (auto intro: well_locked_seen split: act.splits)

text \<open>
  What the discipline means for a history: the mutex held after a run of events, or \<open>None\<close>
  when an event of the run breaks it.
\<close>

fun held_after :: "mutex option \<Rightarrow> event list \<Rightarrow> mutex option option" where
  "held_after held [] = Some held"
| "held_after held (Did (Lock m) # es) = (if held = None then held_after (Some m) es else None)"
| "held_after held (Did (Unlock m) # es) = (if held = Some m then held_after None es else None)"
| "held_after held (e # es) = (if permitted held e then held_after held es else None)"

text \<open>Such a program always ends with a value, and its history keeps the discipline.\<close>

definition disciplined_run :: "mutex option \<Rightarrow> world \<Rightarrow> 'a option \<times> world \<Rightarrow> bool" where
  "disciplined_run held w r \<longleftrightarrow>
     (case r of (x, w') \<Rightarrow> x \<noteq> None \<and>
        (\<exists>es. history w' = history w @ es \<and> held_after held es = Some None))"

lemma disciplined_run_step:
  assumes "disciplined_run held' w' r" "history w' = history w @ [e]"
    and "\<And>es. held_after held (e # es) = held_after held' es"
  shows "disciplined_run held w r"
  using assms unfolding disciplined_run_def by (auto split: prod.splits)

lemma well_locked_run:
  "well_locked p held seen \<Longrightarrow> (seen \<Longrightarrow> callback w \<noteq> None) \<Longrightarrow> disciplined_run held w (run E p w)"
proof (induction p arbitrary: held seen w)
  case (Ret x)
  then show ?case by (simp add: disciplined_run_def)
next
  case Undefined
  then show ?case by simp
next
  case (Do a p)
  show ?case
  proof (cases "(\<exists>m. a = Lock m \<or> a = Unlock m) \<or> (\<exists>c. a = SetCallback c)")
    case True
    with Do.prems show ?thesis
      by (auto intro!: disciplined_run_step [OF Do.IH])
  next
    case False
    with Do.prems show ?thesis
      by (auto intro!: disciplined_run_step [OF Do.IH] split: act.splits)
  qed
next
  case (Ask q k)
  then show ?case
    by (auto simp: Let_def intro!: disciplined_run_step [OF Ask.IH] split: query.splits)
next
  case (I2cRead n k)
  then show ?case
    by (auto simp: Let_def split_paired_all simp del: split_paired_All
      intro!: disciplined_run_step [OF I2cRead.IH])
next
  case (Uptime k)
  then show ?case
    by (auto simp: Let_def intro!: disciplined_run_step [OF Uptime.IH])
next
  case (GetSnapshot k)
  then show ?case
    by (auto simp: Let_def intro!: disciplined_run_step [OF GetSnapshot.IH])
next
  case (GetCallback k)
  then show ?case
    by (auto simp: Let_def intro!: disciplined_run_step [OF GetCallback.IH [OF rangeI, where seen = "callback w \<noteq> None"]])
qed

lemma well_locked_returns: "well_locked p held False \<Longrightarrow> \<exists>x w'. run E p w = (Some x, w')"
  using well_locked_run [of p held False w E] by (auto simp: disciplined_run_def split: prod.splits)

end
