(* ===== verification/Sen66_Driver.thy ===== *)
theory Sen66_Driver
  imports Firmware_Io
begin

text \<open>
  \<^verbatim>\<open>src/sen66/sen66_driver.cpp\<close>: the five entry points that talk to the sensor, each a
  command, the command's execution time and, for the reading ones, a response, all under the
  bus mutex, and \<^verbatim>\<open>Init\<close>, which only asks whether the bus is ready.  An out parameter is
  passed in with the value the caller's variable has and returned with the value it has
  afterwards.  Log output is left out.
\<close>

unbundle bit_operations_syntax

section \<open>The code\<close>

definition EIO :: errno where "EIO = 5"

definition kExecReadMs :: nat where "kExecReadMs = 20"
definition kExecStartMs :: nat where "kExecStartMs = 50"
definition kExecStopMs :: nat where "kExecStopMs = 1000"

text \<open>The scope of a \<^verbatim>\<open>BusLock\<close>: its destructor unlocks on every way out of the scope.\<close>

definition BusLock :: "'a io \<Rightarrow> 'a io" where
  "BusLock body =
     Do (Lock kBusMutex) (io_bind body (\<lambda>r. Do (Unlock kBusMutex) (Ret r)))"

definition SendCommand :: "Command \<Rightarrow> errno io" where
  "SendCommand cmd =
     (let opcode = opcode_of cmd;
          buf = [ucast (drop_bit 8 opcode), ucast (opcode AND 0xFF)]
      in Ask (I2cWrite buf) Ret)"

definition ReadBytes :: "nat \<Rightarrow> (errno \<times> bytes) io" where
  "ReadBytes len = I2cRead len (\<lambda>(err, d). Ret (err, map d [0..<len]))"

definition Driver_Init :: "bool io" where
  "Driver_Init = Ask DeviceIsReady (\<lambda>ready. Ret (ready \<noteq> 0))"

definition ReadSerialNumber :: "bytes \<Rightarrow> (errno \<times> bytes) io" where
  "ReadSerialNumber out = BusLock (
     io_bind (SendCommand Cmd_GetSerialNumber) (\<lambda>err.
     if err \<noteq> 0 then Ret (err, out) else
     Do (Msleep kExecReadMs) (
     io_bind (ReadBytes kSerialBytes) (\<lambda>(err, raw).
     if err \<noteq> 0 then Ret (err, out) else
     io_bind (defined (ParseSerialNumber raw out)) (\<lambda>(ok, out).
     if \<not> ok then Ret (- EIO, out) else Ret (0, out))))))"

definition StartMeasurement :: "errno io" where
  "StartMeasurement = BusLock (
     io_bind (SendCommand Cmd_StartMeasurement) (\<lambda>err.
     if err \<noteq> 0 then Ret err else
     Do (Msleep kExecStartMs) (Ret 0)))"

definition StopMeasurement :: "errno io" where
  "StopMeasurement = BusLock (
     io_bind (SendCommand Cmd_StopMeasurement) (\<lambda>err.
     if err \<noteq> 0 then Ret err else
     Do (Msleep kExecStopMs) (Ret 0)))"

definition IsDataReady :: "bool io" where
  "IsDataReady = BusLock (
     io_bind (SendCommand Cmd_GetDataReady) (\<lambda>err.
     if err \<noteq> 0 then Ret False else
     Do (Msleep kExecReadMs) (
     io_bind (ReadBytes kDataReadyBytes) (\<lambda>(err, raw).
     if err \<noteq> 0 then Ret False else
     io_bind (defined (CheckWordsCrc raw 1)) (\<lambda>ok.
     if \<not> ok then Ret False else
     io_bind (defined (rd raw 1)) (\<lambda>flag. Ret (flag = 0x01)))))))"

definition ReadMeasurement :: "Measurement \<Rightarrow> (errno \<times> Measurement) io" where
  "ReadMeasurement out = BusLock (
     io_bind (SendCommand Cmd_ReadMeasuredValues) (\<lambda>err.
     if err \<noteq> 0 then Ret (err, out) else
     Do (Msleep kExecReadMs) (
     io_bind (ReadBytes kMeasurementBytes) (\<lambda>(err, raw).
     if err \<noteq> 0 then Ret (err, out) else
     io_bind (defined (ParseMeasurement raw out)) (\<lambda>(ok, out).
     if \<not> ok then Ret (- EIO, out) else Ret (0, out))))))"

section \<open>The discipline\<close>

lemmas driver_defs = BusLock_def SendCommand_def ReadBytes_def Driver_Init_def ReadSerialNumber_def
  StartMeasurement_def StopMeasurement_def IsDataReady_def ReadMeasurement_def

lemma length_buffer [simp]: "length (map d [0..<n]) = n"
  by simp

lemma ParseMeasurement_buffer:
  "ParseMeasurement (map d [0..<kMeasurementBytes]) out =
     Some (if frame_ok (map d [0..<kMeasurementBytes])
           then (True, decode (payload_words (map d [0..<kMeasurementBytes]))) else (False, out))"
  by (simp add: ParseMeasurement_eq)

lemma ParseSerialNumber_buffer:
  "length out = kSerialChars \<Longrightarrow>
   ParseSerialNumber (map d [0..<kSerialBytes]) out =
     Some (if frame_ok (map d [0..<kSerialBytes])
           then (True, payload_bytes (map d [0..<kSerialBytes]) @ [0]) else (False, out))"
  by (simp add: ParseSerialNumber_eq)

lemma CheckWordsCrc_buffer:
  "CheckWordsCrc (map d [0..<kDataReadyBytes]) 1 = Some (frame_ok (map d [0..<kDataReadyBytes]))"
  by (rule CheckWordsCrc_eq) (simp add: layout_defs)

lemmas buffer_parsers = ParseMeasurement_buffer ParseSerialNumber_buffer CheckWordsCrc_buffer

lemma rd_buffer: "i < n \<Longrightarrow> rd (map d [0..<n]) i = Some (d i)"
  by simp

lemma well_locked_driver [discipline]:
  "well_locked StartMeasurement None False"
  "well_locked StopMeasurement None False"
  "well_locked IsDataReady None False"
  "well_locked (ReadMeasurement m) None False"
  "well_locked Driver_Init None False"
  by (auto simp: driver_defs Let_def buffer_parsers rd_buffer kDataReadyBytes_def kWordSize_def
    CheckWordsCrc_eq split: prod.splits)

lemma well_locked_ReadSerialNumber [discipline]:
  "length out = kSerialChars \<Longrightarrow> well_locked (ReadSerialNumber out) None False"
  by (auto simp: driver_defs Let_def buffer_parsers split: prod.splits)

section \<open>What an exchange does\<close>

text \<open>
  The sensor's side of a command and its response: the errno of the write, and the errno and
  the bytes of the read that follows the execution time.
\<close>

definition command_bytes :: "Command \<Rightarrow> bytes" where
  "command_bytes cmd = [ucast (drop_bit 8 (opcode_of cmd)), ucast (opcode_of cmd AND 0xFF)]"

definition write_errno :: "env \<Rightarrow> world \<Rightarrow> Command \<Rightarrow> errno" where
  "write_errno E w cmd = answer E (history w @ [Did (Lock kBusMutex)]) (I2cWrite (command_bytes cmd))"

definition after_command :: "world \<Rightarrow> Command \<Rightarrow> event list" where
  "after_command w cmd =
     history w @ [Did (Lock kBusMutex), Asked (I2cWrite (command_bytes cmd)) 0, Did (Msleep kExecReadMs)]"

definition read_errno :: "env \<Rightarrow> world \<Rightarrow> Command \<Rightarrow> nat \<Rightarrow> errno" where
  "read_errno E w cmd n = fst (bus_data E (after_command w cmd) n)"

definition response :: "env \<Rightarrow> world \<Rightarrow> Command \<Rightarrow> nat \<Rightarrow> bytes" where
  "response E w cmd n = map (snd (bus_data E (after_command w cmd) n)) [0..<n]"

lemma length_response [simp]: "length (response E w cmd n) = n"
  by (simp add: response_def)

text \<open>The events of an exchange that reads \<open>n\<close> bytes, in the order they happen.\<close>

definition exchange :: "env \<Rightarrow> world \<Rightarrow> Command \<Rightarrow> nat \<Rightarrow> world" where
  "exchange E w cmd n =
     w\<lparr>history := history w @
        (if write_errno E w cmd \<noteq> 0
         then [Did (Lock kBusMutex), Asked (I2cWrite (command_bytes cmd)) (write_errno E w cmd),
               Did (Unlock kBusMutex)]
         else [Did (Lock kBusMutex), Asked (I2cWrite (command_bytes cmd)) 0, Did (Msleep kExecReadMs),
               ReadBus n (read_errno E w cmd n) (response E w cmd n), Did (Unlock kBusMutex)])\<rparr>"

lemma exchange_simps [simp]:
  "snap (exchange E w cmd n) = snap w" "callback (exchange E w cmd n) = callback w"
  by (simp_all add: exchange_def)

text \<open>Running an exchange whose response is handled without further effects.\<close>

lemma run_exchange:
  assumes "\<And>raw. length raw = n \<Longrightarrow> handle raw = Ret (f raw)"
  shows "run E (BusLock (
      io_bind (SendCommand cmd) (\<lambda>err. if err \<noteq> 0 then Ret (on_write err) else
      Do (Msleep kExecReadMs) (
      io_bind (ReadBytes n) (\<lambda>(err, raw). if err \<noteq> 0 then Ret (on_read err) else handle raw))))) w
    = (Some (if write_errno E w cmd \<noteq> 0 then on_write (write_errno E w cmd)
             else if read_errno E w cmd n \<noteq> 0 then on_read (read_errno E w cmd n)
             else f (response E w cmd n)),
       exchange E w cmd n)"
proof (cases "write_errno E w cmd = 0")
  case True
  obtain e d where r: "bus_data E (after_command w cmd) n = (e, d)" by fastforce
  show ?thesis
    using True r assms [of "map d [0..<n]"]
    by (simp add: BusLock_def SendCommand_def ReadBytes_def Let_def command_bytes_def
        write_errno_def read_errno_def response_def after_command_def exchange_def perform_def
        log_event_def)
next
  case False
  then show ?thesis
    by (simp add: BusLock_def SendCommand_def Let_def command_bytes_def write_errno_def
        exchange_def perform_def log_event_def)
qed

lemma run_ReadMeasurement:
  "run E (ReadMeasurement out) w =
     (let cmd = Cmd_ReadMeasuredValues; n = kMeasurementBytes; raw = response E w cmd n
      in (Some (if write_errno E w cmd \<noteq> 0 then (write_errno E w cmd, out)
                else if read_errno E w cmd n \<noteq> 0 then (read_errno E w cmd n, out)
                else if frame_ok raw then (0, decode (payload_words raw))
                else (- EIO, out)), exchange E w cmd n))"
  unfolding ReadMeasurement_def Let_def
  by (rule run_exchange) (simp add: ParseMeasurement_eq)

lemma run_ReadMeasurement_cases:
  obtains (success) ws where "length ws = kMeasurementWords"
      "run E (ReadMeasurement out) w = (Some (0, decode ws), exchange E w Cmd_ReadMeasuredValues kMeasurementBytes)"
  | (failure) err where "err \<noteq> 0"
      "run E (ReadMeasurement out) w = (Some (err, out), exchange E w Cmd_ReadMeasuredValues kMeasurementBytes)"
proof -
  let ?raw = "response E w Cmd_ReadMeasuredValues kMeasurementBytes"
  have "length (payload_words ?raw) = kMeasurementWords"
    by (rule length_payload_words) (simp add: layout_defs)
  then have "(\<exists>ws. length ws = kMeasurementWords \<and> run E (ReadMeasurement out) w =
      (Some (0, decode ws), exchange E w Cmd_ReadMeasuredValues kMeasurementBytes)) \<or>
    (\<exists>err. err \<noteq> 0 \<and> run E (ReadMeasurement out) w =
      (Some (err, out), exchange E w Cmd_ReadMeasuredValues kMeasurementBytes))"
    by (auto simp: run_ReadMeasurement Let_def EIO_def)
  with that show thesis by blast
qed

lemma run_ReadSerialNumber:
  assumes "length out = kSerialChars"
  shows "run E (ReadSerialNumber out) w =
     (let cmd = Cmd_GetSerialNumber; n = kSerialBytes; raw = response E w cmd n
      in (Some (if write_errno E w cmd \<noteq> 0 then (write_errno E w cmd, out)
                else if read_errno E w cmd n \<noteq> 0 then (read_errno E w cmd n, out)
                else if frame_ok raw then (0, payload_bytes raw @ [0])
                else (- EIO, out)), exchange E w cmd n))"
  unfolding ReadSerialNumber_def Let_def
  by (rule run_exchange) (simp add: ParseSerialNumber_eq assms)

lemma run_IsDataReady:
  "run E IsDataReady w =
     (let cmd = Cmd_GetDataReady; n = kDataReadyBytes; raw = response E w cmd n
      in (Some (write_errno E w cmd = 0 \<and> read_errno E w cmd n = 0 \<and> frame_ok raw \<and> raw ! 1 = 1),
          exchange E w cmd n))"
proof -
  have "run E IsDataReady w =
     (let cmd = Cmd_GetDataReady; n = kDataReadyBytes; raw = response E w cmd n
      in (Some (if write_errno E w cmd \<noteq> 0 then False else if read_errno E w cmd n \<noteq> 0 then False
            else frame_ok raw \<and> raw ! 1 = 1), exchange E w cmd n))"
    unfolding IsDataReady_def Let_def
    by (rule run_exchange) (simp add: CheckWordsCrc_eq layout_defs)
  then show ?thesis by (simp add: Let_def)
qed

lemma run_StartMeasurement:
  "run E StartMeasurement w =
     (let err = write_errno E w Cmd_StartMeasurement
      in (Some err,
          w\<lparr>history := history w @
             [Did (Lock kBusMutex), Asked (I2cWrite (command_bytes Cmd_StartMeasurement)) err] @
             (if err = 0 then [Did (Msleep kExecStartMs)] else []) @ [Did (Unlock kBusMutex)]\<rparr>))"
  by (simp add: StartMeasurement_def BusLock_def SendCommand_def Let_def command_bytes_def
      write_errno_def perform_def log_event_def)

text \<open>The commands sent to the sensor.\<close>

fun commands :: "event list \<Rightarrow> bytes list" where
  "commands [] = []"
| "commands (Asked (I2cWrite bs) _ # es) = bs # commands es"
| "commands (e # es) = commands es"

lemma commands_append [simp]: "commands (es @ fs) = commands es @ commands fs"
  by (induction es rule: commands.induct) simp_all

lemma commands_exchange [simp]:
  "commands (history (exchange E w cmd n)) = commands (history w) @ [command_bytes cmd]"
  by (simp add: exchange_def)

section \<open>Properties\<close>

text \<open>
  C35. \<^verbatim>\<open>ReadMeasurement\<close> makes one exchange, and what it returns is decided by the first step
  that goes wrong: the errno of a refused command, else the errno of a failed read, else
  \<^verbatim>\<open>-EIO\<close> when the 27 bytes encode no nine words; in these cases the caller's measurement is
  untouched.  When they do encode nine words it returns 0 and the measurement of these words.  The
  exchange is lock, command, execution time and read, unlock, with no delay or read after a
  refused command.
\<close>

theorem ReadMeasurement_outcome:
  fixes E :: env and w :: world
  defines "refused \<equiv> write_errno E w Cmd_ReadMeasuredValues"
    and "failed \<equiv> read_errno E w Cmd_ReadMeasuredValues kMeasurementBytes"
    and "raw \<equiv> response E w Cmd_ReadMeasuredValues kMeasurementBytes"
  shows "\<exists>err m. run E (ReadMeasurement out) w =
       (Some (err, m), exchange E w Cmd_ReadMeasuredValues kMeasurementBytes) \<and>
     (if refused \<noteq> 0 then err = refused \<and> m = out
      else if failed \<noteq> 0 then err = failed \<and> m = out
      else if \<exists>ws. length ws = kMeasurementWords \<and> raw = BuildFrame ws
      then err = 0 \<and> (\<exists>ws. length ws = kMeasurementWords \<and> raw = BuildFrame ws \<and> m = decode ws)
      else err = - EIO \<and> m = out)"
proof -
  have "frame_ok raw \<longleftrightarrow> (\<exists>ws. length ws = kMeasurementWords \<and> raw = BuildFrame ws)"
    by (rule frame_accepted_iff) (simp add: raw_def)
  then show ?thesis
    by (auto simp: run_ReadMeasurement Let_def refused_def failed_def raw_def payload_words_BuildFrame)
qed

text \<open>A bus on which a sensor answers every command and always sends the same bytes.\<close>

definition steady_bus :: "bytes \<Rightarrow> env" where
  "steady_bus bs =
     \<lparr>answer = (\<lambda>h q. 0), bus_data = (\<lambda>h n. (0, \<lambda>i. bs ! i)), clock = (\<lambda>h. int (length h))\<rparr>"

lemma steady_bus_exchange [simp]:
  "write_errno (steady_bus bs) w cmd = 0" "read_errno (steady_bus bs) w cmd n = 0"
  "length bs = n \<Longrightarrow> response (steady_bus bs) w cmd n = bs"
  by (auto simp: steady_bus_def write_errno_def read_errno_def response_def intro: nth_equalityI)

definition flipped_frame :: bytes where
  "flipped_frame = xor_bytes (BuildFrame plausible_words) (1 # replicate 26 0)"

lemma flipped_frame_refused: "length flipped_frame = kMeasurementBytes" "\<not> frame_ok flipped_frame"
proof -
  show "length flipped_frame = kMeasurementBytes"
    by (simp add: flipped_frame_def xor_bytes_def plausible_words_def layout_defs)
  show "\<not> frame_ok flipped_frame"
    unfolding flipped_frame_def
    by (rule corrupted_frame) (simp_all add: plausible_words_def weight_def pop_count_def bits_of_def
      upto_8 sum_list_replicate)
qed

theorem ReadMeasurement_outcome_witness:
  "\<exists>w'. run (steady_bus flipped_frame) (ReadMeasurement Measurement_init) world_init =
     (Some (- EIO, Measurement_init), w')"
proof -
  have no: "\<nexists>ws. length ws = kMeasurementWords \<and> flipped_frame = BuildFrame ws"
    using frame_accepted_iff [OF flipped_frame_refused(1)] flipped_frame_refused(2) by simp
  from ReadMeasurement_outcome [of "steady_bus flipped_frame" Measurement_init world_init]
  show ?thesis
    unfolding steady_bus_exchange(1,2) steady_bus_exchange(3) [OF flipped_frame_refused(1)]
    using no by auto
qed

text \<open>
  \<^verbatim>\<open>IsDataReady\<close> answers true exactly when the command is acknowledged, the three bytes
  are read, the third is the checksum of the first two and the second is 1; every error reads
  as not ready.
\<close>

theorem IsDataReady_outcome:
  "run E IsDataReady w =
     (Some (write_errno E w Cmd_GetDataReady = 0 \<and> read_errno E w Cmd_GetDataReady 3 = 0 \<and>
        (let raw = response E w Cmd_GetDataReady 3
         in Crc (take 2 raw) 2 = Some (raw ! 2) \<and> raw ! 1 = 1)),
      exchange E w Cmd_GetDataReady 3)"
proof -
  have "length (response E w Cmd_GetDataReady 3) = 3 * Suc 0" by simp
  then obtain a b c where "response E w Cmd_GetDataReady 3 = [a, b, c]"
    by (rule split_first_three) simp
  then show ?thesis
    by (auto simp: run_IsDataReady Let_def layout_defs Crc_eq)
qed

end
