(* ===== verification/Measurement_Service.thy ===== *)
theory Measurement_Service
  imports Measurement_Policy Sen66_Driver
begin

text \<open>
  \<^verbatim>\<open>src/measurement_service/measurement_service.cpp\<close>: the poll work item, which drives the
  policy with the outcomes of the driver, publishes the snapshot and re-arms itself, and the
  functions other threads call.  The static policy object is touched by \<^verbatim>\<open>Init\<close> before the
  work is scheduled and by the work item afterwards, so it is passed in and returned; the
  snapshot and the callback pointer are shared with other threads and accessed as such.
  The function behind a callback pointer is a parameter (\<open>deref\<close>).
\<close>

section \<open>The code\<close>

definition PublishSnapshot :: "Policy \<Rightarrow> i64 \<Rightarrow> unit io" where
  "PublishSnapshot sPolicy nowMs =
     (let (reading, age, known) =
            (case GetLatest sPolicy nowMs of
               None \<Rightarrow> (Measurement_init, 0, False)
             | Some (m, age) \<Rightarrow> (m, age, True))
      in Do (Lock sSnapshotMutex) (
         Do (SetMeasurement reading) (
         Do (SetAgeMs age) (
         Do (SetEverValid known) (
         Do (Unlock sSnapshotMutex) (Ret ()))))))"

definition PollWorkHandler ::
  "(UpdateCallback \<Rightarrow> Measurement \<Rightarrow> u16 \<Rightarrow> unit io) \<Rightarrow> Policy \<Rightarrow> Policy io" where
  "PollWorkHandler deref sPolicy =
     io_bind (if NeedsRestart sPolicy then StartMeasurement else Ret 0) (\<lambda>err.
     let meas = Measurement_init in
     io_bind (if err = 0 then ReadMeasurement meas else Ret (err, meas)) (\<lambda>(err, meas).
     Uptime (\<lambda>now.
     let sPolicy = OnReadResult sPolicy err meas now in
     io_bind (PublishSnapshot sPolicy now) (\<lambda>_.
     io_bind
       (if ShouldNotify sPolicy
        then
          (let changed = ChangedMask sPolicy in
           case GetLatest sPolicy now of
             None \<Rightarrow> Ret sPolicy
           | Some (reading, age) \<Rightarrow>
               (let sPolicy = MarkNotified sPolicy now in
                GetCallback (\<lambda>sUpdateCallback.
                if sUpdateCallback \<noteq> None
                then GetCallback (\<lambda>sUpdateCallback.
                     case sUpdateCallback of
                       None \<Rightarrow> Undefined
                     | Some f \<Rightarrow> io_bind (deref f reading changed) (\<lambda>_. Ret sPolicy))
                else Ret sPolicy)))
        else Ret sPolicy) (\<lambda>sPolicy.
     io_bind (defined (NextDelayMs sPolicy)) (\<lambda>delay.
     Do (WorkSchedule delay) (Ret sPolicy)))))))"

definition Service_Init :: "Policy \<Rightarrow> (bool \<times> Policy) io" where
  "Service_Init sPolicy =
     Do WorkQueueInit (
     Do WorkQueueStart (
     Do WorkInit (
     io_bind StartMeasurement (\<lambda>err.
     io_bind
       (if err \<noteq> 0
        then Uptime (\<lambda>now. Ret (OnReadResult sPolicy err Measurement_init now))
        else Ret sPolicy) (\<lambda>sPolicy.
     Do (WorkSchedule 0) (Ret (True, sPolicy)))))))"

definition Service_GetLatest :: "(bool \<times> Snapshot) io" where
  "Service_GetLatest =
     Do (Lock sSnapshotMutex) (
     GetSnapshot (\<lambda>s1.
     GetSnapshot (\<lambda>s2.
     GetSnapshot (\<lambda>s3.
     let out = \<lparr>measurement = measurement s1, ageMs = ageMs s2, everValid = everValid s3\<rparr> in
     Do (Unlock sSnapshotMutex) (Ret (everValid out, out))))))"

definition RegisterUpdateCallback :: "UpdateCallback option \<Rightarrow> unit io" where
  "RegisterUpdateCallback cb = Do (SetCallback cb) (Ret ())"

text \<open>The work-queue thread: the poll work item runs whenever the timer it armed fires.\<close>

primrec work_queue ::
  "(UpdateCallback \<Rightarrow> Measurement \<Rightarrow> u16 \<Rightarrow> unit io) \<Rightarrow> nat \<Rightarrow> Policy \<Rightarrow> Policy io" where
  "work_queue deref 0 sPolicy = Ret sPolicy"
| "work_queue deref (Suc n) sPolicy = io_bind (PollWorkHandler deref sPolicy) (work_queue deref n)"

section \<open>The discipline\<close>

lemma well_locked_PublishSnapshot [discipline]: "well_locked (PublishSnapshot p now) None False"
  by (simp add: PublishSnapshot_def Let_def split: prod.splits)

lemma well_locked_Service_GetLatest [discipline]: "well_locked Service_GetLatest None False"
  by (simp add: Service_GetLatest_def Let_def)

lemma well_locked_RegisterUpdateCallback [discipline]:
  "well_locked (RegisterUpdateCallback (Some f)) None False"
  by (simp add: RegisterUpdateCallback_def)

lemma run_Service_GetLatest:
  "run E Service_GetLatest w =
     (Some (everValid (snap w), snap w),
      w\<lparr>history := history w @ [Did (Lock sSnapshotMutex), SawSnapshot (snap w), SawSnapshot (snap w),
          SawSnapshot (snap w), Did (Unlock sSnapshotMutex)]\<rparr>)"
  by (simp add: Service_GetLatest_def Let_def perform_def log_event_def)

section \<open>What a tick does\<close>

text \<open>The reading a tick feeds to the policy.\<close>

definition acquire :: "Policy \<Rightarrow> (errno \<times> Measurement) io" where
  "acquire p =
     io_bind (if NeedsRestart p then StartMeasurement else Ret 0) (\<lambda>err.
     if err = 0 then ReadMeasurement Measurement_init else Ret (err, Measurement_init))"

definition snapshot_of :: "Policy \<Rightarrow> i64 \<Rightarrow> Snapshot" where
  "snapshot_of p now =
     (case GetLatest p now of None \<Rightarrow> Snapshot_init
      | Some (m, age) \<Rightarrow> \<lparr>measurement = m, ageMs = age, everValid = True\<rparr>)"

lemma run_PublishSnapshot:
  "run E (PublishSnapshot p now) w =
     (Some (), w\<lparr>snap := snapshot_of p now,
        history := history w @ [Did (Lock sSnapshotMutex), Did (SetMeasurement (measurement (snapshot_of p now))),
          Did (SetAgeMs (ageMs (snapshot_of p now))), Did (SetEverValid (everValid (snapshot_of p now))),
          Did (Unlock sSnapshotMutex)]\<rparr>)"
  by (simp add: PublishSnapshot_def snapshot_of_def Snapshot_init_def Let_def perform_def log_event_def
      split: option.splits)

text \<open>The rest of the handler, from the policy's decision on.\<close>

definition react ::
  "(UpdateCallback \<Rightarrow> Measurement \<Rightarrow> u16 \<Rightarrow> unit io) \<Rightarrow> Policy \<Rightarrow> i64 \<Rightarrow> Policy io" where
  "react deref q now =
     io_bind (PublishSnapshot q now) (\<lambda>_.
     io_bind
       (if ShouldNotify q
        then
          (let changed = ChangedMask q in
           case GetLatest q now of
             None \<Rightarrow> Ret q
           | Some (reading, age) \<Rightarrow>
               (let q = MarkNotified q now in
                GetCallback (\<lambda>cb. if cb \<noteq> None
                then GetCallback (\<lambda>cb. case cb of None \<Rightarrow> Undefined
                     | Some f \<Rightarrow> io_bind (deref f reading changed) (\<lambda>_. Ret q))
                else Ret q)))
        else Ret q) (\<lambda>q.
     io_bind (defined (NextDelayMs q)) (\<lambda>delay. Do (WorkSchedule delay) (Ret q))))"

lemma PollWorkHandler_split:
  "PollWorkHandler deref p =
     io_bind (acquire p) (\<lambda>(err, m). Uptime (\<lambda>now. react deref (OnReadResult p err m now) now))"
  by (simp add: PollWorkHandler_def acquire_def react_def io_bind_assoc Let_def)

lemma run_acquire:
  "run E (acquire p) w =
     (if NeedsRestart p
      then (let err = write_errno E w Cmd_StartMeasurement; w1 = snd (run E StartMeasurement w)
            in if err = 0 then run E (ReadMeasurement Measurement_init) w1
               else (Some (err, Measurement_init), w1))
      else run E (ReadMeasurement Measurement_init) w)"
  by (simp add: acquire_def run_bind run_StartMeasurement Let_def)

text \<open>The outcome of a tick's reading, the world after it, and the policy after the tick.\<close>

definition outcome :: "env \<Rightarrow> Policy \<Rightarrow> world \<Rightarrow> errno \<times> Measurement" where
  "outcome E p w = the (fst (run E (acquire p) w))"

definition after_read :: "env \<Rightarrow> Policy \<Rightarrow> world \<Rightarrow> world" where
  "after_read E p w = snd (run E (acquire p) w)"

definition tick_time :: "env \<Rightarrow> Policy \<Rightarrow> world \<Rightarrow> i64" where
  "tick_time E p w = clock E (history (after_read E p w))"

definition fed :: "env \<Rightarrow> Policy \<Rightarrow> world \<Rightarrow> Policy" where
  "fed E p w = OnReadResult p (fst (outcome E p w)) (snd (outcome E p w)) (tick_time E p w)"

definition ticked :: "env \<Rightarrow> Policy \<Rightarrow> world \<Rightarrow> Policy" where
  "ticked E p w =
     (if ShouldNotify (fed E p w) then MarkNotified (fed E p w) (tick_time E p w) else fed E p w)"

text \<open>A successful tick read a frame of the sensor; a failed one left the default measurement.\<close>

lemma outcome_cases:
  obtains (success) ws where "outcome E p w = (0, decode ws)" "length ws = kMeasurementWords"
  | (failure) err where "outcome E p w = (err, Measurement_init)" "err \<noteq> 0"
proof -
  have read: "(\<exists>ws. fst (run E (ReadMeasurement Measurement_init) v) = Some (0, decode ws) \<and>
      length ws = kMeasurementWords) \<or>
    (\<exists>err. fst (run E (ReadMeasurement Measurement_init) v) = Some (err, Measurement_init) \<and> err \<noteq> 0)" for v
  proof -
    let ?raw = "response E v Cmd_ReadMeasuredValues kMeasurementBytes"
    have "length (payload_words ?raw) = kMeasurementWords"
      by (rule length_payload_words) (simp add: layout_defs)
    then show ?thesis by (auto simp: run_ReadMeasurement Let_def EIO_def)
  qed
  show thesis
  proof (cases "NeedsRestart p \<and> write_errno E w Cmd_StartMeasurement \<noteq> 0")
    case True
    then have "outcome E p w = (write_errno E w Cmd_StartMeasurement, Measurement_init)"
      by (simp add: outcome_def run_acquire Let_def)
    moreover have "write_errno E w Cmd_StartMeasurement \<noteq> 0" using True by (rule conjunct2)
    ultimately show thesis by (rule failure)
  next
    case False
    then obtain v where "run E (acquire p) w = run E (ReadMeasurement Measurement_init) v"
      unfolding run_acquire Let_def by (cases "NeedsRestart p") auto
    with read [of v] show thesis by (auto simp: outcome_def intro: success failure)
  qed
qed

lemma run_acquire_outcome: "run E (acquire p) w = (Some (outcome E p w), after_read E p w)"
proof -
  have "\<exists>x. fst (run E (acquire p) w) = Some x"
    by (simp add: run_acquire run_ReadMeasurement Let_def)
  then show ?thesis by (auto simp: outcome_def after_read_def prod_eq_iff)
qed

lemma after_read_simps [simp]: "snap (after_read E p w) = snap w" "callback (after_read E p w) = callback w"
  by (simp_all add: after_read_def run_acquire run_ReadMeasurement run_StartMeasurement Let_def)

lemma usable_fed: "usable p \<Longrightarrow> usable (fed E p w)"
  by (simp add: fed_def sen66_policy.inv_feed)

lemma usable_ticked: "usable p \<Longrightarrow> usable (ticked E p w)"
  by (simp add: ticked_def usable_fed sen66_policy.inv_acknowledge)

lemma snapshot_of_ticked: "snapshot_of (ticked E p w) now = snapshot_of (fed E p w) now"
  by (simp add: ticked_def snapshot_of_def sen66_policy.snapshot_acknowledge)

lemma delay_ticked: "NextDelayMs (ticked E p w) = NextDelayMs (fed E p w)"
  by (simp add: ticked_def sen66_policy.delay_acknowledge)

text \<open>The events of publishing a snapshot.\<close>

definition publication :: "Snapshot \<Rightarrow> event list" where
  "publication s =
     [Did (Lock sSnapshotMutex), Did (SetMeasurement (measurement s)), Did (SetAgeMs (ageMs s)),
      Did (SetEverValid (everValid s)), Did (Unlock sSnapshotMutex)]"

section \<open>The schedule of ticks\<close>

text \<open>The delays the poll timer was armed with.\<close>

fun scheduled :: "event list \<Rightarrow> u32 list" where
  "scheduled [] = []"
| "scheduled (Did (WorkSchedule d) # es) = d # scheduled es"
| "scheduled (e # es) = scheduled es"

lemma scheduled_append [simp]: "scheduled (es @ fs) = scheduled es @ scheduled fs"
  by (induction es rule: scheduled.induct) simp_all

lemma scheduled_exchange [simp]: "scheduled (history (exchange E w cmd n)) = scheduled (history w)"
  by (simp add: exchange_def)

lemma scheduled_after_read [simp]: "scheduled (history (after_read E p w)) = scheduled (history w)"
  by (simp add: after_read_def run_acquire run_ReadMeasurement run_StartMeasurement Let_def)

lemma scheduled_publication [simp]: "scheduled (publication s) = []"
  by (simp add: publication_def)

text \<open>The delays an abstract counter of failures, at \<open>k\<close> to begin with, prescribes for reads.\<close>

primrec schedule :: "PolicyConfig \<Rightarrow> nat \<Rightarrow> errno list \<Rightarrow> u32 list" where
  "schedule cfg k [] = []"
| "schedule cfg k (e # es) =
     (let k' = if e = 0 then 0 else Suc k in scheduled_delay cfg k' # schedule cfg k' es)"

lemma length_schedule [simp]: "length (schedule cfg k es) = length es"
  by (induction es arbitrary: k) (simp_all add: Let_def)

text \<open>The errnos a work-queue thread that runs \<open>n\<close> ticks gets from its readings.\<close>

primrec read_errors ::
  "env \<Rightarrow> (UpdateCallback \<Rightarrow> Measurement \<Rightarrow> u16 \<Rightarrow> unit io) \<Rightarrow> nat \<Rightarrow> Policy \<Rightarrow> world \<Rightarrow> errno list" where
  "read_errors E deref 0 p w = []"
| "read_errors E deref (Suc n) p w =
     fst (outcome E p w) #
     read_errors E deref n (ticked E p w) (snd (run E (PollWorkHandler deref p) w))"

lemma length_read_errors [simp]: "length (read_errors E deref n p w) = n"
  by (induction n arbitrary: p w) simp_all

lemma config_ticked [simp]: "config (ticked E p w) = config p"
  by (simp add: ticked_def fed_def)

text \<open>A tick moves the abstract counter as its reading says.\<close>

lemma backoff_rel_ticked:
  fixes p :: Policy and k :: nat and E :: env and w :: world
  assumes "backoff_rel p k" and "unat (failureThreshold (config p)) + 3 < 2 ^ 32"
  defines "k' \<equiv> if fst (outcome E p w) = 0 then 0 else Suc k"
  shows "backoff_rel (ticked E p w) k'" and "backoff_rel (fed E p w) k'"
proof -
  obtain err m where o: "outcome E p w = (err, m)" by fastforce
  show fed: "backoff_rel (fed E p w) k'"
    using assms backoff_rel_failure [of p k err m "tick_time E p w"]
    by (cases "err = 0")
      (simp_all add: fed_def o k'_def backoff_rel_def OnReadResult_success backoff_threshold_def)
  then show "backoff_rel (ticked E p w) k'"
    by (simp add: ticked_def backoff_rel_def)
qed

lemma delay_of_backoff_rel:
  "backoff_rel p k \<Longrightarrow> usable p \<Longrightarrow> NextDelayMs p = Some (scheduled_delay (config p) k)"
  by (auto simp: backoff_rel_def NextDelayMs_def scheduled_delay_def usable_def kBackoffStepCount_def)

section \<open>The contract of the function behind the callback\<close>

text \<open>
  An event that is neither a transfer on the bus, nor an access to the snapshot, nor a
  re-arming of the poll timer, nor a mutex operation.
\<close>

fun quiet :: "event \<Rightarrow> bool" where
  "quiet (Did (Lock _)) = False"
| "quiet (Did (Unlock _)) = False"
| "quiet (Did (SetMeasurement _)) = False"
| "quiet (Did (SetAgeMs _)) = False"
| "quiet (Did (SetEverValid _)) = False"
| "quiet (Did (WorkSchedule _)) = False"
| "quiet (Did _) = True"
| "quiet _ = False"

text \<open>
  \<^verbatim>\<open>measurement_service.h\<close> runs the callback on the poll thread and asks it to hand its work
  over: whatever it is called with, it performs a fixed list of quiet calls and returns.
\<close>

locale update_listener =
  fixes deref :: "UpdateCallback \<Rightarrow> Measurement \<Rightarrow> u16 \<Rightarrow> unit io"
    and sends :: "UpdateCallback \<Rightarrow> event list"
  assumes deref_runs: "run E (deref f m msk) w = (Some (), w\<lparr>history := history w @ sends f\<rparr>)"
    and deref_disciplined: "well_locked (deref f m msk) None False"
    and sends_quiet: "list_all quiet (sends f)"
begin

text \<open>The events of the notification branch.\<close>

definition notification :: "UpdateCallback option \<Rightarrow> event list" where
  "notification cb =
     (case cb of None \<Rightarrow> [SawCallback None]
      | Some f \<Rightarrow> [SawCallback (Some f), SawCallback (Some f)] @ sends f)"

lemma run_react:
  fixes q :: Policy and now :: i64
  assumes "usable q"
  defines "q' \<equiv> if ShouldNotify q then MarkNotified q now else q"
  shows "run E (react deref q now) w =
    (Some q', w\<lparr>snap := snapshot_of q now,
       history := history w @ publication (snapshot_of q now) @
         (if ShouldNotify q then notification (callback w) else []) @
         [Did (WorkSchedule (the (NextDelayMs q)))]\<rparr>)"
proof -
  obtain d where d: "NextDelayMs q = Some d"
    using sen66_policy.delay_defined [OF assms(1)] by auto
  show ?thesis
  proof (cases "ShouldNotify q")
    case True
    obtain m age where "GetLatest q now = Some (m, age)"
      using sen66_policy.due_obtains [OF assms(1) True] by blast
    then show ?thesis
      using True d unfolding react_def
      by (cases "callback w")
        (simp_all add: q'_def run_bind run_PublishSnapshot Let_def deref_runs perform_def log_event_def
          publication_def notification_def sen66_policy.delay_acknowledge)
  next
    case False
    then show ?thesis
      using d unfolding react_def
      by (simp add: q'_def run_bind run_PublishSnapshot perform_def log_event_def publication_def)
  qed
qed

lemma run_PollWorkHandler:
  assumes "usable p"
  shows "run E (PollWorkHandler deref p) w =
    (Some (ticked E p w),
     (after_read E p w)\<lparr>snap := snapshot_of (fed E p w) (tick_time E p w),
       history := history (after_read E p w) @ [Clock (tick_time E p w)] @
         publication (snapshot_of (fed E p w) (tick_time E p w)) @
         (if ShouldNotify (fed E p w) then notification (callback w) else []) @
         [Did (WorkSchedule (the (NextDelayMs (fed E p w))))]\<rparr>)"
proof -
  obtain err m where o: "outcome E p w = (err, m)" by fastforce
  have fed: "OnReadResult p err m (tick_time E p w) = fed E p w"
    by (simp add: fed_def o)
  show ?thesis
    unfolding PollWorkHandler_split run_bind run_acquire_outcome o
    by (simp add: tick_time_def [symmetric] fed Let_def run_react [OF usable_fed [OF assms]]
        log_event_def ticked_def)
qed

lemma well_locked_call:
  assumes "well_locked (K q) None False"
  shows "well_locked (io_bind (GetCallback (\<lambda>cb. if cb \<noteq> None
       then GetCallback (\<lambda>cb. case cb of None \<Rightarrow> Undefined
            | Some f \<Rightarrow> io_bind (deref f reading changed) (\<lambda>_. Ret q))
       else Ret q)) K) None False"
proof -
  have "well_locked (io_bind (deref f reading changed) (\<lambda>_. K q)) None seen" for f seen
    using assms by (intro well_locked_bind [OF well_locked_seen [OF deref_disciplined]])
  then have "well_locked (io_bind (case cb of None \<Rightarrow> Undefined
      | Some f \<Rightarrow> io_bind (deref f reading changed) (\<lambda>_. Ret q)) K) None True" if "cb \<noteq> None" for cb
    using that by (cases cb) (simp_all add: io_bind_assoc)
  with assms show ?thesis by simp
qed

lemma well_locked_react [discipline]: "usable q \<Longrightarrow> well_locked (react deref q now) None False"
proof -
  assume u: "usable q"
  then obtain d where d: "NextDelayMs q = Some d" "NextDelayMs (MarkNotified q now) = Some d"
    using sen66_policy.delay_defined [of q] by (auto simp: sen66_policy.delay_acknowledge)
  show ?thesis
  proof (cases "ShouldNotify q")
    case True
    obtain m age where g: "GetLatest q now = Some (m, age)"
      using sen66_policy.due_obtains [OF u True] by blast
    have "react deref q now =
      io_bind (PublishSnapshot q now) (\<lambda>_. io_bind (GetCallback (\<lambda>cb. if cb \<noteq> None
         then GetCallback (\<lambda>cb. case cb of None \<Rightarrow> Undefined
              | Some f \<Rightarrow> io_bind (deref f m (ChangedMask q)) (\<lambda>_. Ret (MarkNotified q now)))
         else Ret (MarkNotified q now))) (\<lambda>q'.
       io_bind (defined (NextDelayMs q')) (\<lambda>delay. Do (WorkSchedule delay) (Ret q'))))"
      using True g by (simp add: react_def Let_def)
    moreover have "well_locked (\<dots>) None False"
      using d by (intro well_locked_bind [OF well_locked_PublishSnapshot] well_locked_call) simp
    ultimately show ?thesis by simp
  next
    case False
    with d show ?thesis
      unfolding react_def by (intro well_locked_bind [OF well_locked_PublishSnapshot]) simp
  qed
qed

lemma well_locked_acquire: "well_locked (acquire p) None False"
  unfolding acquire_def by (intro well_locked_bind) (simp_all add: discipline)

lemma well_locked_PollWorkHandler [discipline]:
  assumes "usable p"
  shows "well_locked (PollWorkHandler deref p) None False"
  unfolding PollWorkHandler_split
  by (intro well_locked_bind [OF well_locked_acquire])
    (simp add: well_locked_react usable_OnReadResult assms split: prod.split)

lemma scheduled_notification [simp]: "scheduled (notification cb) = []"
proof -
  have "scheduled (sends f) = []" for f
  proof -
    have "list_all quiet es \<Longrightarrow> scheduled es = []" for es
      by (induction es rule: scheduled.induct) simp_all
    then show ?thesis using sends_quiet by blast
  qed
  then show ?thesis by (simp add: notification_def split: option.split)
qed

lemma run_work_queue:
  assumes "usable p" and "backoff_rel p k" and "unat (failureThreshold (config p)) + 3 < 2 ^ 32"
  shows "\<exists>p' w'. run E (work_queue deref n p) w = (Some p', w') \<and> usable p' \<and>
    scheduled (history w') =
      scheduled (history w) @ schedule (config p) k (read_errors E deref n p w)"
  using assms
proof (induction n arbitrary: p k w)
  case 0
  then show ?case by simp
next
  case (Suc n)
  let ?k = "if fst (outcome E p w) = 0 then 0 else Suc k"
  let ?w = "snd (run E (PollWorkHandler deref p) w)"
  have rel: "backoff_rel (ticked E p w) ?k" "backoff_rel (fed E p w) ?k"
    using backoff_rel_ticked [OF Suc.prems(2,3)] by blast+
  have "NextDelayMs (fed E p w) = Some (scheduled_delay (config p) ?k)"
    using delay_of_backoff_rel [OF rel(2) usable_fed [OF Suc.prems(1)]] by (simp add: fed_def)
  then have sched: "scheduled (history ?w) = scheduled (history w) @ [scheduled_delay (config p) ?k]"
    by (simp add: run_PollWorkHandler [OF Suc.prems(1)])
  obtain p' w' where r: "run E (work_queue deref n (ticked E p w)) ?w = (Some p', w')" "usable p'"
    and h: "scheduled (history w') =
      scheduled (history ?w) @ schedule (config p) ?k (read_errors E deref n (ticked E p w) ?w)"
    using Suc.IH [OF usable_ticked [OF Suc.prems(1)] rel(1), of ?w] Suc.prems(3) by auto
  have "run E (work_queue deref (Suc n) p) w = (Some p', w')"
    using r(1) by (simp add: run_bind run_PollWorkHandler [OF Suc.prems(1)])
  with r(2) h sched show ?case by (simp add: Let_def)
qed

end

end
