(* ===== verification/Binary32.thy ===== *)
theory Binary32
  imports Complex_Main "HOL-Library.Log_Nat"
begin

text \<open>
  The \<^verbatim>\<open>float\<close> of the code: IEEE 754 binary32 with round to nearest, ties to even.  A finite
  float is the rational it denotes, and every operation is the exact one followed by \<open>fl\<close>.
  The program's values lie between 0 and 65535, so infinities and NaNs do not occur and are
  left out.
\<close>

section \<open>Rounding to an integer\<close>

definition round_half_even :: "rat \<Rightarrow> int" where
  "round_half_even x =
     (let n = \<lfloor>x\<rfloor>; d = x - of_int n
      in if d < 1 / 2 \<or> (d = 1 / 2 \<and> even n) then n else n + 1)"

lemma round_half_even_bounds: "\<lfloor>x\<rfloor> \<le> round_half_even x \<and> round_half_even x \<le> \<lfloor>x\<rfloor> + 1"
  by (simp add: round_half_even_def Let_def)

lemma round_half_even_of_int [simp]: "round_half_even (of_int n) = n"
  by (simp add: round_half_even_def)

lemma round_half_even_mono: "x \<le> y \<Longrightarrow> round_half_even x \<le> round_half_even y"
proof -
  assume le: "x \<le> y"
  then have "\<lfloor>x\<rfloor> \<le> \<lfloor>y\<rfloor>" by (rule floor_mono)
  then consider "\<lfloor>x\<rfloor> + 1 \<le> \<lfloor>y\<rfloor>" | "\<lfloor>x\<rfloor> = \<lfloor>y\<rfloor>" by linarith
  then show ?thesis
  proof cases
    case 1
    then show ?thesis using round_half_even_bounds [of x] round_half_even_bounds [of y] by linarith
  next
    case 2
    with le show ?thesis by (auto simp: round_half_even_def Let_def)
  qed
qed

lemma round_half_even_error: "\<bar>of_int (round_half_even x) - x\<bar> \<le> 1 / 2"
proof -
  have "of_int \<lfloor>x\<rfloor> \<le> x" "x < of_int \<lfloor>x\<rfloor> + 1" by linarith+
  then show ?thesis unfolding round_half_even_def Let_def abs_le_iff by (simp split: if_splits) linarith
qed

section \<open>The exponent\<close>

definition two_pow :: "int \<Rightarrow> rat" where
  "two_pow e = (if 0 \<le> e then 2 ^ nat e else 1 / 2 ^ nat (- e))"

lemma two_pow_powi: "two_pow e = 2 powi e"
proof (cases "0 \<le> e")
  case True
  then show ?thesis by (simp only: two_pow_def power_int_def if_True)
next
  case False
  then show ?thesis
    by (simp only: two_pow_def power_int_def if_False power_inverse inverse_eq_divide)
      (simp only: power_one_over)
qed

lemma two_pow_pos [simp]: "0 < two_pow e"
  by (simp add: two_pow_powi)

lemma two_pow_nonzero [simp]: "two_pow e \<noteq> 0"
  using two_pow_pos [of e] by linarith

lemma two_pow_add: "two_pow (a + b) = two_pow a * two_pow b"
  by (simp add: two_pow_powi power_int_add)

lemma two_pow_mono: "a \<le> b \<Longrightarrow> two_pow a \<le> two_pow b"
  by (simp add: two_pow_powi power_int_increasing)

lemma two_pow_less_iff: "two_pow a < two_pow b \<longleftrightarrow> a < b"
proof
  show "two_pow a < two_pow b \<Longrightarrow> a < b" using two_pow_mono [of b a] by linarith
  show "a < b \<Longrightarrow> two_pow a < two_pow b" unfolding two_pow_powi by (rule power_int_strict_increasing) simp_all
qed

lemma two_pow_of_nat: "two_pow (int n) = 2 ^ n"
  by (simp add: two_pow_def)

text \<open>The exponent \<open>e\<close> with \<open>2\<^sup>e \<le> x < 2\<^sup>e\<^sup>+\<^sup>1\<close> of a positive rational.\<close>

definition exponent :: "rat \<Rightarrow> int" where
  "exponent x =
     (let (a, b) = quotient_of x; e = bitlen a - bitlen b in if two_pow e \<le> x then e else e - 1)"

lemma bitlen_two_pow:
  assumes "0 < a"
  shows "two_pow (bitlen a - 1) \<le> of_int a \<and> of_int a < two_pow (bitlen a)"
proof -
  have "1 \<le> bitlen a" using assms bitlen_nonneg [of a] bitlen_eq_zero_iff [of a] by linarith
  moreover have "of_int (2 ^ nat (bitlen a - 1)) \<le> (of_int a :: rat)"
    "of_int a < (of_int (2 ^ nat (bitlen a)) :: rat)"
    unfolding of_int_le_iff of_int_less_iff using bitlen_bounds [OF assms] by auto
  ultimately show ?thesis by (simp add: two_pow_def)
qed

lemma exponent_bounds:
  assumes "0 < x"
  shows "two_pow (exponent x) \<le> x \<and> x < two_pow (exponent x + 1)"
proof -
  obtain a b where q: "quotient_of x = (a, b)" by fastforce
  have b: "0 < b" using quotient_of_denom_pos [OF q] .
  have x: "x = of_int a / of_int b" using quotient_of_div [OF q] .
  have a: "0 < a" using assms b unfolding x by (simp add: zero_less_divide_iff)
  let ?e = "bitlen a - bitlen b"
  have A: "two_pow (bitlen a - 1) \<le> of_int a" "of_int a < two_pow (bitlen a)"
    and B: "two_pow (bitlen b - 1) \<le> of_int b" "of_int b < two_pow (bitlen b)"
    using bitlen_two_pow [OF a] bitlen_two_pow [OF b] by auto
  have "x * two_pow (bitlen b - 1) \<le> of_int a"
    using B(1) a b unfolding x by (simp add: field_simps)
  also have "\<dots> < two_pow ((?e + 1) + (bitlen b - 1))" using A(2) by simp
  finally have up: "x < two_pow (?e + 1)" unfolding two_pow_add [of "?e + 1"] by simp
  have "two_pow (?e - 1) * of_int b \<le> two_pow (?e - 1) * two_pow (bitlen b)"
    using B(2) by simp
  also have "\<dots> = two_pow (bitlen a - 1)" by (simp flip: two_pow_add)
  also have "\<dots> \<le> of_int a" by (rule A(1))
  finally have low: "two_pow (?e - 1) \<le> x" using b unfolding x by (simp add: field_simps)
  show ?thesis using up low by (auto simp: exponent_def q Let_def)
qed

lemma exponent_unique:
  assumes "two_pow e \<le> x" and "x < two_pow (e + 1)"
  shows "exponent x = e"
proof -
  have "0 < x" using assms(1) two_pow_pos [of e] by linarith
  then have "two_pow (exponent x) \<le> x" "x < two_pow (exponent x + 1)"
    using exponent_bounds by auto
  with assms have "two_pow (exponent x) < two_pow (e + 1)" "two_pow e < two_pow (exponent x + 1)"
    by linarith+
  then show ?thesis unfolding two_pow_less_iff by linarith
qed

lemma exponent_mono: "0 < x \<Longrightarrow> x \<le> y \<Longrightarrow> exponent x \<le> exponent y"
proof -
  assume "0 < x" "x \<le> y"
  then have "two_pow (exponent x) < two_pow (exponent y + 1)"
    using exponent_bounds [of x] exponent_bounds [of y] by linarith
  then show ?thesis by (simp add: two_pow_less_iff)
qed

section \<open>Rounding to a float\<close>

text \<open>The unit in the last place: 24 significant bits, and no exponent below -126.\<close>

definition ulp :: "rat \<Rightarrow> rat" where
  "ulp x = two_pow (max (exponent x) (- 126) - 23)"

definition fl :: "rat \<Rightarrow> rat" where
  "fl x =
     (if x = 0 then 0
      else if 0 < x then of_int (round_half_even (x / ulp x)) * ulp x
      else - (of_int (round_half_even (- x / ulp (- x))) * ulp (- x)))"

lemma ulp_pos [simp]: "0 < ulp x"
  by (simp add: ulp_def)

lemma fl_pos: "0 < x \<Longrightarrow> fl x = of_int (round_half_even (x / ulp x)) * ulp x"
  by (simp add: fl_def)

lemma fl_0 [simp]: "fl 0 = 0"
  by (simp add: fl_def)

lemma fl_error: "0 < x \<Longrightarrow> \<bar>fl x - x\<bar> \<le> ulp x / 2"
proof -
  assume "0 < x"
  have "ulp x \<noteq> 0" using ulp_pos [of x] by linarith
  then have "fl x - x = (of_int (round_half_even (x / ulp x)) - x / ulp x) * ulp x"
    using \<open>0 < x\<close> by (simp add: fl_pos left_diff_distrib)
  then have "\<bar>fl x - x\<bar> = \<bar>of_int (round_half_even (x / ulp x)) - x / ulp x\<bar> * ulp x"
    by (simp add: abs_mult abs_of_pos [OF ulp_pos])
  also have "\<dots> \<le> 1 / 2 * ulp x"
    by (rule mult_right_mono [OF round_half_even_error]) (simp add: less_imp_le)
  finally show ?thesis by simp
qed

text \<open>A multiple of an ulp within the binade stays as it is, and so do the binade's ends.\<close>

lemma fl_of_multiple:
  assumes "x = of_int n * ulp x" "0 < x"
  shows "fl x = x"
proof -
  have "x / ulp x = of_int n" using assms(1) ulp_pos [of x] by (metis nonzero_mult_div_cancel_right less_irrefl)
  then show ?thesis using assms by (simp add: fl_pos)
qed

lemma fl_nonneg: "0 \<le> x \<Longrightarrow> 0 \<le> fl x"
proof (cases "x = 0")
  case False
  assume "0 \<le> x"
  with False have "0 < x" by simp
  moreover have "round_half_even 0 \<le> round_half_even (x / ulp x)"
    using \<open>0 < x\<close> by (intro round_half_even_mono) (simp add: less_imp_le)
  ultimately show ?thesis
    using round_half_even_of_int [of 0] by (simp add: fl_pos less_imp_le)
qed simp

text \<open>Within a binade rounding does not pass the next power of two.\<close>

lemma fl_le_binade:
  assumes "0 < x" and "- 126 \<le> exponent x"
  shows "fl x \<le> two_pow (exponent x + 1)"
proof -
  let ?e = "exponent x"
  have u: "ulp x = two_pow (?e - 23)" using assms(2) by (simp add: ulp_def)
  have "two_pow (?e + 1) = two_pow (24 + (?e - 23))" by (simp add: add.commute)
  then have top: "two_pow (?e + 1) = of_int (2 ^ 24) * ulp x"
    unfolding two_pow_add u by (simp add: two_pow_def)
  have "x \<le> of_int (2 ^ 24) * ulp x" using exponent_bounds [OF assms(1)] top by linarith
  then have "x / ulp x \<le> of_int (2 ^ 24)" by (simp add: divide_le_eq)
  from round_half_even_mono [OF this] have "round_half_even (x / ulp x) \<le> 2 ^ 24"
    unfolding round_half_even_of_int .
  then have "of_int (round_half_even (x / ulp x)) \<le> (of_int (2 ^ 24) :: rat)"
    unfolding of_int_le_iff .
  then have "of_int (round_half_even (x / ulp x)) * ulp x \<le> of_int (2 ^ 24) * ulp x"
    by (rule mult_right_mono) (simp add: less_imp_le)
  then show ?thesis unfolding fl_pos [OF assms(1)] top .
qed

lemma binade_le_fl:
  assumes "0 < x" and "- 126 \<le> exponent x"
  shows "two_pow (exponent x) \<le> fl x"
proof -
  let ?e = "exponent x"
  have u: "ulp x = two_pow (?e - 23)" using assms(2) by (simp add: ulp_def)
  have "two_pow ?e = two_pow (23 + (?e - 23))" by simp
  then have bot: "two_pow ?e = of_int (2 ^ 23) * ulp x"
    unfolding two_pow_add u by (simp add: two_pow_def)
  have "of_int (2 ^ 23) * ulp x \<le> x" using exponent_bounds [OF assms(1)] bot by linarith
  then have "of_int (2 ^ 23) \<le> x / ulp x" by (simp add: le_divide_eq)
  from round_half_even_mono [OF this] have "2 ^ 23 \<le> round_half_even (x / ulp x)"
    unfolding round_half_even_of_int .
  then have "(of_int (2 ^ 23) :: rat) \<le> of_int (round_half_even (x / ulp x))"
    unfolding of_int_le_iff .
  then have "of_int (2 ^ 23) * ulp x \<le> of_int (round_half_even (x / ulp x)) * ulp x"
    by (rule mult_right_mono) (simp add: less_imp_le)
  then show ?thesis unfolding fl_pos [OF assms(1)] bot .
qed

lemma fl_mono: "0 \<le> x \<Longrightarrow> x \<le> y \<Longrightarrow> fl x \<le> fl y"
proof -
  assume xy: "0 \<le> x" "x \<le> y"
  show ?thesis
  proof (cases "x = 0")
    case True
    with xy fl_nonneg [of y] show ?thesis by simp
  next
    case False
    with xy have pos: "0 < x" "0 < y" by auto
    have le: "exponent x \<le> exponent y" using pos(1) xy(2) by (rule exponent_mono)
    show ?thesis
    proof (cases "ulp x = ulp y")
      case True
      have "x / ulp y \<le> y / ulp y" using xy(2) by (simp add: divide_right_mono less_imp_le)
      then show ?thesis
        using pos True by (simp add: fl_pos round_half_even_mono mult_right_mono less_imp_le)
    next
      case False
      then have "max (exponent x) (- 126) \<noteq> max (exponent y) (- 126)" by (auto simp: ulp_def)
      then have *: "exponent x + 1 \<le> exponent y" "- 126 < exponent y"
        using le by linarith+
      have y: "two_pow (exponent y) \<le> fl y" using pos(2) *(2) by (intro binade_le_fl) simp_all
      show ?thesis
      proof (cases "- 126 \<le> exponent x")
        case True
        have "fl x \<le> two_pow (exponent x + 1)" using pos(1) True by (rule fl_le_binade)
        also have "\<dots> \<le> two_pow (exponent y)" using *(1) by (rule two_pow_mono)
        finally show ?thesis using y by simp
      next
        case F: False
        have u: "ulp x = two_pow (- 149)" using F by (simp add: ulp_def)
        have "two_pow (- 126) = two_pow (23 + - 149)" by simp
        then have "two_pow (- 126) = of_int (2 ^ 23) * ulp x"
          unfolding two_pow_add u by (simp add: two_pow_def)
        moreover have "x \<le> two_pow (- 126)"
          using exponent_bounds [OF pos(1)] two_pow_mono [of "exponent x + 1" "- 126"] F by linarith
        ultimately have "x / ulp x \<le> of_int (2 ^ 23)" by (simp add: divide_le_eq)
        from round_half_even_mono [OF this] have "round_half_even (x / ulp x) \<le> 2 ^ 23"
          unfolding round_half_even_of_int .
        then have "of_int (round_half_even (x / ulp x)) \<le> (of_int (2 ^ 23) :: rat)"
          unfolding of_int_le_iff .
        then have "fl x \<le> of_int (2 ^ 23) * ulp x"
          unfolding fl_pos [OF pos(1)] by (rule mult_right_mono) (simp add: less_imp_le)
        also have "\<dots> = two_pow (- 126)" by (simp add: \<open>two_pow (- 126) = of_int (2 ^ 23) * ulp x\<close>)
        also have "\<dots> \<le> two_pow (exponent y)" using *(2) by (intro two_pow_mono) simp
        finally show ?thesis using y by simp
      qed
    qed
  qed
qed

text \<open>Integers below \<open>2\<^sup>2\<^sup>4\<close> are floats.\<close>

lemma fl_of_nat:
  assumes "n < 2 ^ 24"
  shows "fl (of_nat n) = of_nat n"
proof (cases "n = 0")
  case False
  let ?x = "of_nat n :: rat"
  have pos: "0 < ?x" using False by simp
  have "two_pow (exponent ?x) \<le> ?x" using exponent_bounds [OF pos] by blast
  also have "?x < of_nat (2 ^ 24)" using assms unfolding of_nat_less_iff .
  also have "\<dots> = two_pow 24" by (simp add: two_pow_def)
  finally have hi: "exponent ?x \<le> 23" by (simp add: two_pow_less_iff)
  have "two_pow 0 \<le> ?x" using False by (simp add: two_pow_def)
  also have "?x < two_pow (exponent ?x + 1)" using exponent_bounds [OF pos] by blast
  finally have lo: "0 \<le> exponent ?x" by (simp add: two_pow_less_iff)
  define k where "k = nat (23 - exponent ?x)"
  have "ulp ?x = two_pow (- int k)" using hi lo by (simp add: ulp_def k_def)
  also have "\<dots> = 1 / 2 ^ k" by (simp add: two_pow_def)
  finally have "?x = of_int (int n * 2 ^ k) * ulp ?x" by simp
  then show ?thesis using pos by (rule fl_of_multiple)
qed simp

end
