(* ===== verification/Air_Quality_Policy.thy ===== *)
theory Air_Quality_Policy
  imports Sen66_Protocol Binary32
begin

text \<open>
  \<^verbatim>\<open>src/air_quality_endpoint/air_quality_policy.h\<close> and \<^verbatim>\<open>air_quality_policy.cpp\<close>: the raw
  readings in the units of the Matter clusters, and the overall air quality level.
\<close>

section \<open>Levels\<close>

datatype AirQualityLevel =
    kUnknown | kGood | kFair | kModerate | kPoor | kVeryPoor | kExtremelyPoor

text \<open>The \<^verbatim>\<open>uint8_t\<close> a level is cast to.\<close>

primrec level_u8 :: "AirQualityLevel \<Rightarrow> u8" where
  "level_u8 kUnknown = 0"
| "level_u8 kGood = 1"
| "level_u8 kFair = 2"
| "level_u8 kModerate = 3"
| "level_u8 kPoor = 4"
| "level_u8 kVeryPoor = 5"
| "level_u8 kExtremelyPoor = 6"

lemma level_u8_inject [simp]: "level_u8 a = level_u8 b \<longleftrightarrow> a = b"
  by (cases a; cases b) simp_all

instantiation AirQualityLevel :: linorder
begin

definition less_eq_AirQualityLevel where
  "a \<le> b \<longleftrightarrow> level_u8 a \<le> level_u8 b"

definition less_AirQualityLevel where
  "(a :: AirQualityLevel) < b \<longleftrightarrow> level_u8 a < level_u8 b"

instance
  by intro_classes
    (auto simp: less_eq_AirQualityLevel_def less_AirQualityLevel_def less_le)

end

instantiation AirQualityLevel :: order_bot
begin

definition bot_AirQualityLevel where
  "bot = kUnknown"

instance
  by intro_classes (simp add: bot_AirQualityLevel_def less_eq_AirQualityLevel_def)

end

section \<open>Conversions\<close>

definition Co2RawToPpm :: "u16 \<Rightarrow> rat" where
  "Co2RawToPpm raw = fl (of_nat (unat raw))"

definition PmRawToUgm3 :: "u16 \<Rightarrow> rat" where
  "PmRawToUgm3 raw = fl (fl (of_nat (unat raw)) / fl 10)"

text \<open>Division of C++: the quotient is truncated towards zero.\<close>

definition div_trunc :: "int \<Rightarrow> int \<Rightarrow> int" where
  "div_trunc a b = sgn a * sgn b * (\<bar>a\<bar> div \<bar>b\<bar>)"

definition TemperatureRawToMatterCentiDegC :: "i16 \<Rightarrow> i16" where
  "TemperatureRawToMatterCentiDegC raw = word_of_int (div_trunc (sint raw * 100) 200)"

definition HumidityRawToMatterCentiPercent :: "i16 \<Rightarrow> u16" where
  "HumidityRawToMatterCentiPercent raw = word_of_int (sint raw)"

section \<open>Classification\<close>

record ChannelBreakpoints =
  good :: rat
  fair :: rat
  moderate :: rat
  poor :: rat
  veryPoor :: rat

definition kCo2BreakpointsPpm :: ChannelBreakpoints where
  "kCo2BreakpointsPpm =
     \<lparr>good = fl 800, fair = fl 1000, moderate = fl 1500, poor = fl 2500, veryPoor = fl 5000\<rparr>"

definition kPm2p5BreakpointsUgm3 :: ChannelBreakpoints where
  "kPm2p5BreakpointsUgm3 =
     \<lparr>good = fl 9, fair = fl (354 / 10), moderate = fl (554 / 10), poor = fl (1254 / 10),
      veryPoor = fl (2254 / 10)\<rparr>"

definition kPm10BreakpointsUgm3 :: ChannelBreakpoints where
  "kPm10BreakpointsUgm3 =
     \<lparr>good = fl 54, fair = fl 154, moderate = fl 254, poor = fl 354, veryPoor = fl 424\<rparr>"

definition ClassifyChannel :: "rat \<Rightarrow> ChannelBreakpoints \<Rightarrow> AirQualityLevel" where
  "ClassifyChannel v bp =
     (if v \<le> good bp then kGood
      else if v \<le> fair bp then kFair
      else if v \<le> moderate bp then kModerate
      else if v \<le> poor bp then kPoor
      else if v \<le> veryPoor bp then kVeryPoor
      else kExtremelyPoor)"

record PolicyInputs =
  co2Valid :: bool
  co2Raw :: u16
  pm2p5Valid :: bool
  pm2p5Raw :: u16
  pm10Valid :: bool
  pm10Raw :: u16

text \<open>The lambda \<^verbatim>\<open>considerChannel\<close> over its captured \<^verbatim>\<open>worst\<close> and \<^verbatim>\<open>anyValid\<close>.\<close>

definition considerChannel ::
  "rat \<Rightarrow> ChannelBreakpoints \<Rightarrow> AirQualityLevel \<times> bool \<Rightarrow> AirQualityLevel \<times> bool" where
  "considerChannel v bp = (\<lambda>(worst, anyValid).
     let anyValid = True; level = ClassifyChannel v bp
     in (if level_u8 worst < level_u8 level then level else worst, anyValid))"

definition EvaluateAirQuality :: "PolicyInputs \<Rightarrow> AirQualityLevel" where
  "EvaluateAirQuality inputs =
     (let s = (kUnknown, False);
          s = (if co2Valid inputs
               then considerChannel (Co2RawToPpm (co2Raw inputs)) kCo2BreakpointsPpm s else s);
          s = (if pm2p5Valid inputs
               then considerChannel (PmRawToUgm3 (pm2p5Raw inputs)) kPm2p5BreakpointsUgm3 s else s);
          s = (if pm10Valid inputs
               then considerChannel (PmRawToUgm3 (pm10Raw inputs)) kPm10BreakpointsUgm3 s else s);
          (worst, anyValid) = s
      in if anyValid then worst else kUnknown)"

section \<open>Floats at the breakpoints\<close>

lemma unat_u16: "unat (raw :: u16) < 65536"
  using unsigned_less [of raw] by simp

lemma Co2RawToPpm_eq: "Co2RawToPpm raw = of_nat (unat raw)"
  unfolding Co2RawToPpm_def using unat_u16 [of raw] by (intro fl_of_nat) simp

lemma fl_numeral: "numeral k < (2 ^ 24 :: nat) \<Longrightarrow> fl (numeral k) = numeral k"
  using fl_of_nat [of "numeral k"] by simp

lemma PmRawToUgm3_eq: "PmRawToUgm3 raw = fl (of_nat (unat raw) / 10)"
  using fl_of_nat [of "unat raw"] unat_u16 [of raw] by (simp add: PmRawToUgm3_def fl_numeral)

text \<open>Tenths that differ stay apart after rounding: the error of each is at most \<open>2\<^sup>-\<^sup>1\<^sup>2\<close>.\<close>

lemma fl_tenth_error:
  assumes "n < 65536"
  shows "\<bar>fl (of_nat n / 10) - of_nat n / 10\<bar> \<le> 1 / 2 ^ 12"
proof (cases "n = 0")
  case False
  let ?x = "of_nat n / 10 :: rat"
  have pos: "0 < ?x" using False by simp
  have "two_pow (exponent ?x) \<le> ?x" using exponent_bounds [OF pos] by blast
  also have "?x < of_nat (2 ^ 13)" using assms by simp
  also have "\<dots> = two_pow 13" by (simp add: two_pow_def)
  finally have "exponent ?x < 13" unfolding two_pow_less_iff .
  then have "ulp ?x \<le> two_pow (- 11)" unfolding ulp_def by (intro two_pow_mono) simp
  also have "\<dots> = 1 / 2048" by (simp add: two_pow_def)
  finally show ?thesis using fl_error [OF pos] by simp
qed simp

lemma fl_tenth_strict_mono:
  assumes "a < b" "b < 65536"
  shows "fl (of_nat a / 10) < fl (of_nat b / 10)"
proof -
  have "(of_nat a + 1 :: rat) \<le> of_nat b" using assms(1) by (simp flip: of_nat_Suc)
  moreover have "\<bar>fl (of_nat a / 10) - of_nat a / 10\<bar> \<le> 1 / 2 ^ 12" "\<bar>fl (of_nat b / 10) - of_nat b / 10\<bar> \<le> 1 / 2 ^ 12"
    by (rule fl_tenth_error, use assms in linarith)+
  ultimately show ?thesis unfolding abs_le_iff by simp
qed

lemma fl_tenth_le_iff:
  "a < 65536 \<Longrightarrow> b < 65536 \<Longrightarrow> fl (of_nat a / 10) \<le> fl (of_nat b / 10) \<longleftrightarrow> a \<le> b"
  using fl_tenth_strict_mono [of a b] fl_tenth_strict_mono [of b a] by (cases a b rule: linorder_cases) auto

section \<open>The contract of a classified channel\<close>

text \<open>
  A channel whose float values, at the raw readings \<open>lims\<close>, are the float breakpoints, and
  whose conversion keeps the strict order of raw readings.  Its classification is then one of
  integers.
\<close>

definition level_of :: "nat list \<Rightarrow> nat \<Rightarrow> AirQualityLevel" where
  "level_of lims raw =
     [kGood, kFair, kModerate, kPoor, kVeryPoor, kExtremelyPoor] !
       length (filter (\<lambda>l. l < raw) lims)"

locale classified_channel =
  fixes convert :: "u16 \<Rightarrow> rat" and bp :: ChannelBreakpoints and lims :: "nat list"
  assumes convert_le_iff: "l \<in> set lims \<Longrightarrow> convert raw \<le> convert (of_nat l) \<longleftrightarrow> unat raw \<le> l"
    and breakpoints: "map (convert \<circ> of_nat) lims = [good bp, fair bp, moderate bp, poor bp, veryPoor bp]"
    and ascending: "sorted lims"
begin

lemma five: "\<exists>a b c d e. lims = [a, b, c, d, e]"
  using arg_cong [OF breakpoints, of length] by (auto simp: length_Suc_conv)

lemma ClassifyChannel_level: "ClassifyChannel (convert raw) bp = level_of lims (unat raw)"
proof -
  obtain a b c d e where l: "lims = [a, b, c, d, e]" using five by blast
  have "good bp = convert (of_nat a)" "fair bp = convert (of_nat b)" "moderate bp = convert (of_nat c)"
    "poor bp = convert (of_nat d)" "veryPoor bp = convert (of_nat e)"
    using breakpoints by (simp_all add: l)
  moreover have "a \<le> b" "b \<le> c" "c \<le> d" "d \<le> e" using ascending by (simp_all add: l)
  ultimately show ?thesis
    using convert_le_iff [of a raw] convert_le_iff [of b raw] convert_le_iff [of c raw]
      convert_le_iff [of d raw] convert_le_iff [of e raw]
    by (simp add: ClassifyChannel_def level_of_def l not_le)
qed

end

lemma unat_of_nat_u16: "l < 65536 \<Longrightarrow> unat (of_nat l :: u16) = l"
  by (simp add: unat_of_nat take_bit_nat_eq_self)

lemma Co2RawToPpm_of_nat: "l < 65536 \<Longrightarrow> Co2RawToPpm (of_nat l) = of_nat l"
  by (simp only: Co2RawToPpm_eq unat_of_nat_u16)

lemma PmRawToUgm3_of_nat: "l < 65536 \<Longrightarrow> PmRawToUgm3 (of_nat l) = fl (of_nat l / 10)"
  by (simp only: PmRawToUgm3_eq unat_of_nat_u16)

lemma Co2RawToPpm_le_iff: "l < 65536 \<Longrightarrow> Co2RawToPpm raw \<le> Co2RawToPpm (of_nat l) \<longleftrightarrow> unat raw \<le> l"
  by (simp only: Co2RawToPpm_eq unat_of_nat_u16 of_nat_le_iff)

lemma PmRawToUgm3_le_iff: "l < 65536 \<Longrightarrow> PmRawToUgm3 raw \<le> PmRawToUgm3 (of_nat l) \<longleftrightarrow> unat raw \<le> l"
  by (simp only: PmRawToUgm3_eq unat_of_nat_u16 fl_tenth_le_iff unat_u16)

definition co2_limits :: "nat list" where "co2_limits = [800, 1000, 1500, 2500, 5000]"
definition pm2p5_limits :: "nat list" where "pm2p5_limits = [90, 354, 554, 1254, 2254]"
definition pm10_limits :: "nat list" where "pm10_limits = [540, 1540, 2540, 3540, 4240]"

lemmas limits_defs = co2_limits_def pm2p5_limits_def pm10_limits_def

lemma limits_small: "l \<in> set (co2_limits @ pm2p5_limits @ pm10_limits) \<Longrightarrow> l < 65536"
  by (auto simp: limits_defs)

interpretation co2: classified_channel Co2RawToPpm kCo2BreakpointsPpm co2_limits
proof
  show "Co2RawToPpm raw \<le> Co2RawToPpm (of_nat l) \<longleftrightarrow> unat raw \<le> l" if "l \<in> set co2_limits" for l raw
    using that limits_small by (intro Co2RawToPpm_le_iff) simp
qed (simp_all add: limits_defs kCo2BreakpointsPpm_def Co2RawToPpm_of_nat [where l = "numeral _", simplified]
  fl_numeral)

interpretation pm2p5: classified_channel PmRawToUgm3 kPm2p5BreakpointsUgm3 pm2p5_limits
proof
  show "PmRawToUgm3 raw \<le> PmRawToUgm3 (of_nat l) \<longleftrightarrow> unat raw \<le> l" if "l \<in> set pm2p5_limits" for l raw
    using that limits_small by (intro PmRawToUgm3_le_iff) simp
qed (simp_all add: limits_defs kPm2p5BreakpointsUgm3_def PmRawToUgm3_of_nat [where l = "numeral _", simplified])

interpretation pm10: classified_channel PmRawToUgm3 kPm10BreakpointsUgm3 pm10_limits
proof
  show "PmRawToUgm3 raw \<le> PmRawToUgm3 (of_nat l) \<longleftrightarrow> unat raw \<le> l" if "l \<in> set pm10_limits" for l raw
    using that limits_small by (intro PmRawToUgm3_le_iff) simp
qed (simp_all add: limits_defs kPm10BreakpointsUgm3_def PmRawToUgm3_of_nat [where l = "numeral _", simplified])

lemmas classification = co2.ClassifyChannel_level pm2p5.ClassifyChannel_level pm10.ClassifyChannel_level

section \<open>The overall level\<close>

text \<open>The levels of the channels that are valid, by integer comparison of the raw readings.\<close>

definition channel_levels :: "PolicyInputs \<Rightarrow> AirQualityLevel list" where
  "channel_levels i =
     (if co2Valid i then [level_of co2_limits (unat (co2Raw i))] else []) @
     (if pm2p5Valid i then [level_of pm2p5_limits (unat (pm2p5Raw i))] else []) @
     (if pm10Valid i then [level_of pm10_limits (unat (pm10Raw i))] else [])"

lemma considerChannel_max:
  "considerChannel v bp (worst, b) = (max worst (ClassifyChannel v bp), True)"
  by (auto simp: considerChannel_def Let_def max_def less_eq_AirQualityLevel_def not_le
    dest: order.strict_implies_not_eq intro: order.strict_implies_order)

text \<open>The number of a level, for a list of five limits, is one more than the limits exceeded.\<close>

definition exceeded :: "nat list \<Rightarrow> nat \<Rightarrow> nat" where
  "exceeded lims raw = length (filter (\<lambda>l. l < raw) lims)"

lemma nth_level: "n < 6 \<Longrightarrow>
  unat (level_u8 ([kGood, kFair, kModerate, kPoor, kVeryPoor, kExtremelyPoor] ! n)) = Suc n"
proof -
  assume "n < 6"
  then have "n \<in> {0, 1, 2, 3, 4, 5}" by (auto simp: less_Suc_eq numeral_eq_Suc)
  then show ?thesis by auto
qed

lemma unat_level_of:
  assumes "length lims = 5"
  shows "unat (level_u8 (level_of lims raw)) = Suc (exceeded lims raw)"
proof -
  have "exceeded lims raw < 6"
    using assms length_filter_le [of "\<lambda>l. l < raw" lims] by (simp add: exceeded_def)
  then show ?thesis unfolding level_of_def exceeded_def by (rule nth_level)
qed

lemma level_of_known: "length lims = 5 \<Longrightarrow> kUnknown < level_of lims raw"
  by (simp add: less_AirQualityLevel_def word_less_nat_alt unat_level_of)

lemma level_of_mono: "a \<le> b \<Longrightarrow> length lims = 5 \<Longrightarrow> level_of lims a \<le> level_of lims b"
proof -
  assume ab: "a \<le> b" and five: "length lims = 5"
  have "exceeded lims a \<le> exceeded lims b"
    unfolding exceeded_def length_filter_conv_card using ab by (intro card_mono) auto
  then show ?thesis by (simp add: less_eq_AirQualityLevel_def word_le_nat_alt unat_level_of five)
qed

lemma EvaluateAirQuality_max: "EvaluateAirQuality i = fold max (channel_levels i) kUnknown"
  by (simp add: EvaluateAirQuality_def Let_def considerChannel_max classification channel_levels_def
    max.commute)

lemma channel_levels_known: "l \<in> set (channel_levels i) \<Longrightarrow> kUnknown < l"
  by (auto simp: channel_levels_def limits_defs level_of_known split: if_splits)

lemma sint_u16: "- 32768 \<le> sint (raw :: 16 word) \<and> sint raw \<le> 32767"
  using sint_range_size [of raw] by (simp add: word_size)

lemma half_range: "- 32768 \<le> i \<Longrightarrow> i \<le> 32767 \<Longrightarrow> sint (word_of_int i :: 16 word) = i"
  by (simp add: signed_of_int signed_take_bit_int_eq_self)

lemma div_trunc_half: "div_trunc (a * 100) 200 = div_trunc a 2"
proof -
  have "(\<bar>a\<bar> * 100) div (2 * 100) = \<bar>a\<bar> div 2" by (rule div_mult_mult2) simp
  then show ?thesis by (simp add: div_trunc_def sgn_mult abs_mult)
qed

lemma div_trunc_2_bounds: "\<bar>2 * div_trunc a 2 - a\<bar> \<le> 1 \<and> \<bar>2 * div_trunc a 2\<bar> \<le> \<bar>a\<bar>"
  by (cases "0 \<le> a") (auto simp: div_trunc_def sgn_if)

lemma sint_Temperature: "sint (TemperatureRawToMatterCentiDegC raw) = div_trunc (sint raw) 2"
  unfolding TemperatureRawToMatterCentiDegC_def div_trunc_half
  using div_trunc_2_bounds [of "sint raw"] sint_u16 [of raw] by (intro half_range) linarith+

section \<open>Properties\<close>

text \<open>
  C25. The overall air quality is the worst level among the valid channels, each level being
  the number of integer limits its raw reading exceeds, and unknown exactly when no channel
  is valid.  The limits are the documented breakpoints in the sensor's units: the division
  by ten and the comparisons in single precision never shift a reading across one, 35.4 and
  the other breakpoints that are not floats included.
\<close>

theorem EvaluateAirQuality_is_worst_channel:
  "EvaluateAirQuality i = Max (insert kUnknown (set (channel_levels i))) \<and>
   (EvaluateAirQuality i = kUnknown \<longleftrightarrow> \<not> (co2Valid i \<or> pm2p5Valid i \<or> pm10Valid i))"
proof -
  have max: "EvaluateAirQuality i = Max (insert kUnknown (set (channel_levels i)))"
    unfolding EvaluateAirQuality_max using Max.set_eq_fold [of kUnknown "channel_levels i"] by simp
  have "EvaluateAirQuality i = kUnknown \<longleftrightarrow> channel_levels i = []"
  proof
    assume "EvaluateAirQuality i = kUnknown"
    then have "l \<le> kUnknown" if "l \<in> set (channel_levels i)" for l
      using that Max_ge [of "insert kUnknown (set (channel_levels i))" l] unfolding max by simp
    then have "l \<notin> set (channel_levels i)" for l
      using channel_levels_known [of l i] by (meson leD)
    then show "channel_levels i = []" by (metis last_in_set)
  qed (simp add: max)
  with max show ?thesis by (simp add: channel_levels_def)
qed

text \<open>
  A channel that is not valid has no influence: its raw reading can be anything.
\<close>

theorem EvaluateAirQuality_ignores_invalid_channels:
  assumes "co2Valid i = co2Valid j" "co2Valid i \<longrightarrow> co2Raw i = co2Raw j"
    and "pm2p5Valid i = pm2p5Valid j" "pm2p5Valid i \<longrightarrow> pm2p5Raw i = pm2p5Raw j"
    and "pm10Valid i = pm10Valid j" "pm10Valid i \<longrightarrow> pm10Raw i = pm10Raw j"
  shows "EvaluateAirQuality i = EvaluateAirQuality j"
proof -
  have "channel_levels i = channel_levels j" using assms by (auto simp: channel_levels_def)
  then show ?thesis by (simp add: EvaluateAirQuality_max)
qed

definition some_inputs :: PolicyInputs where
  "some_inputs =
     \<lparr>co2Valid = True, co2Raw = 900, pm2p5Valid = False, pm2p5Raw = 0xFFFF, pm10Valid = True, pm10Raw = 200\<rparr>"

theorem EvaluateAirQuality_ignores_invalid_channels_witness:
  "EvaluateAirQuality some_inputs = EvaluateAirQuality (some_inputs\<lparr>pm2p5Raw := 3\<rparr>)"
  by (rule EvaluateAirQuality_ignores_invalid_channels) (simp_all add: some_inputs_def)

text \<open>
  The level never improves when a reading of a channel rises, or when an invalid channel
  becomes valid.
\<close>

theorem EvaluateAirQuality_mono:
  assumes "co2Valid i \<longrightarrow> co2Valid j \<and> co2Raw i \<le> co2Raw j"
    and "pm2p5Valid i \<longrightarrow> pm2p5Valid j \<and> pm2p5Raw i \<le> pm2p5Raw j"
    and "pm10Valid i \<longrightarrow> pm10Valid j \<and> pm10Raw i \<le> pm10Raw j"
  shows "EvaluateAirQuality i \<le> EvaluateAirQuality j"
proof -
  have lev: "level_of lims (unat r) \<le> level_of lims (unat s)"
    if "r \<le> s" "lims \<in> {co2_limits, pm2p5_limits, pm10_limits}" for r s :: u16 and lims
    using that by (intro level_of_mono) (auto simp: word_le_nat_alt limits_defs)
  have le: "\<exists>m \<in> set (channel_levels j). l \<le> m" if "l \<in> set (channel_levels i)" for l
    using that assms lev by (auto simp: channel_levels_def split: if_splits)
  have max: "EvaluateAirQuality k = Max (insert kUnknown (set (channel_levels k)))" for k
    unfolding EvaluateAirQuality_max using Max.set_eq_fold [of kUnknown "channel_levels k"] by simp
  show ?thesis
    unfolding max by (rule Max.boundedI) (use le in \<open>auto simp: Max_ge_iff\<close>)
qed

theorem EvaluateAirQuality_mono_witness:
  "EvaluateAirQuality some_inputs \<le>
   EvaluateAirQuality (some_inputs\<lparr>co2Raw := 1001, pm2p5Valid := True, pm2p5Raw := 90\<rparr>)"
  by (rule EvaluateAirQuality_mono) (simp_all add: some_inputs_def)

text \<open>
  C33. The published particulate concentration is the sensor's tenth of a microgram to within
  \<open>2\<^sup>-\<^sup>1\<^sup>2\<close>, and the raw reading can be read off it exactly: different readings stay different
  and in order after rounding to single precision.
\<close>

theorem PmRawToUgm3_accuracy:
  "\<bar>PmRawToUgm3 raw - of_nat (unat raw) / 10\<bar> \<le> 1 / 2 ^ 12 \<and>
   round (10 * PmRawToUgm3 raw) = int (unat raw) \<and>
   (PmRawToUgm3 raw < PmRawToUgm3 raw' \<longleftrightarrow> raw < raw')"
proof -
  have err: "\<bar>PmRawToUgm3 raw - of_nat (unat raw) / 10\<bar> \<le> 1 / 2 ^ 12"
    unfolding PmRawToUgm3_eq using unat_u16 by (rule fl_tenth_error)
  then have err': "PmRawToUgm3 raw - of_nat (unat raw) / 10 \<le> 1 / 4096"
    "of_nat (unat raw) / 10 - PmRawToUgm3 raw \<le> 1 / 4096"
    unfolding abs_le_iff by simp_all
  have "round (10 * PmRawToUgm3 raw) = int (unat raw)"
  proof (rule round_unique)
    show "10 * PmRawToUgm3 raw - 1 / 2 < of_int (int (unat raw))"
      using err' by simp
    show "of_int (int (unat raw)) \<le> 10 * PmRawToUgm3 raw + 1 / 2"
      using err' by simp
  qed
  moreover have "PmRawToUgm3 raw < PmRawToUgm3 raw' \<longleftrightarrow> raw < raw'"
    unfolding PmRawToUgm3_eq word_less_nat_alt not_le [symmetric]
    by (simp only: fl_tenth_le_iff unat_u16)
  ultimately show ?thesis using err by blast
qed

text \<open>
  The published temperature is half the raw reading, truncated towards zero: off by less
  than a hundredth of a degree, within -163.84 to 163.83 degrees, and never the 0x8000 that
  Matter reads as null.
\<close>

theorem Temperature_conversion:
  "\<bar>2 * sint (TemperatureRawToMatterCentiDegC raw) - sint raw\<bar> \<le> 1 \<and>
   \<bar>2 * sint (TemperatureRawToMatterCentiDegC raw)\<bar> \<le> \<bar>sint raw\<bar> \<and>
   sint (TemperatureRawToMatterCentiDegC raw) \<in> {- 16384..16383} \<and>
   TemperatureRawToMatterCentiDegC raw \<noteq> 0x8000"
proof -
  have b: "\<bar>2 * sint (TemperatureRawToMatterCentiDegC raw) - sint raw\<bar> \<le> 1"
    "\<bar>2 * sint (TemperatureRawToMatterCentiDegC raw)\<bar> \<le> \<bar>sint raw\<bar>"
    using div_trunc_2_bounds [of "sint raw"] by (simp_all add: sint_Temperature)
  then have r: "sint (TemperatureRawToMatterCentiDegC raw) \<in> {- 16384..16383}"
    using sint_u16 [of raw] by (simp only: atLeastAtMost_iff) linarith
  have "sint (0x8000 :: 16 word) = - 32768" by simp
  with b r show ?thesis by auto
qed

text \<open>
  C34. A humidity reading of 0 to 100 percent is published as it is; a negative one wraps into
  the upper half of the range, far above 100 percent, and -0.01 percent becomes the 0xFFFF
  that Matter reads as null.
\<close>

theorem Humidity_conversion:
  "uint (HumidityRawToMatterCentiPercent raw) = (if 0 \<le> sint raw then sint raw else sint raw + 65536) \<and>
   (uint (HumidityRawToMatterCentiPercent raw) \<le> 10000 \<longleftrightarrow> sint raw \<in> {0..10000}) \<and>
   (HumidityRawToMatterCentiPercent raw = 0xFFFF \<longleftrightarrow> sint raw = - 1)"
proof -
  let ?h = "HumidityRawToMatterCentiPercent raw"
  have h: "?h = raw" by (simp add: HumidityRawToMatterCentiPercent_def)
  have "LENGTH(16) = 16" by simp
  then have "uint raw = sint raw mod 2 ^ 16"
    using uint_sint [of raw] by (simp only: take_bit_eq_mod)
  moreover have "sint raw mod 2 ^ 16 = (if 0 \<le> sint raw then sint raw else sint raw + 65536)"
  proof (cases "0 \<le> sint raw")
    case True
    with sint_u16 [of raw] show ?thesis by (simp add: mod_pos_pos_trivial)
  next
    case False
    have "sint raw mod 65536 = (sint raw + 65536) mod 65536" by (rule mod_add_self2 [symmetric])
    also have "\<dots> = sint raw + 65536" using False sint_u16 [of raw] by (intro mod_pos_pos_trivial) linarith+
    finally show ?thesis using False by simp
  qed
  ultimately have u: "uint ?h = (if 0 \<le> sint raw then sint raw else sint raw + 65536)"
    by (simp only: h)
  have "sint raw = sint (0xFFFF :: 16 word) \<longleftrightarrow> raw = 0xFFFF" by (rule word_eq_iff_signed [symmetric])
  moreover have "sint (0xFFFF :: 16 word) = - 1" by simp
  ultimately have "?h = 0xFFFF \<longleftrightarrow> sint raw = - 1" by (simp only: h)
  moreover have "uint ?h \<le> 10000 \<longleftrightarrow> sint raw \<in> {0..10000}"
    unfolding u using sint_u16 [of raw] by (cases "0 \<le> sint raw") auto
  ultimately show ?thesis using u by blast
qed

end
