(* ===== verification/Matter_Adapter.thy ===== *)
theory Matter_Adapter
  imports Measurement_Service Air_Quality_Policy
begin

text \<open>
  \<^verbatim>\<open>src/air_quality_endpoint/air_quality_matter_adapter.cpp\<close>: the function that republishes
  the snapshot as Matter attributes on the CHIP thread, the update callback that schedules it
  from the poll thread, and the registration of the clusters.  The attribute accessors and
  cluster objects belong to the Matter SDK: their calls are events, their error codes are
  answers of the environment.
\<close>

unbundle bit_operations_syntax

section \<open>The code\<close>

definition kEndpointId :: nat where "kEndpointId = 1"
definition kTemperatureEndpointId :: nat where "kTemperatureEndpointId = 2"

abbreviation write_attribute :: "attribute_write \<Rightarrow> unit io" where
  "write_attribute x \<equiv> Do (WriteAttribute x) (Ret ())"

definition ApplyLatestMeasurement :: "unit io" where
  "ApplyLatestMeasurement =
     io_bind Service_GetLatest (\<lambda>(ok, snapshot).
     if \<not> ok then Ret () else
     let m = measurement snapshot in
     io_bind
       (if valid m AND field_mask kFieldTemperature \<noteq> 0
        then
          (let centiDegC = TemperatureRawToMatterCentiDegC (temperature m) in
           Do (WriteAttribute (TemperatureSet kEndpointId centiDegC)) (
           write_attribute (TemperatureSet kTemperatureEndpointId centiDegC)))
        else
          Do (WriteAttribute (TemperatureSetNull kEndpointId)) (
          write_attribute (TemperatureSetNull kTemperatureEndpointId))) (\<lambda>_.
     io_bind
       (if valid m AND field_mask kFieldHumidity \<noteq> 0
        then write_attribute
               (HumiditySet kEndpointId (HumidityRawToMatterCentiPercent (humidity m)))
        else write_attribute (HumiditySetNull kEndpointId)) (\<lambda>_.
     Do (WriteAttribute (SetMeasuredValue sCo2Instance
           (if valid m AND field_mask kFieldCo2 \<noteq> 0 then Some (Co2RawToPpm (co2 m)) else None))) (
     Do (WriteAttribute (SetMeasuredValue sPm1Instance
           (if valid m AND field_mask kFieldPm1p0 \<noteq> 0 then Some (PmRawToUgm3 (pm1p0 m)) else None))) (
     Do (WriteAttribute (SetMeasuredValue sPm25Instance
           (if valid m AND field_mask kFieldPm2p5 \<noteq> 0 then Some (PmRawToUgm3 (pm2p5 m)) else None))) (
     Do (WriteAttribute (SetMeasuredValue sPm10Instance
           (if valid m AND field_mask kFieldPm10 \<noteq> 0 then Some (PmRawToUgm3 (pm10 m)) else None))) (
     let inputs =
           \<lparr>co2Valid = (valid m AND field_mask kFieldCo2 \<noteq> 0), co2Raw = co2 m,
            pm2p5Valid = (valid m AND field_mask kFieldPm2p5 \<noteq> 0), pm2p5Raw = pm2p5 m,
            pm10Valid = (valid m AND field_mask kFieldPm10 \<noteq> 0), pm10Raw = pm10 m\<rparr>;
         level = EvaluateAirQuality inputs
     in write_attribute (UpdateAirQuality (level_u8 level)))))))))"

definition OnMeasurementUpdated :: "Measurement \<Rightarrow> u16 \<Rightarrow> unit io" where
  "OnMeasurementUpdated snapshot changed = Do ScheduleWork (Ret ())"

text \<open>The function behind a callback pointer.\<close>

primrec callback_code :: "UpdateCallback \<Rightarrow> Measurement \<Rightarrow> u16 \<Rightarrow> unit io" where
  "callback_code OnMeasurementUpdated_fn = OnMeasurementUpdated"

definition CHIP_NO_ERROR :: int where "CHIP_NO_ERROR = 0"

definition ClusterInit :: "bool io" where
  "ClusterInit =
     Ask (IdentifyInit kEndpointId) (\<lambda>err. if err \<noteq> CHIP_NO_ERROR then Ret False else
     Ask (IdentifyInit kTemperatureEndpointId) (\<lambda>err. if err \<noteq> CHIP_NO_ERROR then Ret False else
     Ask AirQualityInit (\<lambda>err. if err \<noteq> CHIP_NO_ERROR then Ret False else
     Ask (ConcentrationInit sCo2Instance) (\<lambda>err. if err \<noteq> CHIP_NO_ERROR then Ret False else
     Ask (ConcentrationInit sPm1Instance) (\<lambda>err. if err \<noteq> CHIP_NO_ERROR then Ret False else
     Ask (ConcentrationInit sPm25Instance) (\<lambda>err. if err \<noteq> CHIP_NO_ERROR then Ret False else
     Ask (ConcentrationInit sPm10Instance) (\<lambda>err. if err \<noteq> CHIP_NO_ERROR then Ret False else
     io_bind (RegisterUpdateCallback (Some OnMeasurementUpdated_fn)) (\<lambda>_.
     io_bind ApplyLatestMeasurement (\<lambda>_. Ret True)))))))))"

section \<open>The update callback keeps the service's contract\<close>

interpretation poll: update_listener callback_code "\<lambda>f. [Did ScheduleWork]"
proof
  show "run E (callback_code f m msk) w = (Some (), w\<lparr>history := history w @ [Did ScheduleWork]\<rparr>)"
    for E f m msk w
    by (cases f) (simp add: OnMeasurementUpdated_def perform_def log_event_def)
  show "well_locked (callback_code f m msk) None False" for f m msk
    by (cases f) (simp add: OnMeasurementUpdated_def)
qed simp

section \<open>What the attributes show\<close>

datatype attribute =
    TemperatureMeasuredValue nat
  | HumidityMeasuredValue nat
  | ConcentrationMeasuredValue concentration
  | AirQualityValue

datatype attribute_value = Null | Int16 i16 | Uint16 u16 | Single rat | Enum8 u8

primrec written :: "attribute_write \<Rightarrow> attribute \<times> attribute_value" where
  "written (TemperatureSet e x) = (TemperatureMeasuredValue e, Int16 x)"
| "written (TemperatureSetNull e) = (TemperatureMeasuredValue e, Null)"
| "written (HumiditySet e x) = (HumidityMeasuredValue e, Uint16 x)"
| "written (HumiditySetNull e) = (HumidityMeasuredValue e, Null)"
| "written (SetMeasuredValue c x) =
     (ConcentrationMeasuredValue c, case x of None \<Rightarrow> Null | Some v \<Rightarrow> Single v)"
| "written (UpdateAirQuality l) = (AirQualityValue, Enum8 l)"

text \<open>
  The last value handed to the accessor of each attribute in a run of events.  The code does not
  look at the status an accessor returns; the theory \<open>Data_Model\<close> shows that the data model
  declares every attribute written, with the type of the value.
\<close>

fun show_event :: "event \<Rightarrow> (attribute \<rightharpoonup> attribute_value) \<Rightarrow> (attribute \<rightharpoonup> attribute_value)" where
  "show_event (Did (WriteAttribute x)) s = s(fst (written x) \<mapsto> snd (written x))"
| "show_event _ s = s"

definition shown :: "event list \<Rightarrow> attribute \<rightharpoonup> attribute_value" where
  "shown es = fold show_event es Map.empty"

lemma shown_append: "shown (es @ fs) = fold show_event fs (shown es)"
  by (simp add: shown_def)

text \<open>What a measurement looks like on the Matter side.\<close>

definition inputs_of :: "Measurement \<Rightarrow> PolicyInputs" where
  "inputs_of m =
     \<lparr>co2Valid = is_valid m kFieldCo2, co2Raw = co2 m,
      pm2p5Valid = is_valid m kFieldPm2p5, pm2p5Raw = pm2p5 m,
      pm10Valid = is_valid m kFieldPm10, pm10Raw = pm10 m\<rparr>"

definition published :: "Measurement \<Rightarrow> attribute \<rightharpoonup> attribute_value" where
  "published m =
     (let temp = if is_valid m kFieldTemperature
                 then Int16 (TemperatureRawToMatterCentiDegC (temperature m)) else Null;
          pm = (\<lambda>f raw. if is_valid m f then Single (PmRawToUgm3 raw) else Null)
      in [TemperatureMeasuredValue 1 \<mapsto> temp,
          TemperatureMeasuredValue 2 \<mapsto> temp,
          HumidityMeasuredValue 1 \<mapsto>
            (if is_valid m kFieldHumidity
             then Uint16 (HumidityRawToMatterCentiPercent (humidity m)) else Null),
          ConcentrationMeasuredValue sCo2Instance \<mapsto>
            (if is_valid m kFieldCo2 then Single (Co2RawToPpm (co2 m)) else Null),
          ConcentrationMeasuredValue sPm1Instance \<mapsto> pm kFieldPm1p0 (pm1p0 m),
          ConcentrationMeasuredValue sPm25Instance \<mapsto> pm kFieldPm2p5 (pm2p5 m),
          ConcentrationMeasuredValue sPm10Instance \<mapsto> pm kFieldPm10 (pm10 m),
          AirQualityValue \<mapsto> Enum8 (level_u8 (EvaluateAirQuality (inputs_of m)))])"

text \<open>Fetching the snapshot, which all its readers start with.\<close>

definition fetched :: "world \<Rightarrow> event list" where
  "fetched w =
     [Did (Lock sSnapshotMutex), SawSnapshot (snap w), SawSnapshot (snap w), SawSnapshot (snap w),
      Did (Unlock sSnapshotMutex)]"

text \<open>The attribute writes of one publication, in the order of the code.\<close>

definition attribute_writes :: "Measurement \<Rightarrow> attribute_write list" where
  "attribute_writes m =
     (if is_valid m kFieldTemperature
      then map (\<lambda>e. TemperatureSet e (TemperatureRawToMatterCentiDegC (temperature m))) [1, 2]
      else map TemperatureSetNull [1, 2]) @
     [if is_valid m kFieldHumidity then HumiditySet 1 (HumidityRawToMatterCentiPercent (humidity m))
      else HumiditySetNull 1,
      SetMeasuredValue sCo2Instance (if is_valid m kFieldCo2 then Some (Co2RawToPpm (co2 m)) else None),
      SetMeasuredValue sPm1Instance (if is_valid m kFieldPm1p0 then Some (PmRawToUgm3 (pm1p0 m)) else None),
      SetMeasuredValue sPm25Instance (if is_valid m kFieldPm2p5 then Some (PmRawToUgm3 (pm2p5 m)) else None),
      SetMeasuredValue sPm10Instance (if is_valid m kFieldPm10 then Some (PmRawToUgm3 (pm10 m)) else None),
      UpdateAirQuality (level_u8 (EvaluateAirQuality (inputs_of m)))]"

lemma run_ApplyLatestMeasurement:
  "run E ApplyLatestMeasurement w =
     (Some (), w\<lparr>history := history w @ fetched w @
        (if everValid (snap w)
         then map (Did \<circ> WriteAttribute) (attribute_writes (measurement (snap w))) else [])\<rparr>)"
proof (cases "everValid (snap w)")
  case False
  then show ?thesis
    by (simp add: ApplyLatestMeasurement_def run_bind run_Service_GetLatest fetched_def)
next
  case True
  note valid = is_valid_def [symmetric]
  show ?thesis
    using True unfolding ApplyLatestMeasurement_def valid
    by (cases "is_valid (measurement (snap w)) kFieldTemperature";
        cases "is_valid (measurement (snap w)) kFieldHumidity")
      (simp_all add: run_bind run_Service_GetLatest fetched_def Let_def perform_def log_event_def
        attribute_writes_def inputs_of_def kEndpointId_def kTemperatureEndpointId_def)
qed

lemma shown_fetched [simp]: "shown (es @ fetched w) = shown es"
  by (simp add: shown_append fetched_def)

lemma shown_attribute_writes:
  "shown (es @ map (Did \<circ> WriteAttribute) (attribute_writes m)) = shown es ++ published m"
  by (simp add: shown_append attribute_writes_def published_def Let_def)

lemma dom_published: "dom (published m) = dom (published k)"
  by (simp add: published_def Let_def)

lemma published_again [simp]: "published m ++ published k = published k"
proof
  fix x
  have "x \<in> dom (published m) \<longleftrightarrow> x \<in> dom (published k)" by (simp add: dom_published [of m k])
  then show "(published m ++ published k) x = published k x"
    by (cases "published k x") (auto simp: map_add_def)
qed

lemma shown_ApplyLatestMeasurement:
  "shown (history (snd (run E ApplyLatestMeasurement w))) =
     (if everValid (snap w) then shown (history w) ++ published (measurement (snap w))
      else shown (history w))"
  using shown_attribute_writes [of "history w @ fetched w"]
  by (simp add: run_ApplyLatestMeasurement)

lemma well_locked_ApplyLatestMeasurement [discipline]: "well_locked ApplyLatestMeasurement None False"
proof -
  note valid = is_valid_def [symmetric]
  show ?thesis
    unfolding ApplyLatestMeasurement_def valid
    by (intro well_locked_bind [OF well_locked_Service_GetLatest])
      (auto simp: Let_def intro!: well_locked_bind)
qed

text \<open>
  The initialisations: what \<^verbatim>\<open>ClusterInit\<close> asks of the Matter stack when nothing fails.
\<close>

fun queries :: "event list \<Rightarrow> query list" where
  "queries [] = []"
| "queries (Asked q r # es) = q # queries es"
| "queries (e # es) = queries es"

definition obliging_stack :: env where
  "obliging_stack = \<lparr>answer = (\<lambda>h q. CHIP_NO_ERROR), bus_data = (\<lambda>h n. (0, \<lambda>i. 0)), clock = (\<lambda>h. 0)\<rparr>"

definition cluster_inits :: "query list" where
  "cluster_inits = queries (history (snd (run obliging_stack ClusterInit world_init)))"

lemma cluster_inits_eq:
  "cluster_inits =
     [IdentifyInit 1, IdentifyInit 2, AirQualityInit, ConcentrationInit sCo2Instance,
      ConcentrationInit sPm1Instance, ConcentrationInit sPm25Instance, ConcentrationInit sPm10Instance]"
  by (simp add: cluster_inits_def ClusterInit_def obliging_stack_def RegisterUpdateCallback_def run_bind
      run_ApplyLatestMeasurement world_init_def Snapshot_init_def fetched_def kEndpointId_def
      kTemperatureEndpointId_def)

text \<open>Asking one query after another until one of them fails.\<close>

primrec ask_all :: "query list \<Rightarrow> bool io" where
  "ask_all [] = Ret True"
| "ask_all (q # qs) = Ask q (\<lambda>err. if err \<noteq> 0 then Ret False else ask_all qs)"

lemma ClusterInit_ask_all:
  "ClusterInit =
     io_bind (ask_all cluster_inits) (\<lambda>ok. if \<not> ok then Ret False else
     Do (SetCallback (Some OnMeasurementUpdated_fn)) (io_bind ApplyLatestMeasurement (\<lambda>_. Ret True)))"
  by (simp add: ClusterInit_def cluster_inits_eq CHIP_NO_ERROR_def RegisterUpdateCallback_def
      kEndpointId_def kTemperatureEndpointId_def if_distrib [of "\<lambda>p. io_bind p _"] cong: if_cong)

lemma run_ask_all:
  "\<exists>rs. run E (ask_all qs) w =
     (Some (length rs = length qs \<and> list_all (\<lambda>r. r = 0) rs),
      w\<lparr>history := history w @ map2 Asked qs rs\<rparr>) \<and>
    length rs \<le> length qs \<and> list_all (\<lambda>r. r = 0) (butlast rs) \<and>
    (length rs = length qs \<or> (rs \<noteq> [] \<and> last rs \<noteq> 0))"
proof (induction qs arbitrary: w)
  case Nil
  then show ?case by simp
next
  case (Cons q qs)
  let ?r = "answer E (history w) q"
  show ?case
  proof (cases "?r = 0")
    case True
    obtain rs where rs: "run E (ask_all qs) (log_event (Asked q 0) w) =
        (Some (length rs = length qs \<and> list_all (\<lambda>r. r = 0) rs),
         (log_event (Asked q 0) w)\<lparr>history := history (log_event (Asked q 0) w) @ map2 Asked qs rs\<rparr>)"
      "length rs \<le> length qs" "list_all (\<lambda>r. r = 0) (butlast rs)"
      "length rs = length qs \<or> (rs \<noteq> [] \<and> last rs \<noteq> 0)"
      using Cons.IH [of "log_event (Asked q 0) w"] by blast
    with True show ?thesis
      by (intro exI [of _ "0 # rs"]) (auto simp: log_event_def)
  next
    case False
    then show ?thesis
      by (intro exI [of _ "[?r]"]) (simp add: log_event_def)
  qed
qed

lemma fold_asked: "fold show_event (map2 Asked qs rs) s = s"
  by (induction qs arbitrary: rs s) (auto simp: zip_Cons1 split: list.splits)

lemma well_locked_ClusterInit [discipline]: "well_locked ClusterInit None False"
proof -
  have "well_locked (ask_all qs) None False" if "list_all (\<lambda>q. \<nexists>bs. q = I2cWrite bs) qs" for qs
    using that by (induction qs) (auto split: query.splits)
  then have asks: "well_locked (ask_all cluster_inits) None False"
    by (simp add: cluster_inits_eq)
  have rest: "well_locked (io_bind ApplyLatestMeasurement (\<lambda>_. Ret True)) None False"
    by (intro well_locked_bind [OF well_locked_ApplyLatestMeasurement]) simp
  show ?thesis
    unfolding ClusterInit_ask_all by (intro well_locked_bind [OF asks]) (simp add: rest)
qed

lemma queries_append [simp]: "queries (es @ fs) = queries es @ queries fs"
  by (induction es rule: queries.induct) simp_all

lemma queries_asked: "length rs = length qs \<Longrightarrow> queries (map2 Asked qs rs) = qs"
  by (induction qs rs rule: list_induct2') simp_all

text \<open>A cluster initialisation that returns true has made all its queries.\<close>

lemma queries_ClusterInit:
  assumes "run E ClusterInit w = (Some True, w')"
  shows "queries (drop (length (history w)) (history w')) = cluster_inits"
proof -
  obtain rs where r: "run E (ask_all cluster_inits) w =
      (Some (length rs = length cluster_inits \<and> list_all (\<lambda>r. r = 0) rs),
       w\<lparr>history := history w @ map2 Asked cluster_inits rs\<rparr>)"
    using run_ask_all [of E cluster_inits w] by blast
  have writes: "queries (map (Did \<circ> WriteAttribute) ws) = []" for ws by (induction ws) simp_all
  have "length rs = length cluster_inits"
    using assms r by (auto simp: ClusterInit_ask_all run_bind split: if_splits)
  then show ?thesis
    using assms r queries_asked [of rs cluster_inits] writes
    by (auto simp: ClusterInit_ask_all run_bind run_ApplyLatestMeasurement fetched_def split: if_splits)
qed

section \<open>Properties of the adapter\<close>

text \<open>
  C26. Applying the latest measurement makes each of the eight attributes show the snapshot as
  it is at that moment: the converted reading of a valid channel, null for an invalid one,
  the same temperature on both endpoints, the overall level; it changes no other attribute,
  and none at all before the first valid reading.
\<close>

theorem ApplyLatestMeasurement_publishes_snapshot:
  "fst (run E ApplyLatestMeasurement w) = Some () \<and>
   shown (history (snd (run E ApplyLatestMeasurement w))) =
     (if everValid (snap w) then shown (history w) ++ published (measurement (snap w))
      else shown (history w)) \<and>
   snap (snd (run E ApplyLatestMeasurement w)) = snap w"
  using shown_ApplyLatestMeasurement [of E w] by (simp add: run_ApplyLatestMeasurement)

text \<open>
  C29. \<^verbatim>\<open>ClusterInit\<close> initialises the seven clusters in their order and stops at the first failure,
  of which it returns false, having done nothing else.  It returns true exactly when all seven
  succeed; then it registers the callback first and publishes the snapshot there is after that,
  so a notification the poll thread raised before is not lost.
\<close>

theorem ClusterInit_registers_after_all_inits:
  fixes E :: env and w :: world
  defines "inits \<equiv> [IdentifyInit 1, IdentifyInit 2, AirQualityInit, ConcentrationInit sCo2Instance,
    ConcentrationInit sPm1Instance, ConcentrationInit sPm25Instance, ConcentrationInit sPm10Instance]"
  shows "\<exists>rs w'. run E ClusterInit w = (Some (rs = replicate 7 0), w') \<and>
     (if rs = replicate 7 0
      then history w' = history w @ map2 Asked inits rs @
          Did (SetCallback (Some OnMeasurementUpdated_fn)) # fetched w @
          (if everValid (snap w) then map (Did \<circ> WriteAttribute) (attribute_writes (measurement (snap w))) else []) \<and>
        callback w' = Some OnMeasurementUpdated_fn \<and>
        shown (history w') = (if everValid (snap w) then shown (history w) ++ published (measurement (snap w))
                              else shown (history w))
      else (\<exists>n < 7. \<exists>r. r \<noteq> 0 \<and> rs = replicate n 0 @ [r]) \<and>
        history w' = history w @ map2 Asked inits rs \<and>
        callback w' = callback w \<and> shown (history w') = shown (history w))"
proof -
  have inits: "inits = cluster_inits" by (simp add: inits_def cluster_inits_eq)
  obtain rs where r: "run E (ask_all cluster_inits) w =
      (Some (length rs = length cluster_inits \<and> list_all (\<lambda>r. r = 0) rs),
       w\<lparr>history := history w @ map2 Asked cluster_inits rs\<rparr>)"
    and len: "length rs \<le> length cluster_inits" and but: "list_all (\<lambda>r. r = 0) (butlast rs)"
    and ends: "length rs = length cluster_inits \<or> (rs \<noteq> [] \<and> last rs \<noteq> 0)"
    using run_ask_all [of E cluster_inits w] by blast
  have seven: "length cluster_inits = 7" by (simp add: cluster_inits_eq)
  let ?w = "w\<lparr>history := history w @ map2 Asked cluster_inits rs\<rparr>"
  have shown: "shown (history ?w) = shown (history w)"
    by (simp add: shown_append fold_asked)
  have all: "length rs = 7 \<and> list_all (\<lambda>r. r = 0) rs \<longleftrightarrow> rs = replicate 7 0"
    by (auto simp: list_all_iff replicate_eqI)
  show ?thesis
  proof (cases "rs = replicate 7 0")
    case True
    let ?v = "perform (SetCallback (Some OnMeasurementUpdated_fn)) ?w"
    let ?w' = "snd (run E ApplyLatestMeasurement ?v)"
    have "run E ClusterInit w = (Some True, ?w')"
      using True all r seven by (simp add: ClusterInit_ask_all run_bind run_ApplyLatestMeasurement)
    moreover have "shown (history ?v) = shown (history w)"
      using shown by (simp add: shown_append)
    moreover have "callback ?w' = Some OnMeasurementUpdated_fn" "snap ?v = snap w"
      by (simp_all add: run_ApplyLatestMeasurement)
    moreover have "history ?w' = history w @ map2 Asked cluster_inits rs @
        Did (SetCallback (Some OnMeasurementUpdated_fn)) # fetched w @
        (if everValid (snap w) then map (Did \<circ> WriteAttribute) (attribute_writes (measurement (snap w))) else [])"
      by (simp add: run_ApplyLatestMeasurement fetched_def)
    ultimately show ?thesis
      using True shown_ApplyLatestMeasurement [of E ?v]
      by (intro exI [of _ rs] exI [of _ ?w']) (simp add: inits)
  next
    case False
    have ne: "rs \<noteq> []" using ends seven by auto
    have split: "butlast rs @ [last rs] = rs" using ne by simp
    have "list_all (\<lambda>r. r = 0) rs" if "last rs = 0"
      by (subst split [symmetric]) (use but that in simp)
    then have last: "last rs \<noteq> 0" using False all ends seven by metis
    have "butlast rs = replicate (length rs - 1) 0"
      by (rule replicate_eqI) (use but in \<open>auto simp: list_all_iff\<close>)
    then have "rs = replicate (length rs - 1) 0 @ [last rs]" using split by simp
    moreover have "length rs - 1 < 7" using len seven ne by (cases rs) auto
    ultimately have "\<exists>n < 7. \<exists>r. r \<noteq> 0 \<and> rs = replicate n 0 @ [r]" using last by blast
    moreover have "run E ClusterInit w = (Some False, ?w)"
      using False all r seven by (auto simp: ClusterInit_ask_all run_bind)
    ultimately show ?thesis
      using False shown by (intro exI [of _ rs] exI [of _ ?w]) (simp add: inits)
  qed
qed

end
