(* ===== verification/Endpoint_Config.thy ===== *)
theory Endpoint_Config
  imports Matter_Adapter
begin

text \<open>
  The static data model of the accessory,
  \<^verbatim>\<open>src/default_zap/zap-generated/endpoint_config.h\<close>: the tables of attributes, events,
  commands, clusters and endpoint types from which the Matter stack serves its three endpoints
  (the root node, the air-quality sensor, the temperature sensor).  The tables point into each
  other by index and repeat sizes and counts that follow from other tables.  The properties say
  that all of this fits together, and that the values the adapter publishes have the place, the
  type and the nullability the tables give them.
\<close>

section \<open>The element types\<close>

datatype zap_type =
    ARRAY | BITMAP16 | BITMAP32 | BOOLEAN | CHAR_STRING | ENUM8 | FABRIC_IDX | INT16U | INT32S
  | INT32U | INT64U | INT8U | OCTET_STRING | SINGLE | STRUCT | TEMPERATURE | VENDOR_ID

datatype attribute_flag = EXTERNAL_STORAGE | WRITABLE | READABLE | NULLABLE

datatype zap_default = ZAP_EMPTY_DEFAULT | ZAP_SIMPLE_DEFAULT nat

text \<open>
  The fields of a metadata entry in the order of the initialisers: default value, attribute id,
  size in bytes, type, mask.
\<close>

datatype EmberAfAttributeMetadata =
  Attribute (default_value: zap_default) (attribute_id: nat) (attribute_size: nat)
    (attribute_type: zap_type) (attribute_mask: "attribute_flag list")

datatype cluster_side = SERVER | CLIENT

text \<open>
  Pointers into the other tables are indices; \<^verbatim>\<open>nullptr\<close> is \<open>None\<close>.
\<close>

record EmberAfCluster =
  clusterId :: nat
  attributes :: nat
  attributeCount :: nat
  clusterSize :: nat
  side :: cluster_side
  functionArray :: "nat option"
  acceptedCommandList :: "nat option"
  generatedCommandList :: "nat option"
  eventList :: "nat option"
  eventCount :: nat

text \<open>An endpoint type: its first cluster, its number of clusters, its bytes of stored attributes.\<close>

record EmberAfEndpointType =
  clusters :: nat
  clusterCount :: nat
  endpointSize :: nat

section \<open>The tables\<close>

definition GENERATED_DEFAULTS_COUNT :: nat where "GENERATED_DEFAULTS_COUNT = 0"
definition GENERATED_ATTRIBUTE_COUNT :: nat where "GENERATED_ATTRIBUTE_COUNT = 152"

definition Descriptor0_attributes :: "EmberAfAttributeMetadata list" where
  "Descriptor0_attributes = [
     Attribute ZAP_EMPTY_DEFAULT 0x0 0 ARRAY [EXTERNAL_STORAGE, READABLE], \<comment> \<open>DeviceTypeList\<close>
     Attribute ZAP_EMPTY_DEFAULT 0x1 0 ARRAY [EXTERNAL_STORAGE, READABLE], \<comment> \<open>ServerList\<close>
     Attribute ZAP_EMPTY_DEFAULT 0x2 0 ARRAY [EXTERNAL_STORAGE, READABLE], \<comment> \<open>ClientList\<close>
     Attribute ZAP_EMPTY_DEFAULT 0x3 0 ARRAY [EXTERNAL_STORAGE, READABLE], \<comment> \<open>PartsList\<close>
     Attribute ZAP_EMPTY_DEFAULT 0xFFFC 4 BITMAP32 [EXTERNAL_STORAGE, READABLE], \<comment> \<open>FeatureMap\<close>
     Attribute ZAP_EMPTY_DEFAULT 0xFFFD 2 INT16U [EXTERNAL_STORAGE, READABLE] \<comment> \<open>ClusterRevision\<close>
     ]"

definition AccessControl0_attributes :: "EmberAfAttributeMetadata list" where
  "AccessControl0_attributes = [
     Attribute ZAP_EMPTY_DEFAULT 0x0 0 ARRAY [EXTERNAL_STORAGE, WRITABLE, READABLE], \<comment> \<open>ACL\<close>
     Attribute ZAP_EMPTY_DEFAULT 0x1 0 ARRAY [EXTERNAL_STORAGE, WRITABLE, READABLE], \<comment> \<open>Extension\<close>
     Attribute ZAP_EMPTY_DEFAULT 0x2 2 INT16U [EXTERNAL_STORAGE, READABLE], \<comment> \<open>SubjectsPerAccessControlEntry\<close>
     Attribute ZAP_EMPTY_DEFAULT 0x3 2 INT16U [EXTERNAL_STORAGE, READABLE], \<comment> \<open>TargetsPerAccessControlEntry\<close>
     Attribute ZAP_EMPTY_DEFAULT 0x4 2 INT16U [EXTERNAL_STORAGE, READABLE], \<comment> \<open>AccessControlEntriesPerFabric\<close>
     Attribute ZAP_EMPTY_DEFAULT 0xFFFC 4 BITMAP32 [EXTERNAL_STORAGE, READABLE], \<comment> \<open>FeatureMap\<close>
     Attribute ZAP_EMPTY_DEFAULT 0xFFFD 2 INT16U [EXTERNAL_STORAGE, READABLE] \<comment> \<open>ClusterRevision\<close>
     ]"

definition BasicInformation0_attributes :: "EmberAfAttributeMetadata list" where
  "BasicInformation0_attributes = [
     Attribute ZAP_EMPTY_DEFAULT 0x0 2 INT16U [EXTERNAL_STORAGE, READABLE], \<comment> \<open>DataModelRevision\<close>
     Attribute ZAP_EMPTY_DEFAULT 0x1 33 CHAR_STRING [EXTERNAL_STORAGE, READABLE], \<comment> \<open>VendorName\<close>
     Attribute ZAP_EMPTY_DEFAULT 0x2 2 VENDOR_ID [EXTERNAL_STORAGE, READABLE], \<comment> \<open>VendorID\<close>
     Attribute ZAP_EMPTY_DEFAULT 0x3 33 CHAR_STRING [EXTERNAL_STORAGE, READABLE], \<comment> \<open>ProductName\<close>
     Attribute ZAP_EMPTY_DEFAULT 0x4 2 INT16U [EXTERNAL_STORAGE, READABLE], \<comment> \<open>ProductID\<close>
     Attribute ZAP_EMPTY_DEFAULT 0x5 33 CHAR_STRING [EXTERNAL_STORAGE, WRITABLE, READABLE], \<comment> \<open>NodeLabel\<close>
     Attribute ZAP_EMPTY_DEFAULT 0x6 3 CHAR_STRING [EXTERNAL_STORAGE, WRITABLE, READABLE], \<comment> \<open>Location\<close>
     Attribute ZAP_EMPTY_DEFAULT 0x7 2 INT16U [EXTERNAL_STORAGE, READABLE], \<comment> \<open>HardwareVersion\<close>
     Attribute ZAP_EMPTY_DEFAULT 0x8 65 CHAR_STRING [EXTERNAL_STORAGE, READABLE], \<comment> \<open>HardwareVersionString\<close>
     Attribute ZAP_EMPTY_DEFAULT 0x9 4 INT32U [EXTERNAL_STORAGE, READABLE], \<comment> \<open>SoftwareVersion\<close>
     Attribute ZAP_EMPTY_DEFAULT 0xA 65 CHAR_STRING [EXTERNAL_STORAGE, READABLE], \<comment> \<open>SoftwareVersionString\<close>
     Attribute ZAP_EMPTY_DEFAULT 0xB 17 CHAR_STRING [EXTERNAL_STORAGE, READABLE], \<comment> \<open>ManufacturingDate\<close>
     Attribute ZAP_EMPTY_DEFAULT 0xF 33 CHAR_STRING [EXTERNAL_STORAGE, READABLE], \<comment> \<open>SerialNumber\<close>
     Attribute ZAP_EMPTY_DEFAULT 0x12 33 CHAR_STRING [EXTERNAL_STORAGE, READABLE], \<comment> \<open>UniqueID\<close>
     Attribute ZAP_EMPTY_DEFAULT 0x13 0 STRUCT [EXTERNAL_STORAGE, READABLE], \<comment> \<open>CapabilityMinima\<close>
     Attribute ZAP_EMPTY_DEFAULT 0x15 4 INT32U [EXTERNAL_STORAGE, READABLE], \<comment> \<open>SpecificationVersion\<close>
     Attribute ZAP_EMPTY_DEFAULT 0x16 2 INT16U [EXTERNAL_STORAGE, READABLE], \<comment> \<open>MaxPathsPerInvoke\<close>
     Attribute ZAP_EMPTY_DEFAULT 0x18 4 INT32U [EXTERNAL_STORAGE, READABLE], \<comment> \<open>ConfigurationVersion\<close>
     Attribute ZAP_EMPTY_DEFAULT 0xFFFC 4 BITMAP32 [EXTERNAL_STORAGE, READABLE], \<comment> \<open>FeatureMap\<close>
     Attribute ZAP_EMPTY_DEFAULT 0xFFFD 2 INT16U [EXTERNAL_STORAGE, READABLE] \<comment> \<open>ClusterRevision\<close>
     ]"

definition OtaSoftwareUpdateRequestor0_attributes :: "EmberAfAttributeMetadata list" where
  "OtaSoftwareUpdateRequestor0_attributes = [
     Attribute ZAP_EMPTY_DEFAULT 0x0 0 ARRAY [EXTERNAL_STORAGE, WRITABLE, READABLE], \<comment> \<open>DefaultOTAProviders\<close>
     Attribute (ZAP_SIMPLE_DEFAULT 1) 0x1 1 BOOLEAN [READABLE], \<comment> \<open>UpdatePossible\<close>
     Attribute (ZAP_SIMPLE_DEFAULT 0) 0x2 1 ENUM8 [READABLE], \<comment> \<open>UpdateState\<close>
     Attribute ZAP_EMPTY_DEFAULT 0x3 1 INT8U [READABLE, NULLABLE], \<comment> \<open>UpdateStateProgress\<close>
     Attribute (ZAP_SIMPLE_DEFAULT 0) 0xFFFC 4 BITMAP32 [READABLE], \<comment> \<open>FeatureMap\<close>
     Attribute (ZAP_SIMPLE_DEFAULT 1) 0xFFFD 2 INT16U [READABLE] \<comment> \<open>ClusterRevision\<close>
     ]"

definition GeneralCommissioning0_attributes :: "EmberAfAttributeMetadata list" where
  "GeneralCommissioning0_attributes = [
     Attribute ZAP_EMPTY_DEFAULT 0x0 8 INT64U [EXTERNAL_STORAGE, WRITABLE, READABLE], \<comment> \<open>Breadcrumb\<close>
     Attribute ZAP_EMPTY_DEFAULT 0x1 0 STRUCT [EXTERNAL_STORAGE, READABLE], \<comment> \<open>BasicCommissioningInfo\<close>
     Attribute ZAP_EMPTY_DEFAULT 0x2 1 ENUM8 [EXTERNAL_STORAGE, READABLE], \<comment> \<open>RegulatoryConfig\<close>
     Attribute ZAP_EMPTY_DEFAULT 0x3 1 ENUM8 [EXTERNAL_STORAGE, READABLE], \<comment> \<open>LocationCapability\<close>
     Attribute ZAP_EMPTY_DEFAULT 0x4 1 BOOLEAN [EXTERNAL_STORAGE, READABLE], \<comment> \<open>SupportsConcurrentConnection\<close>
     Attribute ZAP_EMPTY_DEFAULT 0xFFFC 4 BITMAP32 [EXTERNAL_STORAGE, READABLE], \<comment> \<open>FeatureMap\<close>
     Attribute ZAP_EMPTY_DEFAULT 0xFFFD 2 INT16U [EXTERNAL_STORAGE, READABLE] \<comment> \<open>ClusterRevision\<close>
     ]"

definition NetworkCommissioning0_attributes :: "EmberAfAttributeMetadata list" where
  "NetworkCommissioning0_attributes = [
     Attribute ZAP_EMPTY_DEFAULT 0x0 1 INT8U [EXTERNAL_STORAGE, READABLE], \<comment> \<open>MaxNetworks\<close>
     Attribute ZAP_EMPTY_DEFAULT 0x1 0 ARRAY [EXTERNAL_STORAGE, READABLE], \<comment> \<open>Networks\<close>
     Attribute ZAP_EMPTY_DEFAULT 0x2 1 INT8U [EXTERNAL_STORAGE, READABLE], \<comment> \<open>ScanMaxTimeSeconds\<close>
     Attribute ZAP_EMPTY_DEFAULT 0x3 1 INT8U [EXTERNAL_STORAGE, READABLE], \<comment> \<open>ConnectMaxTimeSeconds\<close>
     Attribute ZAP_EMPTY_DEFAULT 0x4 1 BOOLEAN [EXTERNAL_STORAGE, WRITABLE, READABLE], \<comment> \<open>InterfaceEnabled\<close>
     Attribute ZAP_EMPTY_DEFAULT 0x5 1 ENUM8 [EXTERNAL_STORAGE, READABLE, NULLABLE], \<comment> \<open>LastNetworkingStatus\<close>
     Attribute ZAP_EMPTY_DEFAULT 0x6 33 OCTET_STRING [EXTERNAL_STORAGE, READABLE, NULLABLE], \<comment> \<open>LastNetworkID\<close>
     Attribute ZAP_EMPTY_DEFAULT 0x7 4 INT32S [EXTERNAL_STORAGE, READABLE, NULLABLE], \<comment> \<open>LastConnectErrorValue\<close>
     Attribute ZAP_EMPTY_DEFAULT 0x8 0 ARRAY [EXTERNAL_STORAGE, READABLE], \<comment> \<open>SupportedWiFiBands\<close>
     Attribute ZAP_EMPTY_DEFAULT 0x9 2 BITMAP16 [EXTERNAL_STORAGE, READABLE], \<comment> \<open>SupportedThreadFeatures\<close>
     Attribute ZAP_EMPTY_DEFAULT 0xA 2 INT16U [EXTERNAL_STORAGE, READABLE], \<comment> \<open>ThreadVersion\<close>
     Attribute ZAP_EMPTY_DEFAULT 0xFFFC 4 BITMAP32 [EXTERNAL_STORAGE, READABLE], \<comment> \<open>FeatureMap\<close>
     Attribute ZAP_EMPTY_DEFAULT 0xFFFD 2 INT16U [EXTERNAL_STORAGE, READABLE] \<comment> \<open>ClusterRevision\<close>
     ]"

definition GeneralDiagnostics0_attributes :: "EmberAfAttributeMetadata list" where
  "GeneralDiagnostics0_attributes = [
     Attribute ZAP_EMPTY_DEFAULT 0x0 0 ARRAY [EXTERNAL_STORAGE, READABLE], \<comment> \<open>NetworkInterfaces\<close>
     Attribute ZAP_EMPTY_DEFAULT 0x1 2 INT16U [EXTERNAL_STORAGE, READABLE], \<comment> \<open>RebootCount\<close>
     Attribute ZAP_EMPTY_DEFAULT 0x2 8 INT64U [EXTERNAL_STORAGE, READABLE], \<comment> \<open>UpTime\<close>
     Attribute ZAP_EMPTY_DEFAULT 0x3 4 INT32U [EXTERNAL_STORAGE, READABLE], \<comment> \<open>TotalOperationalHours\<close>
     Attribute ZAP_EMPTY_DEFAULT 0x4 1 ENUM8 [EXTERNAL_STORAGE, READABLE], \<comment> \<open>BootReason\<close>
     Attribute ZAP_EMPTY_DEFAULT 0x8 1 BOOLEAN [EXTERNAL_STORAGE, READABLE], \<comment> \<open>TestEventTriggersEnabled\<close>
     Attribute ZAP_EMPTY_DEFAULT 0xFFFC 4 BITMAP32 [EXTERNAL_STORAGE, READABLE], \<comment> \<open>FeatureMap\<close>
     Attribute ZAP_EMPTY_DEFAULT 0xFFFD 2 INT16U [EXTERNAL_STORAGE, READABLE] \<comment> \<open>ClusterRevision\<close>
     ]"

definition AdministratorCommissioning0_attributes :: "EmberAfAttributeMetadata list" where
  "AdministratorCommissioning0_attributes = [
     Attribute ZAP_EMPTY_DEFAULT 0x0 1 ENUM8 [EXTERNAL_STORAGE, READABLE], \<comment> \<open>WindowStatus\<close>
     Attribute ZAP_EMPTY_DEFAULT 0x1 1 FABRIC_IDX [EXTERNAL_STORAGE, READABLE, NULLABLE], \<comment> \<open>AdminFabricIndex\<close>
     Attribute ZAP_EMPTY_DEFAULT 0x2 2 VENDOR_ID [EXTERNAL_STORAGE, READABLE, NULLABLE], \<comment> \<open>AdminVendorId\<close>
     Attribute (ZAP_SIMPLE_DEFAULT 1) 0xFFFC 4 BITMAP32 [READABLE], \<comment> \<open>FeatureMap\<close>
     Attribute ZAP_EMPTY_DEFAULT 0xFFFD 2 INT16U [EXTERNAL_STORAGE, READABLE] \<comment> \<open>ClusterRevision\<close>
     ]"

definition OperationalCredentials0_attributes :: "EmberAfAttributeMetadata list" where
  "OperationalCredentials0_attributes = [
     Attribute ZAP_EMPTY_DEFAULT 0x0 0 ARRAY [EXTERNAL_STORAGE, READABLE], \<comment> \<open>NOCs\<close>
     Attribute ZAP_EMPTY_DEFAULT 0x1 0 ARRAY [EXTERNAL_STORAGE, READABLE], \<comment> \<open>Fabrics\<close>
     Attribute ZAP_EMPTY_DEFAULT 0x2 1 INT8U [EXTERNAL_STORAGE, READABLE], \<comment> \<open>SupportedFabrics\<close>
     Attribute ZAP_EMPTY_DEFAULT 0x3 1 INT8U [EXTERNAL_STORAGE, READABLE], \<comment> \<open>CommissionedFabrics\<close>
     Attribute ZAP_EMPTY_DEFAULT 0x4 0 ARRAY [EXTERNAL_STORAGE, READABLE], \<comment> \<open>TrustedRootCertificates\<close>
     Attribute ZAP_EMPTY_DEFAULT 0x5 1 INT8U [EXTERNAL_STORAGE, READABLE], \<comment> \<open>CurrentFabricIndex\<close>
     Attribute ZAP_EMPTY_DEFAULT 0xFFFC 4 BITMAP32 [EXTERNAL_STORAGE, READABLE], \<comment> \<open>FeatureMap\<close>
     Attribute ZAP_EMPTY_DEFAULT 0xFFFD 2 INT16U [EXTERNAL_STORAGE, READABLE] \<comment> \<open>ClusterRevision\<close>
     ]"

definition GroupKeyManagement0_attributes :: "EmberAfAttributeMetadata list" where
  "GroupKeyManagement0_attributes = [
     Attribute ZAP_EMPTY_DEFAULT 0x0 0 ARRAY [EXTERNAL_STORAGE, WRITABLE, READABLE], \<comment> \<open>GroupKeyMap\<close>
     Attribute ZAP_EMPTY_DEFAULT 0x1 0 ARRAY [EXTERNAL_STORAGE, READABLE], \<comment> \<open>GroupTable\<close>
     Attribute ZAP_EMPTY_DEFAULT 0x2 2 INT16U [EXTERNAL_STORAGE, READABLE], \<comment> \<open>MaxGroupsPerFabric\<close>
     Attribute ZAP_EMPTY_DEFAULT 0x3 2 INT16U [EXTERNAL_STORAGE, READABLE], \<comment> \<open>MaxGroupKeysPerFabric\<close>
     Attribute ZAP_EMPTY_DEFAULT 0xFFFC 4 BITMAP32 [EXTERNAL_STORAGE, READABLE], \<comment> \<open>FeatureMap\<close>
     Attribute ZAP_EMPTY_DEFAULT 0xFFFD 2 INT16U [EXTERNAL_STORAGE, READABLE] \<comment> \<open>ClusterRevision\<close>
     ]"

definition Identify1_attributes :: "EmberAfAttributeMetadata list" where
  "Identify1_attributes = [
     Attribute ZAP_EMPTY_DEFAULT 0x0 2 INT16U [EXTERNAL_STORAGE, WRITABLE, READABLE], \<comment> \<open>IdentifyTime\<close>
     Attribute ZAP_EMPTY_DEFAULT 0x1 1 ENUM8 [EXTERNAL_STORAGE, READABLE], \<comment> \<open>IdentifyType\<close>
     Attribute ZAP_EMPTY_DEFAULT 0xFFFC 4 BITMAP32 [EXTERNAL_STORAGE, READABLE], \<comment> \<open>FeatureMap\<close>
     Attribute ZAP_EMPTY_DEFAULT 0xFFFD 2 INT16U [EXTERNAL_STORAGE, READABLE] \<comment> \<open>ClusterRevision\<close>
     ]"

definition Descriptor1_attributes :: "EmberAfAttributeMetadata list" where
  "Descriptor1_attributes = [
     Attribute ZAP_EMPTY_DEFAULT 0x0 0 ARRAY [EXTERNAL_STORAGE, READABLE], \<comment> \<open>DeviceTypeList\<close>
     Attribute ZAP_EMPTY_DEFAULT 0x1 0 ARRAY [EXTERNAL_STORAGE, READABLE], \<comment> \<open>ServerList\<close>
     Attribute ZAP_EMPTY_DEFAULT 0x2 0 ARRAY [EXTERNAL_STORAGE, READABLE], \<comment> \<open>ClientList\<close>
     Attribute ZAP_EMPTY_DEFAULT 0x3 0 ARRAY [EXTERNAL_STORAGE, READABLE], \<comment> \<open>PartsList\<close>
     Attribute ZAP_EMPTY_DEFAULT 0xFFFC 4 BITMAP32 [EXTERNAL_STORAGE, READABLE], \<comment> \<open>FeatureMap\<close>
     Attribute ZAP_EMPTY_DEFAULT 0xFFFD 2 INT16U [EXTERNAL_STORAGE, READABLE] \<comment> \<open>ClusterRevision\<close>
     ]"

definition AirQuality1_attributes :: "EmberAfAttributeMetadata list" where
  "AirQuality1_attributes = [
     Attribute ZAP_EMPTY_DEFAULT 0x0 1 ENUM8 [EXTERNAL_STORAGE, READABLE], \<comment> \<open>AirQuality\<close>
     Attribute ZAP_EMPTY_DEFAULT 0xFFFC 4 BITMAP32 [EXTERNAL_STORAGE, READABLE], \<comment> \<open>FeatureMap\<close>
     Attribute (ZAP_SIMPLE_DEFAULT 1) 0xFFFD 2 INT16U [READABLE] \<comment> \<open>ClusterRevision\<close>
     ]"

definition TemperatureMeasurement1_attributes :: "EmberAfAttributeMetadata list" where
  "TemperatureMeasurement1_attributes = [
     Attribute (ZAP_SIMPLE_DEFAULT 0x8000) 0x0 2 TEMPERATURE [READABLE, NULLABLE], \<comment> \<open>MeasuredValue\<close>
     Attribute (ZAP_SIMPLE_DEFAULT 0x8000) 0x1 2 TEMPERATURE [READABLE, NULLABLE], \<comment> \<open>MinMeasuredValue\<close>
     Attribute (ZAP_SIMPLE_DEFAULT 0x8000) 0x2 2 TEMPERATURE [READABLE, NULLABLE], \<comment> \<open>MaxMeasuredValue\<close>
     Attribute (ZAP_SIMPLE_DEFAULT 0) 0xFFFC 4 BITMAP32 [READABLE], \<comment> \<open>FeatureMap\<close>
     Attribute (ZAP_SIMPLE_DEFAULT 4) 0xFFFD 2 INT16U [READABLE] \<comment> \<open>ClusterRevision\<close>
     ]"

definition RelativeHumidityMeasurement1_attributes :: "EmberAfAttributeMetadata list" where
  "RelativeHumidityMeasurement1_attributes = [
     Attribute (ZAP_SIMPLE_DEFAULT 0xFFFF) 0x0 2 INT16U [READABLE, NULLABLE], \<comment> \<open>MeasuredValue\<close>
     Attribute (ZAP_SIMPLE_DEFAULT 0xFFFF) 0x1 2 INT16U [READABLE, NULLABLE], \<comment> \<open>MinMeasuredValue\<close>
     Attribute (ZAP_SIMPLE_DEFAULT 0xFFFF) 0x2 2 INT16U [READABLE, NULLABLE], \<comment> \<open>MaxMeasuredValue\<close>
     Attribute (ZAP_SIMPLE_DEFAULT 0) 0xFFFC 4 BITMAP32 [READABLE], \<comment> \<open>FeatureMap\<close>
     Attribute (ZAP_SIMPLE_DEFAULT 3) 0xFFFD 2 INT16U [READABLE] \<comment> \<open>ClusterRevision\<close>
     ]"

definition CarbonDioxideConcentrationMeasurement1_attributes :: "EmberAfAttributeMetadata list" where
  "CarbonDioxideConcentrationMeasurement1_attributes = [
     Attribute ZAP_EMPTY_DEFAULT 0x0 4 SINGLE [EXTERNAL_STORAGE, READABLE, NULLABLE], \<comment> \<open>MeasuredValue\<close>
     Attribute ZAP_EMPTY_DEFAULT 0x1 4 SINGLE [EXTERNAL_STORAGE, READABLE, NULLABLE], \<comment> \<open>MinMeasuredValue\<close>
     Attribute ZAP_EMPTY_DEFAULT 0x2 4 SINGLE [EXTERNAL_STORAGE, READABLE, NULLABLE], \<comment> \<open>MaxMeasuredValue\<close>
     Attribute ZAP_EMPTY_DEFAULT 0x8 1 ENUM8 [EXTERNAL_STORAGE, READABLE], \<comment> \<open>MeasurementUnit\<close>
     Attribute ZAP_EMPTY_DEFAULT 0x9 1 ENUM8 [EXTERNAL_STORAGE, READABLE], \<comment> \<open>MeasurementMedium\<close>
     Attribute ZAP_EMPTY_DEFAULT 0xFFFC 4 BITMAP32 [EXTERNAL_STORAGE, READABLE], \<comment> \<open>FeatureMap\<close>
     Attribute (ZAP_SIMPLE_DEFAULT 3) 0xFFFD 2 INT16U [READABLE] \<comment> \<open>ClusterRevision\<close>
     ]"

definition Pm25ConcentrationMeasurement1_attributes :: "EmberAfAttributeMetadata list" where
  "Pm25ConcentrationMeasurement1_attributes = [
     Attribute ZAP_EMPTY_DEFAULT 0x0 4 SINGLE [EXTERNAL_STORAGE, READABLE, NULLABLE], \<comment> \<open>MeasuredValue\<close>
     Attribute ZAP_EMPTY_DEFAULT 0x1 4 SINGLE [EXTERNAL_STORAGE, READABLE, NULLABLE], \<comment> \<open>MinMeasuredValue\<close>
     Attribute ZAP_EMPTY_DEFAULT 0x2 4 SINGLE [EXTERNAL_STORAGE, READABLE, NULLABLE], \<comment> \<open>MaxMeasuredValue\<close>
     Attribute ZAP_EMPTY_DEFAULT 0x8 1 ENUM8 [EXTERNAL_STORAGE, READABLE], \<comment> \<open>MeasurementUnit\<close>
     Attribute ZAP_EMPTY_DEFAULT 0x9 1 ENUM8 [EXTERNAL_STORAGE, READABLE], \<comment> \<open>MeasurementMedium\<close>
     Attribute ZAP_EMPTY_DEFAULT 0xFFFC 4 BITMAP32 [EXTERNAL_STORAGE, READABLE], \<comment> \<open>FeatureMap\<close>
     Attribute (ZAP_SIMPLE_DEFAULT 3) 0xFFFD 2 INT16U [READABLE] \<comment> \<open>ClusterRevision\<close>
     ]"

definition Pm1ConcentrationMeasurement1_attributes :: "EmberAfAttributeMetadata list" where
  "Pm1ConcentrationMeasurement1_attributes = [
     Attribute ZAP_EMPTY_DEFAULT 0x0 4 SINGLE [EXTERNAL_STORAGE, READABLE, NULLABLE], \<comment> \<open>MeasuredValue\<close>
     Attribute ZAP_EMPTY_DEFAULT 0x1 4 SINGLE [EXTERNAL_STORAGE, READABLE, NULLABLE], \<comment> \<open>MinMeasuredValue\<close>
     Attribute ZAP_EMPTY_DEFAULT 0x2 4 SINGLE [EXTERNAL_STORAGE, READABLE, NULLABLE], \<comment> \<open>MaxMeasuredValue\<close>
     Attribute ZAP_EMPTY_DEFAULT 0x8 1 ENUM8 [EXTERNAL_STORAGE, READABLE], \<comment> \<open>MeasurementUnit\<close>
     Attribute ZAP_EMPTY_DEFAULT 0x9 1 ENUM8 [EXTERNAL_STORAGE, READABLE], \<comment> \<open>MeasurementMedium\<close>
     Attribute ZAP_EMPTY_DEFAULT 0xFFFC 4 BITMAP32 [EXTERNAL_STORAGE, READABLE], \<comment> \<open>FeatureMap\<close>
     Attribute (ZAP_SIMPLE_DEFAULT 3) 0xFFFD 2 INT16U [READABLE] \<comment> \<open>ClusterRevision\<close>
     ]"

definition Pm10ConcentrationMeasurement1_attributes :: "EmberAfAttributeMetadata list" where
  "Pm10ConcentrationMeasurement1_attributes = [
     Attribute ZAP_EMPTY_DEFAULT 0x0 4 SINGLE [EXTERNAL_STORAGE, READABLE, NULLABLE], \<comment> \<open>MeasuredValue\<close>
     Attribute ZAP_EMPTY_DEFAULT 0x1 4 SINGLE [EXTERNAL_STORAGE, READABLE, NULLABLE], \<comment> \<open>MinMeasuredValue\<close>
     Attribute ZAP_EMPTY_DEFAULT 0x2 4 SINGLE [EXTERNAL_STORAGE, READABLE, NULLABLE], \<comment> \<open>MaxMeasuredValue\<close>
     Attribute ZAP_EMPTY_DEFAULT 0x8 1 ENUM8 [EXTERNAL_STORAGE, READABLE], \<comment> \<open>MeasurementUnit\<close>
     Attribute ZAP_EMPTY_DEFAULT 0x9 1 ENUM8 [EXTERNAL_STORAGE, READABLE], \<comment> \<open>MeasurementMedium\<close>
     Attribute ZAP_EMPTY_DEFAULT 0xFFFC 4 BITMAP32 [EXTERNAL_STORAGE, READABLE], \<comment> \<open>FeatureMap\<close>
     Attribute (ZAP_SIMPLE_DEFAULT 3) 0xFFFD 2 INT16U [READABLE] \<comment> \<open>ClusterRevision\<close>
     ]"

definition Identify2_attributes :: "EmberAfAttributeMetadata list" where
  "Identify2_attributes = [
     Attribute ZAP_EMPTY_DEFAULT 0x0 2 INT16U [EXTERNAL_STORAGE, WRITABLE, READABLE], \<comment> \<open>IdentifyTime\<close>
     Attribute ZAP_EMPTY_DEFAULT 0x1 1 ENUM8 [EXTERNAL_STORAGE, READABLE], \<comment> \<open>IdentifyType\<close>
     Attribute ZAP_EMPTY_DEFAULT 0xFFFC 4 BITMAP32 [EXTERNAL_STORAGE, READABLE], \<comment> \<open>FeatureMap\<close>
     Attribute ZAP_EMPTY_DEFAULT 0xFFFD 2 INT16U [EXTERNAL_STORAGE, READABLE] \<comment> \<open>ClusterRevision\<close>
     ]"

definition Descriptor2_attributes :: "EmberAfAttributeMetadata list" where
  "Descriptor2_attributes = [
     Attribute ZAP_EMPTY_DEFAULT 0x0 0 ARRAY [EXTERNAL_STORAGE, READABLE], \<comment> \<open>DeviceTypeList\<close>
     Attribute ZAP_EMPTY_DEFAULT 0x1 0 ARRAY [EXTERNAL_STORAGE, READABLE], \<comment> \<open>ServerList\<close>
     Attribute ZAP_EMPTY_DEFAULT 0x2 0 ARRAY [EXTERNAL_STORAGE, READABLE], \<comment> \<open>ClientList\<close>
     Attribute ZAP_EMPTY_DEFAULT 0x3 0 ARRAY [EXTERNAL_STORAGE, READABLE], \<comment> \<open>PartsList\<close>
     Attribute ZAP_EMPTY_DEFAULT 0xFFFC 4 BITMAP32 [EXTERNAL_STORAGE, READABLE], \<comment> \<open>FeatureMap\<close>
     Attribute ZAP_EMPTY_DEFAULT 0xFFFD 2 INT16U [EXTERNAL_STORAGE, READABLE] \<comment> \<open>ClusterRevision\<close>
     ]"

definition TemperatureMeasurement2_attributes :: "EmberAfAttributeMetadata list" where
  "TemperatureMeasurement2_attributes = [
     Attribute (ZAP_SIMPLE_DEFAULT 0x8000) 0x0 2 TEMPERATURE [READABLE, NULLABLE], \<comment> \<open>MeasuredValue\<close>
     Attribute (ZAP_SIMPLE_DEFAULT 0x8000) 0x1 2 TEMPERATURE [READABLE, NULLABLE], \<comment> \<open>MinMeasuredValue\<close>
     Attribute (ZAP_SIMPLE_DEFAULT 0x8000) 0x2 2 TEMPERATURE [READABLE, NULLABLE], \<comment> \<open>MaxMeasuredValue\<close>
     Attribute ZAP_EMPTY_DEFAULT 0xFFFC 4 BITMAP32 [EXTERNAL_STORAGE, READABLE], \<comment> \<open>FeatureMap\<close>
     Attribute (ZAP_SIMPLE_DEFAULT 3) 0xFFFD 2 INT16U [READABLE] \<comment> \<open>ClusterRevision\<close>
     ]"

definition GENERATED_ATTRIBUTES :: "EmberAfAttributeMetadata list" where
  "GENERATED_ATTRIBUTES =
     Descriptor0_attributes @
     AccessControl0_attributes @
     BasicInformation0_attributes @
     OtaSoftwareUpdateRequestor0_attributes @
     GeneralCommissioning0_attributes @
     NetworkCommissioning0_attributes @
     GeneralDiagnostics0_attributes @
     AdministratorCommissioning0_attributes @
     OperationalCredentials0_attributes @
     GroupKeyManagement0_attributes @
     Identify1_attributes @
     Descriptor1_attributes @
     AirQuality1_attributes @
     TemperatureMeasurement1_attributes @
     RelativeHumidityMeasurement1_attributes @
     CarbonDioxideConcentrationMeasurement1_attributes @
     Pm25ConcentrationMeasurement1_attributes @
     Pm1ConcentrationMeasurement1_attributes @
     Pm10ConcentrationMeasurement1_attributes @
     Identify2_attributes @
     Descriptor2_attributes @
     TemperatureMeasurement2_attributes"

lemmas attribute_tables =
  Descriptor0_attributes_def
  AccessControl0_attributes_def
  BasicInformation0_attributes_def
  OtaSoftwareUpdateRequestor0_attributes_def
  GeneralCommissioning0_attributes_def
  NetworkCommissioning0_attributes_def
  GeneralDiagnostics0_attributes_def
  AdministratorCommissioning0_attributes_def
  OperationalCredentials0_attributes_def
  GroupKeyManagement0_attributes_def
  Identify1_attributes_def
  Descriptor1_attributes_def
  AirQuality1_attributes_def
  TemperatureMeasurement1_attributes_def
  RelativeHumidityMeasurement1_attributes_def
  CarbonDioxideConcentrationMeasurement1_attributes_def
  Pm25ConcentrationMeasurement1_attributes_def
  Pm1ConcentrationMeasurement1_attributes_def
  Pm10ConcentrationMeasurement1_attributes_def
  Identify2_attributes_def
  Descriptor2_attributes_def
  TemperatureMeasurement2_attributes_def

definition GENERATED_EVENT_COUNT :: nat where "GENERATED_EVENT_COUNT = 6"

definition GENERATED_EVENTS :: "nat list" where
  "GENERATED_EVENTS =
     [0x0, 0x1, 0x2,   \<comment> \<open>Basic Information: StartUp, ShutDown, Leave\<close>
      0x0, 0x1, 0x2]   \<comment> \<open>OTA Software Update Requestor: StateTransition, VersionApplied, DownloadError\<close>"

text \<open>Command ids; \<^verbatim>\<open>chip::kInvalidCommandId\<close>, which ends a list, is \<open>None\<close>.\<close>

definition GENERATED_COMMANDS :: "nat option list" where
  "GENERATED_COMMANDS = [
     Some 0x0, None, \<comment> \<open>from index 0\<close>
     Some 0x0, Some 0x2, Some 0x4, None, \<comment> \<open>from index 2\<close>
     Some 0x1, Some 0x3, Some 0x5, None, \<comment> \<open>from index 6\<close>
     Some 0x0, Some 0x2, Some 0x3, Some 0x4, Some 0x6, Some 0x8, None, \<comment> \<open>from index 10\<close>
     Some 0x1, Some 0x5, Some 0x7, None, \<comment> \<open>from index 17\<close>
     Some 0x0, Some 0x1, None, \<comment> \<open>from index 21\<close>
     Some 0x2, None, \<comment> \<open>from index 24\<close>
     Some 0x0, Some 0x1, Some 0x2, None, \<comment> \<open>from index 26\<close>
     Some 0x0, Some 0x2, Some 0x4, Some 0x6, Some 0x7, Some 0x9, Some 0xA, Some 0xB, Some 0xC, Some 0xD, None, \<comment> \<open>from index 30\<close>
     Some 0x1, Some 0x3, Some 0x5, Some 0x8, Some 0xE, None, \<comment> \<open>from index 41\<close>
     Some 0x0, Some 0x1, Some 0x3, Some 0x4, None, \<comment> \<open>from index 47\<close>
     Some 0x2, Some 0x5, None, \<comment> \<open>from index 52\<close>
     Some 0x0, None, \<comment> \<open>from index 55\<close>
     Some 0x0, Some 0x40, None]"

definition GENERATED_CLUSTER_COUNT :: nat where "GENERATED_CLUSTER_COUNT = 23"

definition clusters_endpoint0 :: "EmberAfCluster list" where
  "clusters_endpoint0 = [
     \<comment> \<open>Descriptor\<close>
     \<lparr>clusterId = 0x1D, attributes = 0, attributeCount = 6, clusterSize = 0,
      side = SERVER, functionArray = None, acceptedCommandList = None,
      generatedCommandList = None, eventList = None, eventCount = 0\<rparr>,
     \<comment> \<open>Access Control\<close>
     \<lparr>clusterId = 0x1F, attributes = 6, attributeCount = 7, clusterSize = 0,
      side = SERVER, functionArray = None, acceptedCommandList = None,
      generatedCommandList = None, eventList = None, eventCount = 0\<rparr>,
     \<comment> \<open>Basic Information\<close>
     \<lparr>clusterId = 0x28, attributes = 13, attributeCount = 20, clusterSize = 0,
      side = SERVER, functionArray = None, acceptedCommandList = None,
      generatedCommandList = None, eventList = Some 0, eventCount = 3\<rparr>,
     \<comment> \<open>OTA Software Update Provider\<close>
     \<lparr>clusterId = 0x29, attributes = 33, attributeCount = 0, clusterSize = 0,
      side = CLIENT, functionArray = None, acceptedCommandList = None,
      generatedCommandList = None, eventList = None, eventCount = 0\<rparr>,
     \<comment> \<open>OTA Software Update Requestor\<close>
     \<lparr>clusterId = 0x2A, attributes = 33, attributeCount = 6, clusterSize = 9,
      side = SERVER, functionArray = None, acceptedCommandList = Some 0,
      generatedCommandList = None, eventList = Some 3, eventCount = 3\<rparr>,
     \<comment> \<open>General Commissioning\<close>
     \<lparr>clusterId = 0x30, attributes = 39, attributeCount = 7, clusterSize = 0,
      side = SERVER, functionArray = None, acceptedCommandList = Some 2,
      generatedCommandList = Some 6, eventList = None, eventCount = 0\<rparr>,
     \<comment> \<open>Network Commissioning\<close>
     \<lparr>clusterId = 0x31, attributes = 46, attributeCount = 13, clusterSize = 0,
      side = SERVER, functionArray = None, acceptedCommandList = Some 10,
      generatedCommandList = Some 17, eventList = None, eventCount = 0\<rparr>,
     \<comment> \<open>General Diagnostics\<close>
     \<lparr>clusterId = 0x33, attributes = 59, attributeCount = 8, clusterSize = 0,
      side = SERVER, functionArray = None, acceptedCommandList = Some 21,
      generatedCommandList = Some 24, eventList = None, eventCount = 0\<rparr>,
     \<comment> \<open>Administrator Commissioning\<close>
     \<lparr>clusterId = 0x3C, attributes = 67, attributeCount = 5, clusterSize = 4,
      side = SERVER, functionArray = None, acceptedCommandList = Some 26,
      generatedCommandList = None, eventList = None, eventCount = 0\<rparr>,
     \<comment> \<open>Operational Credentials\<close>
     \<lparr>clusterId = 0x3E, attributes = 72, attributeCount = 8, clusterSize = 0,
      side = SERVER, functionArray = None, acceptedCommandList = Some 30,
      generatedCommandList = Some 41, eventList = None, eventCount = 0\<rparr>,
     \<comment> \<open>Group Key Management\<close>
     \<lparr>clusterId = 0x3F, attributes = 80, attributeCount = 6, clusterSize = 0,
      side = SERVER, functionArray = None, acceptedCommandList = Some 47,
      generatedCommandList = Some 52, eventList = None, eventCount = 0\<rparr>]"

definition clusters_endpoint1 :: "EmberAfCluster list" where
  "clusters_endpoint1 = [
     \<comment> \<open>Identify\<close>
     \<lparr>clusterId = 0x3, attributes = 86, attributeCount = 4, clusterSize = 0,
      side = SERVER, functionArray = None, acceptedCommandList = Some 55,
      generatedCommandList = None, eventList = None, eventCount = 0\<rparr>,
     \<comment> \<open>Descriptor\<close>
     \<lparr>clusterId = 0x1D, attributes = 90, attributeCount = 6, clusterSize = 0,
      side = SERVER, functionArray = None, acceptedCommandList = None,
      generatedCommandList = None, eventList = None, eventCount = 0\<rparr>,
     \<comment> \<open>Air Quality\<close>
     \<lparr>clusterId = 0x5B, attributes = 96, attributeCount = 3, clusterSize = 2,
      side = SERVER, functionArray = None, acceptedCommandList = None,
      generatedCommandList = None, eventList = None, eventCount = 0\<rparr>,
     \<comment> \<open>Temperature Measurement\<close>
     \<lparr>clusterId = 0x402, attributes = 99, attributeCount = 5, clusterSize = 12,
      side = SERVER, functionArray = None, acceptedCommandList = None,
      generatedCommandList = None, eventList = None, eventCount = 0\<rparr>,
     \<comment> \<open>Relative Humidity Measurement\<close>
     \<lparr>clusterId = 0x405, attributes = 104, attributeCount = 5, clusterSize = 12,
      side = SERVER, functionArray = None, acceptedCommandList = None,
      generatedCommandList = None, eventList = None, eventCount = 0\<rparr>,
     \<comment> \<open>Carbon Dioxide Concentration Measurement\<close>
     \<lparr>clusterId = 0x40D, attributes = 109, attributeCount = 7, clusterSize = 2,
      side = SERVER, functionArray = None, acceptedCommandList = None,
      generatedCommandList = None, eventList = None, eventCount = 0\<rparr>,
     \<comment> \<open>PM2.5 Concentration Measurement\<close>
     \<lparr>clusterId = 0x42A, attributes = 116, attributeCount = 7, clusterSize = 2,
      side = SERVER, functionArray = None, acceptedCommandList = None,
      generatedCommandList = None, eventList = None, eventCount = 0\<rparr>,
     \<comment> \<open>PM1 Concentration Measurement\<close>
     \<lparr>clusterId = 0x42C, attributes = 123, attributeCount = 7, clusterSize = 2,
      side = SERVER, functionArray = None, acceptedCommandList = None,
      generatedCommandList = None, eventList = None, eventCount = 0\<rparr>,
     \<comment> \<open>PM10 Concentration Measurement\<close>
     \<lparr>clusterId = 0x42D, attributes = 130, attributeCount = 7, clusterSize = 2,
      side = SERVER, functionArray = None, acceptedCommandList = None,
      generatedCommandList = None, eventList = None, eventCount = 0\<rparr>]"

definition clusters_endpoint2 :: "EmberAfCluster list" where
  "clusters_endpoint2 = [
     \<comment> \<open>Identify\<close>
     \<lparr>clusterId = 0x3, attributes = 137, attributeCount = 4, clusterSize = 0,
      side = SERVER, functionArray = None, acceptedCommandList = Some 57,
      generatedCommandList = None, eventList = None, eventCount = 0\<rparr>,
     \<comment> \<open>Descriptor\<close>
     \<lparr>clusterId = 0x1D, attributes = 141, attributeCount = 6, clusterSize = 0,
      side = SERVER, functionArray = None, acceptedCommandList = None,
      generatedCommandList = None, eventList = None, eventCount = 0\<rparr>,
     \<comment> \<open>Temperature Measurement\<close>
     \<lparr>clusterId = 0x402, attributes = 147, attributeCount = 5, clusterSize = 8,
      side = SERVER, functionArray = None, acceptedCommandList = None,
      generatedCommandList = None, eventList = None, eventCount = 0\<rparr>]"

definition GENERATED_CLUSTERS :: "EmberAfCluster list" where
  "GENERATED_CLUSTERS = clusters_endpoint0 @ clusters_endpoint1 @ clusters_endpoint2"

definition ZAP_FIXED_ENDPOINT_DATA_VERSION_COUNT :: nat where
  "ZAP_FIXED_ENDPOINT_DATA_VERSION_COUNT = 22"

definition GENERATED_ENDPOINT_TYPES :: "EmberAfEndpointType list" where
  "GENERATED_ENDPOINT_TYPES =
     [\<lparr>clusters = 0, clusterCount = 11, endpointSize = 13\<rparr>,
      \<lparr>clusters = 11, clusterCount = 9, endpointSize = 34\<rparr>,
      \<lparr>clusters = 20, clusterCount = 3, endpointSize = 8\<rparr>]"

definition ATTRIBUTE_LARGEST :: nat where "ATTRIBUTE_LARGEST = 66"
definition ATTRIBUTE_SINGLETONS_SIZE :: nat where "ATTRIBUTE_SINGLETONS_SIZE = 0"
definition ATTRIBUTE_MAX_SIZE :: nat where "ATTRIBUTE_MAX_SIZE = 55"

definition FIXED_ENDPOINT_COUNT :: nat where "FIXED_ENDPOINT_COUNT = 3"
definition FIXED_ENDPOINT_ARRAY :: "nat list" where "FIXED_ENDPOINT_ARRAY = [0x0, 0x1, 0x2]"
definition FIXED_PROFILE_IDS :: "nat list" where "FIXED_PROFILE_IDS = [0x0103, 0x0103, 0x0103]"

text \<open>Device type ids with their revisions, cut into the endpoints by offset and length.\<close>

definition FIXED_DEVICE_TYPES :: "(nat \<times> nat) list" where
  "FIXED_DEVICE_TYPES = [(0x12, 1), (0x16, 4), (0x2C, 1), (0x302, 1)]"
definition FIXED_DEVICE_TYPE_OFFSETS :: "nat list" where "FIXED_DEVICE_TYPE_OFFSETS = [0, 2, 3]"
definition FIXED_DEVICE_TYPE_LENGTHS :: "nat list" where "FIXED_DEVICE_TYPE_LENGTHS = [2, 1, 1]"
definition FIXED_ENDPOINT_TYPES :: "nat list" where "FIXED_ENDPOINT_TYPES = [0, 1, 2]"

text \<open>\<^verbatim>\<open>kInvalidEndpointId\<close>, no parent, is \<open>None\<close>.\<close>

definition FIXED_PARENT_ENDPOINTS :: "nat option list" where
  "FIXED_PARENT_ENDPOINTS = [None, None, None]"

end
