(* ===== verification/Data_Model.thy ===== *)
theory Data_Model
  imports Endpoint_Config
begin

text \<open>
  How the tables of \<^verbatim>\<open>endpoint_config.h\<close> are read, that they fit together, and that
  the adapter publishes into them.
\<close>

section \<open>Reading the tables\<close>

definition attributes_of :: "EmberAfCluster \<Rightarrow> EmberAfAttributeMetadata list" where
  "attributes_of c = take (attributeCount c) (drop (attributes c) GENERATED_ATTRIBUTES)"

definition clusters_of :: "EmberAfEndpointType \<Rightarrow> EmberAfCluster list" where
  "clusters_of t = take (clusterCount t) (drop (clusters t) GENERATED_CLUSTERS)"

definition events_of :: "EmberAfCluster \<Rightarrow> nat list" where
  "events_of c = (case eventList c of None \<Rightarrow> []
                  | Some i \<Rightarrow> take (eventCount c) (drop i GENERATED_EVENTS))"

text \<open>A command list ends at the first invalid id; running off the table is \<open>None\<close>.\<close>

fun commands_from :: "nat option list \<Rightarrow> nat list option" where
  "commands_from [] = None"
| "commands_from (None # cs) = Some []"
| "commands_from (Some c # cs) = map_option ((#) c) (commands_from cs)"

definition command_list :: "nat option \<Rightarrow> nat list option" where
  "command_list p = (case p of None \<Rightarrow> Some [] | Some i \<Rightarrow> commands_from (drop i GENERATED_COMMANDS))"

definition accepted :: "EmberAfCluster \<Rightarrow> nat list" where
  "accepted c = (case command_list (acceptedCommandList c) of None \<Rightarrow> [] | Some cs \<Rightarrow> cs)"

text \<open>The entries of the command table a pointer refers to, end mark included.\<close>

definition command_slots :: "nat option \<Rightarrow> nat option list" where
  "command_slots p =
     (if p = None then [] else
      case command_list p of None \<Rightarrow> [] | Some cs \<Rightarrow> map Some cs @ [None])"

definition device_types_of :: "nat \<Rightarrow> (nat \<times> nat) list" where
  "device_types_of e =
     take (FIXED_DEVICE_TYPE_LENGTHS ! e) (drop (FIXED_DEVICE_TYPE_OFFSETS ! e) FIXED_DEVICE_TYPES)"

definition is_stored :: "EmberAfAttributeMetadata \<Rightarrow> bool" where
  "is_stored a \<longleftrightarrow> EXTERNAL_STORAGE \<notin> set (attribute_mask a)"

definition stored_size :: "EmberAfAttributeMetadata list \<Rightarrow> nat" where
  "stored_size as = sum_list (map attribute_size (filter is_stored as))"

section \<open>The slices of the attribute table\<close>

text \<open>
  The lengths of the pieces turn \<open>take\<close> and \<open>drop\<close> over the whole table into a choice of a
  piece, which is never unfolded.
\<close>

lemmas table_lengths = attribute_tables [THEN arg_cong [where f = length], simplified]

named_theorems table_simps

lemma attributes_of_endpoint0 [table_simps]:
  "map attributes_of clusters_endpoint0 =
     [Descriptor0_attributes,
      AccessControl0_attributes,
      BasicInformation0_attributes,
      [],
      OtaSoftwareUpdateRequestor0_attributes,
      GeneralCommissioning0_attributes,
      NetworkCommissioning0_attributes,
      GeneralDiagnostics0_attributes,
      AdministratorCommissioning0_attributes,
      OperationalCredentials0_attributes,
      GroupKeyManagement0_attributes]"
  by (simp add: clusters_endpoint0_def attributes_of_def GENERATED_ATTRIBUTES_def table_lengths)

lemma attributes_of_endpoint1 [table_simps]:
  "map attributes_of clusters_endpoint1 =
     [Identify1_attributes,
      Descriptor1_attributes,
      AirQuality1_attributes,
      TemperatureMeasurement1_attributes,
      RelativeHumidityMeasurement1_attributes,
      CarbonDioxideConcentrationMeasurement1_attributes,
      Pm25ConcentrationMeasurement1_attributes,
      Pm1ConcentrationMeasurement1_attributes,
      Pm10ConcentrationMeasurement1_attributes]"
  by (simp add: clusters_endpoint1_def attributes_of_def GENERATED_ATTRIBUTES_def table_lengths)

lemma attributes_of_endpoint2 [table_simps]:
  "map attributes_of clusters_endpoint2 =
     [Identify2_attributes,
      Descriptor2_attributes,
      TemperatureMeasurement2_attributes]"
  by (simp add: clusters_endpoint2_def attributes_of_def GENERATED_ATTRIBUTES_def table_lengths)

lemma attributes_tile: "concat (map attributes_of GENERATED_CLUSTERS) = GENERATED_ATTRIBUTES"
  by (simp add: GENERATED_CLUSTERS_def table_simps GENERATED_ATTRIBUTES_def)

lemma length_GENERATED_ATTRIBUTES: "length GENERATED_ATTRIBUTES = 152"
  by (simp add: GENERATED_ATTRIBUTES_def table_lengths)

lemma length_clusters [table_simps]:
  "length clusters_endpoint0 = 11" "length clusters_endpoint1 = 9" "length clusters_endpoint2 = 3"
  by (simp_all add: clusters_endpoint0_def clusters_endpoint1_def clusters_endpoint2_def)

lemma clusters_of_types [table_simps]:
  "map clusters_of GENERATED_ENDPOINT_TYPES = [clusters_endpoint0, clusters_endpoint1, clusters_endpoint2]"
  by (simp add: GENERATED_ENDPOINT_TYPES_def clusters_of_def GENERATED_CLUSTERS_def length_clusters)

lemma commands_tile:
  "concat (map (\<lambda>c. command_slots (acceptedCommandList c) @ command_slots (generatedCommandList c))
     GENERATED_CLUSTERS) = GENERATED_COMMANDS"
  by (simp add: GENERATED_CLUSTERS_def clusters_endpoint0_def clusters_endpoint1_def
      clusters_endpoint2_def command_slots_def command_list_def GENERATED_COMMANDS_def)

lemma events_tile: "concat (map events_of GENERATED_CLUSTERS) = GENERATED_EVENTS"
  by (simp add: GENERATED_CLUSTERS_def clusters_endpoint0_def clusters_endpoint1_def
      clusters_endpoint2_def events_of_def GENERATED_EVENTS_def)

lemma stored_sizes [table_simps]:
  "map (stored_size \<circ> attributes_of) clusters_endpoint0 = map clusterSize clusters_endpoint0"
  "map (stored_size \<circ> attributes_of) clusters_endpoint1 = map clusterSize clusters_endpoint1"
  "map (stored_size \<circ> attributes_of) clusters_endpoint2 = map clusterSize clusters_endpoint2"
  unfolding map_map [symmetric] table_simps
  by (simp_all add: clusters_endpoint0_def clusters_endpoint1_def clusters_endpoint2_def
      stored_size_def is_stored_def attribute_tables)

text \<open>
  C38. The tables of the data model fit together.  The attribute slices of the clusters cover the
  attribute table from end to end without overlap, the cluster slices of the endpoint types
  cover the cluster table, the event slices and the terminated command lists cover theirs, and
  the device types are divided among the three endpoints; all counts are the lengths they name.
\<close>

theorem data_model_tables_tile:
  "concat (map attributes_of GENERATED_CLUSTERS) = GENERATED_ATTRIBUTES \<and>
   length GENERATED_ATTRIBUTES = GENERATED_ATTRIBUTE_COUNT \<and>
   concat (map clusters_of GENERATED_ENDPOINT_TYPES) = GENERATED_CLUSTERS \<and>
   length GENERATED_CLUSTERS = GENERATED_CLUSTER_COUNT \<and>
   concat (map events_of GENERATED_CLUSTERS) = GENERATED_EVENTS \<and>
   length GENERATED_EVENTS = GENERATED_EVENT_COUNT \<and>
   concat (map (\<lambda>c. command_slots (acceptedCommandList c) @ command_slots (generatedCommandList c))
     GENERATED_CLUSTERS) = GENERATED_COMMANDS \<and>
   concat (map device_types_of FIXED_ENDPOINT_TYPES) = FIXED_DEVICE_TYPES \<and>
   length (filter (\<lambda>c. side c = SERVER) GENERATED_CLUSTERS) = ZAP_FIXED_ENDPOINT_DATA_VERSION_COUNT \<and>
   map length [FIXED_ENDPOINT_ARRAY, FIXED_PROFILE_IDS, FIXED_ENDPOINT_TYPES,
     FIXED_DEVICE_TYPE_OFFSETS, FIXED_DEVICE_TYPE_LENGTHS] = replicate 5 FIXED_ENDPOINT_COUNT"
proof -
  have devices: "concat (map device_types_of FIXED_ENDPOINT_TYPES) = FIXED_DEVICE_TYPES"
    by (simp add: device_types_of_def FIXED_ENDPOINT_TYPES_def FIXED_DEVICE_TYPES_def
        FIXED_DEVICE_TYPE_LENGTHS_def FIXED_DEVICE_TYPE_OFFSETS_def)
  have servers: "length (filter (\<lambda>c. side c = SERVER) GENERATED_CLUSTERS) = 22"
    by (simp add: GENERATED_CLUSTERS_def clusters_endpoint0_def clusters_endpoint1_def
        clusters_endpoint2_def)
  have types: "concat (map clusters_of GENERATED_ENDPOINT_TYPES) = GENERATED_CLUSTERS"
    by (simp add: table_simps GENERATED_CLUSTERS_def)
  show ?thesis
    unfolding attributes_tile events_tile commands_tile devices servers types
    by (simp add: length_GENERATED_ATTRIBUTES GENERATED_ATTRIBUTE_COUNT_def GENERATED_CLUSTERS_def
        length_clusters GENERATED_CLUSTER_COUNT_def GENERATED_EVENTS_def GENERATED_EVENT_COUNT_def
        ZAP_FIXED_ENDPOINT_DATA_VERSION_COUNT_def FIXED_ENDPOINT_ARRAY_def FIXED_PROFILE_IDS_def
        FIXED_ENDPOINT_TYPES_def FIXED_DEVICE_TYPE_OFFSETS_def FIXED_DEVICE_TYPE_LENGTHS_def
        FIXED_ENDPOINT_COUNT_def numeral_eq_Suc)
qed

text \<open>
  The storage the tables reserve is the storage the attributes need: each cluster's size is
  the sum of its attributes kept in RAM, each endpoint's the sum of its clusters', the total is
  \<^verbatim>\<open>ATTRIBUTE_MAX_SIZE\<close>, and a buffer of \<^verbatim>\<open>ATTRIBUTE_LARGEST\<close> bytes holds any attribute.
\<close>

theorem data_model_storage_fits:
  "map clusterSize GENERATED_CLUSTERS = map (stored_size \<circ> attributes_of) GENERATED_CLUSTERS \<and>
   map endpointSize GENERATED_ENDPOINT_TYPES =
     map (\<lambda>t. stored_size (concat (map attributes_of (clusters_of t)))) GENERATED_ENDPOINT_TYPES \<and>
   stored_size GENERATED_ATTRIBUTES + ATTRIBUTE_SINGLETONS_SIZE = ATTRIBUTE_MAX_SIZE \<and>
   list_all (\<lambda>a. attribute_size a \<le> ATTRIBUTE_LARGEST) GENERATED_ATTRIBUTES"
proof -
  have append: "stored_size (xs @ ys) = stored_size xs + stored_size ys" for xs ys
    by (simp add: stored_size_def)
  have concat: "stored_size (concat (map attributes_of cs)) = sum_list (map (stored_size \<circ> attributes_of) cs)"
    for cs by (induction cs) (simp_all add: append, simp add: stored_size_def)
  have ends: "map endpointSize GENERATED_ENDPOINT_TYPES =
      map (\<lambda>t. stored_size (concat (map attributes_of t)))
        [clusters_endpoint0, clusters_endpoint1, clusters_endpoint2]"
    by (simp only: list.map concat stored_sizes)
      (simp add: GENERATED_ENDPOINT_TYPES_def clusters_endpoint0_def clusters_endpoint1_def
        clusters_endpoint2_def)
  moreover have "stored_size GENERATED_ATTRIBUTES = 55"
    using concat [of GENERATED_CLUSTERS]
    unfolding attributes_tile unfolding GENERATED_CLUSTERS_def map_append stored_sizes
    by (simp add: clusters_endpoint0_def clusters_endpoint1_def clusters_endpoint2_def)
  moreover have "list_all (\<lambda>a. attribute_size a \<le> ATTRIBUTE_LARGEST) GENERATED_ATTRIBUTES"
    by (simp add: GENERATED_ATTRIBUTES_def attribute_tables ATTRIBUTE_LARGEST_def)
  moreover have "map clusterSize GENERATED_CLUSTERS = map (stored_size \<circ> attributes_of) GENERATED_CLUSTERS"
    unfolding GENERATED_CLUSTERS_def map_append stored_sizes ..
  ultimately show ?thesis
    using arg_cong [OF clusters_of_types, of "map (\<lambda>cs. stored_size (concat (map attributes_of cs)))"]
    by (simp add: ATTRIBUTE_MAX_SIZE_def ATTRIBUTE_SINGLETONS_SIZE_def comp_def)
qed

section \<open>Where the adapter writes\<close>

text \<open>
  The clusters of the device by the namespaces of the Matter SDK, with the ids the tables give
  them (\<^verbatim>\<open>app::Clusters::<name>::Id\<close>).
\<close>

datatype cluster_name =
    Identify | Descriptor | AccessControl | BasicInformation | OtaSoftwareUpdateProvider
  | OtaSoftwareUpdateRequestor | GeneralCommissioning | NetworkCommissioning | GeneralDiagnostics
  | AdministratorCommissioning | OperationalCredentials | GroupKeyManagement | AirQuality
  | TemperatureMeasurement | RelativeHumidityMeasurement | CarbonDioxideConcentrationMeasurement
  | Pm25ConcentrationMeasurement | Pm1ConcentrationMeasurement | Pm10ConcentrationMeasurement

primrec Id :: "cluster_name \<Rightarrow> nat" where
  "Id Identify = 0x3"
| "Id Descriptor = 0x1D"
| "Id AccessControl = 0x1F"
| "Id BasicInformation = 0x28"
| "Id OtaSoftwareUpdateProvider = 0x29"
| "Id OtaSoftwareUpdateRequestor = 0x2A"
| "Id GeneralCommissioning = 0x30"
| "Id NetworkCommissioning = 0x31"
| "Id GeneralDiagnostics = 0x33"
| "Id AdministratorCommissioning = 0x3C"
| "Id OperationalCredentials = 0x3E"
| "Id GroupKeyManagement = 0x3F"
| "Id AirQuality = 0x5B"
| "Id TemperatureMeasurement = 0x402"
| "Id RelativeHumidityMeasurement = 0x405"
| "Id CarbonDioxideConcentrationMeasurement = 0x40D"
| "Id Pm25ConcentrationMeasurement = 0x42A"
| "Id Pm1ConcentrationMeasurement = 0x42C"
| "Id Pm10ConcentrationMeasurement = 0x42D"

lemma Id_eq_iff [simp]: "Id a = Id b \<longleftrightarrow> a = b"
  by (cases a; cases b) simp_all

text \<open>The cluster objects of the adapter: endpoint, cluster, medium and unit.\<close>

datatype measurement_medium = kAir
datatype measurement_unit = kPpm | kUgm3

record ConcentrationInstance =
  instance_endpoint :: nat
  instance_cluster :: nat
  instance_medium :: measurement_medium
  instance_unit :: measurement_unit

primrec instance_of :: "concentration \<Rightarrow> ConcentrationInstance" where
  "instance_of sCo2Instance =
     \<lparr>instance_endpoint = kEndpointId, instance_cluster = Id CarbonDioxideConcentrationMeasurement,
      instance_medium = kAir, instance_unit = kPpm\<rparr>"
| "instance_of sPm1Instance =
     \<lparr>instance_endpoint = kEndpointId, instance_cluster = Id Pm1ConcentrationMeasurement,
      instance_medium = kAir, instance_unit = kUgm3\<rparr>"
| "instance_of sPm25Instance =
     \<lparr>instance_endpoint = kEndpointId, instance_cluster = Id Pm25ConcentrationMeasurement,
      instance_medium = kAir, instance_unit = kUgm3\<rparr>"
| "instance_of sPm10Instance =
     \<lparr>instance_endpoint = kEndpointId, instance_cluster = Id Pm10ConcentrationMeasurement,
      instance_medium = kAir, instance_unit = kUgm3\<rparr>"

text \<open>The air-quality object, with the optional levels it is given as features.\<close>

datatype air_quality_feature = kFair_feature | kModerate_feature | kVeryPoor_feature | kExtremelyPoor_feature

definition sAirQualityInstance :: "nat \<times> air_quality_feature list" where
  "sAirQualityInstance =
     (kEndpointId, [kFair_feature, kModerate_feature, kVeryPoor_feature, kExtremelyPoor_feature])"

text \<open>
  The levels the Matter air-quality cluster can show with these features: unknown, good and
  poor are always there, each feature adds one.
\<close>

primrec feature_level :: "air_quality_feature \<Rightarrow> AirQualityLevel" where
  "feature_level kFair_feature = kFair"
| "feature_level kModerate_feature = kModerate"
| "feature_level kVeryPoor_feature = kVeryPoor"
| "feature_level kExtremelyPoor_feature = kExtremelyPoor"

definition supported_levels :: "AirQualityLevel list" where
  "supported_levels = [kUnknown, kGood, kPoor] @ map feature_level (snd sAirQualityInstance)"

text \<open>Endpoint, cluster and attribute id of an attribute the adapter writes.\<close>

primrec place :: "attribute \<Rightarrow> nat \<times> nat \<times> nat" where
  "place (TemperatureMeasuredValue e) = (e, Id TemperatureMeasurement, 0x0)"
| "place (HumidityMeasuredValue e) = (e, Id RelativeHumidityMeasurement, 0x0)"
| "place (ConcentrationMeasuredValue c) =
     (instance_endpoint (instance_of c), instance_cluster (instance_of c), 0x0)"
| "place AirQualityValue = (fst sAirQualityInstance, Id AirQuality, 0x0)"

text \<open>
  Looking a place up in the tables: the endpoint's index, its type, the server cluster of that
  id among the clusters of the type, the attribute in the cluster's slice.
\<close>

definition endpoint_clusters :: "nat \<Rightarrow> EmberAfCluster list" where
  "endpoint_clusters e =
     (case find (\<lambda>i. FIXED_ENDPOINT_ARRAY ! i = e) [0..<FIXED_ENDPOINT_COUNT] of None \<Rightarrow> []
      | Some i \<Rightarrow> clusters_of (GENERATED_ENDPOINT_TYPES ! (FIXED_ENDPOINT_TYPES ! i)))"

definition find_server :: "nat \<Rightarrow> nat \<Rightarrow> EmberAfCluster option" where
  "find_server e c = find (\<lambda>k. clusterId k = c \<and> side k = SERVER) (endpoint_clusters e)"

definition find_attribute :: "nat \<times> nat \<times> nat \<Rightarrow> EmberAfAttributeMetadata option" where
  "find_attribute p =
     (let (e, c, x) = p in
      case find_server e c of None \<Rightarrow> None
      | Some k \<Rightarrow> find (\<lambda>a. attribute_id a = x) (attributes_of k))"

text \<open>
  A value fits an attribute when the table gives it the value's type and width, and null only
  where the attribute is nullable.  The accessors of the temperature and humidity clusters write
  the stack's own attribute store, the cluster objects keep their values themselves; the table
  has to mark the attribute accordingly.
\<close>

primrec fits :: "attribute_value \<Rightarrow> EmberAfAttributeMetadata \<Rightarrow> bool" where
  "fits Null md \<longleftrightarrow> NULLABLE \<in> set (attribute_mask md)"
| "fits (Int16 x) md \<longleftrightarrow> attribute_type md = TEMPERATURE \<and> attribute_size md = 2"
| "fits (Uint16 x) md \<longleftrightarrow> attribute_type md = INT16U \<and> attribute_size md = 2"
| "fits (Single r) md \<longleftrightarrow> attribute_type md = SINGLE \<and> attribute_size md = 4"
| "fits (Enum8 x) md \<longleftrightarrow> attribute_type md = ENUM8 \<and> attribute_size md = 1 \<and>
     x \<in> set (map level_u8 supported_levels)"

primrec kept_where :: "attribute \<Rightarrow> EmberAfAttributeMetadata \<Rightarrow> bool" where
  "kept_where (TemperatureMeasuredValue e) md = is_stored md"
| "kept_where (HumidityMeasuredValue e) md = is_stored md"
| "kept_where (ConcentrationMeasuredValue c) md = (\<not> is_stored md)"
| "kept_where AirQualityValue md = (\<not> is_stored md)"

definition declared :: "attribute_write \<Rightarrow> bool" where
  "declared x =
     (case find_attribute (place (fst (written x))) of None \<Rightarrow> False
      | Some md \<Rightarrow> READABLE \<in> set (attribute_mask md) \<and> fits (snd (written x)) md \<and>
          kept_where (fst (written x)) md)"

lemmas endpoint_simps =
  endpoint_clusters_def find_server_def FIXED_ENDPOINT_ARRAY_def FIXED_ENDPOINT_COUNT_def
  FIXED_ENDPOINT_TYPES_def

lemma clusters_of_type [table_simps]:
  "clusters_of (GENERATED_ENDPOINT_TYPES ! 0) = clusters_endpoint0"
  "clusters_of (GENERATED_ENDPOINT_TYPES ! 1) = clusters_endpoint1"
  "clusters_of (GENERATED_ENDPOINT_TYPES ! 2) = clusters_endpoint2"
  using clusters_of_types by (simp_all add: GENERATED_ENDPOINT_TYPES_def)

lemma endpoint_clusters [table_simps]:
  "endpoint_clusters 0 = clusters_endpoint0"
  "endpoint_clusters 1 = clusters_endpoint1"
  "endpoint_clusters 2 = clusters_endpoint2"
  using clusters_of_type by (simp_all add: endpoint_simps upt_rec numeral_eq_Suc)

lemmas find_simps =
  find_attribute_def find_server_def endpoint_clusters attributes_of_def GENERATED_ATTRIBUTES_def
  table_lengths

lemma published_places [table_simps]:
  "find_attribute (1, Id TemperatureMeasurement, 0x0) =
     Some (Attribute (ZAP_SIMPLE_DEFAULT 0x8000) 0x0 2 TEMPERATURE [READABLE, NULLABLE])"
  "find_attribute (2, Id TemperatureMeasurement, 0x0) =
     Some (Attribute (ZAP_SIMPLE_DEFAULT 0x8000) 0x0 2 TEMPERATURE [READABLE, NULLABLE])"
  "find_attribute (1, Id RelativeHumidityMeasurement, 0x0) =
     Some (Attribute (ZAP_SIMPLE_DEFAULT 0xFFFF) 0x0 2 INT16U [READABLE, NULLABLE])"
  "find_attribute (1, Id AirQuality, 0x0) =
     Some (Attribute ZAP_EMPTY_DEFAULT 0x0 1 ENUM8 [EXTERNAL_STORAGE, READABLE])"
  "find_attribute (1, Id CarbonDioxideConcentrationMeasurement, 0x0) =
     Some (Attribute ZAP_EMPTY_DEFAULT 0x0 4 SINGLE [EXTERNAL_STORAGE, READABLE, NULLABLE])"
  "find_attribute (1, Id Pm25ConcentrationMeasurement, 0x0) =
     Some (Attribute ZAP_EMPTY_DEFAULT 0x0 4 SINGLE [EXTERNAL_STORAGE, READABLE, NULLABLE])"
  "find_attribute (1, Id Pm1ConcentrationMeasurement, 0x0) =
     Some (Attribute ZAP_EMPTY_DEFAULT 0x0 4 SINGLE [EXTERNAL_STORAGE, READABLE, NULLABLE])"
  "find_attribute (1, Id Pm10ConcentrationMeasurement, 0x0) =
     Some (Attribute ZAP_EMPTY_DEFAULT 0x0 4 SINGLE [EXTERNAL_STORAGE, READABLE, NULLABLE])"
  by (simp_all add: find_simps [unfolded One_nat_def] clusters_endpoint1_def clusters_endpoint2_def
      attribute_tables)

lemma declared_attribute_writes: "list_all declared (attribute_writes m)"
proof -
  have supported: "level_u8 l \<in> set (map level_u8 supported_levels)" for l
    by (cases l) (simp_all add: supported_levels_def sAirQualityInstance_def)
  have temperature: "declared (TemperatureSet e x)" "declared (TemperatureSetNull e)" if "e \<in> {1, 2}" for e x
    using that table_simps by (auto simp: declared_def is_stored_def)
  have humidity: "declared (HumiditySet 1 x)" "declared (HumiditySetNull 1)" for x
    using table_simps by (simp_all add: declared_def is_stored_def)
  have concentration: "declared (SetMeasuredValue c x)" for c x
    using table_simps by (cases c; cases x) (simp_all add: declared_def is_stored_def kEndpointId_def)
  have level: "declared (UpdateAirQuality (level_u8 l))" for l
    using table_simps supported [of l]
    by (simp add: declared_def is_stored_def sAirQualityInstance_def kEndpointId_def)
  show ?thesis
    using temperature humidity concentration level by (simp add: attribute_writes_def)
qed

text \<open>
  C36. Whatever the sensor measured, the adapter writes only attributes the data model declares:
  on an endpoint and server cluster of the tables, with the type and width given there, null
  only to nullable ones, an air-quality level only among those the cluster's features allow,
  and each attribute kept where the table says it is (in the attribute store or by the object).
\<close>

theorem published_values_are_declared:
  "\<exists>ws. history (snd (run E ApplyLatestMeasurement w)) = history w @ fetched w @ map (Did \<circ> WriteAttribute) ws \<and>
     list_all declared ws"
  using declared_attribute_writes [of "measurement (snap w)"]
  by (cases "everValid (snap w)") (auto simp: run_ApplyLatestMeasurement intro: exI [of _ "[]"])

end
