(* ===== verification/Cluster_Dispatch.thy ===== *)
theory Cluster_Dispatch
  imports Data_Model
begin

text \<open>
  The generated code that connects the Matter stack with the clusters of the device:
  \<^verbatim>\<open>IMClusterCommandHandler.cpp\<close> dispatches the commands of the clusters that have no
  handler of their own, \<^verbatim>\<open>CodeDrivenInitShutdown.cpp\<close> and \<^verbatim>\<open>callback-stub.cpp\<close> choose
  the callbacks by which a cluster is set up and taken down, and \<^verbatim>\<open>access.h\<close> lists the
  privileges beyond the default.  The callbacks themselves belong to the stack: calls of them
  are recorded, or they are parameters.
\<close>

section \<open>Command dispatch\<close>

datatype status = Success | UnsupportedCommand | InvalidCommand | UnsupportedCluster

text \<open>
  \<^verbatim>\<open>chip::app::ConcreteCommandPath\<close> is a struct of the stack, not of this repository; these are its
  three ids, of which the code reads the cluster and the command.
\<close>

record ConcreteCommandPath =
  mEndpointId :: nat
  mClusterId :: nat
  mCommandId :: nat

text \<open>\<^verbatim>\<open>Commands::AnnounceOTAProvider::Id\<close>, the id the command table gives it.\<close>

definition AnnounceOTAProvider_Id :: nat where "AnnounceOTAProvider_Id = 0x0"

text \<open>
  The decoder of the command's fields and the command's callback belong to the stack.  The
  decoder returns an error code and the decoded data; the callback gets the handler object
  (here its state \<open>'h\<close>), the path and the data, and tells whether it handled the command.
\<close>

definition DispatchServerCommand ::
  "('tlv \<Rightarrow> int \<times> 'data) \<Rightarrow> ('h \<Rightarrow> ConcreteCommandPath \<Rightarrow> 'data \<Rightarrow> bool \<times> 'h) \<Rightarrow>
   'h \<Rightarrow> ConcreteCommandPath \<Rightarrow> 'tlv \<Rightarrow> status \<times> 'h" where
  "DispatchServerCommand Decode AnnounceOTAProviderCallback apCommandObj aCommandPath aDataTlv =
     (if mCommandId aCommandPath = AnnounceOTAProvider_Id then
        (let (TLVError, commandData) = Decode aDataTlv;
             (wasHandled, apCommandObj') =
               (if TLVError = CHIP_NO_ERROR
                then AnnounceOTAProviderCallback apCommandObj aCommandPath commandData
                else (False, apCommandObj))
         in if TLVError \<noteq> CHIP_NO_ERROR \<or> \<not> wasHandled then (InvalidCommand, apCommandObj')
            else (Success, apCommandObj'))
      else (UnsupportedCommand, apCommandObj))"

definition DispatchSingleClusterCommand ::
  "('tlv \<Rightarrow> int \<times> 'data) \<Rightarrow> ('h \<Rightarrow> ConcreteCommandPath \<Rightarrow> 'data \<Rightarrow> bool \<times> 'h) \<Rightarrow>
   ('h \<Rightarrow> ConcreteCommandPath \<Rightarrow> status \<Rightarrow> 'h) \<Rightarrow>
   ConcreteCommandPath \<Rightarrow> 'tlv \<Rightarrow> 'h \<Rightarrow> 'h" where
  "DispatchSingleClusterCommand Decode AnnounceOTAProviderCallback AddStatus
     aCommandPath aReader apCommandObj =
     (let (errorStatus, apCommandObj') =
        (if mClusterId aCommandPath = Id OtaSoftwareUpdateRequestor
         then DispatchServerCommand Decode AnnounceOTAProviderCallback apCommandObj aCommandPath aReader
         else (UnsupportedCluster, apCommandObj))
      in if errorStatus \<noteq> Success then AddStatus apCommandObj' aCommandPath errorStatus
         else apCommandObj')"

section \<open>Cluster callbacks\<close>

text \<open>A call of a cluster's callback, with the endpoint it is called for.\<close>

datatype callback_call =
    emberAfClusterInit cluster_name nat
  | MatterClusterInit cluster_name nat
  | MatterClusterShutdown cluster_name nat

definition MatterClusterServerInitCallback :: "nat \<Rightarrow> nat \<Rightarrow> callback_call list" where
  "MatterClusterServerInitCallback endpoint cluster =
     (if cluster = Id Identify then [MatterClusterInit Identify endpoint]
      else if cluster = Id Descriptor then [MatterClusterInit Descriptor endpoint]
      else if cluster = Id AccessControl then [MatterClusterInit AccessControl endpoint]
      else if cluster = Id BasicInformation then [MatterClusterInit BasicInformation endpoint]
      else if cluster = Id GeneralCommissioning then [MatterClusterInit GeneralCommissioning endpoint]
      else if cluster = Id GeneralDiagnostics then [MatterClusterInit GeneralDiagnostics endpoint]
      else if cluster = Id AdministratorCommissioning
        then [MatterClusterInit AdministratorCommissioning endpoint]
      else if cluster = Id OperationalCredentials
        then [MatterClusterInit OperationalCredentials endpoint]
      else if cluster = Id GroupKeyManagement then [MatterClusterInit GroupKeyManagement endpoint]
      else [])"

definition MatterClusterServerShutdownCallback :: "nat \<Rightarrow> nat \<Rightarrow> callback_call list" where
  "MatterClusterServerShutdownCallback endpoint cluster =
     (if cluster = Id Identify then [MatterClusterShutdown Identify endpoint]
      else if cluster = Id Descriptor then [MatterClusterShutdown Descriptor endpoint]
      else if cluster = Id AccessControl then [MatterClusterShutdown AccessControl endpoint]
      else if cluster = Id BasicInformation then [MatterClusterShutdown BasicInformation endpoint]
      else if cluster = Id GeneralCommissioning
        then [MatterClusterShutdown GeneralCommissioning endpoint]
      else if cluster = Id GeneralDiagnostics then [MatterClusterShutdown GeneralDiagnostics endpoint]
      else if cluster = Id AdministratorCommissioning
        then [MatterClusterShutdown AdministratorCommissioning endpoint]
      else if cluster = Id OperationalCredentials
        then [MatterClusterShutdown OperationalCredentials endpoint]
      else if cluster = Id GroupKeyManagement then [MatterClusterShutdown GroupKeyManagement endpoint]
      else [])"

definition emberAfClusterInitCallback :: "nat \<Rightarrow> nat \<Rightarrow> callback_call list" where
  "emberAfClusterInitCallback endpoint cluster =
     (if cluster = Id AccessControl then [emberAfClusterInit AccessControl endpoint]
      else if cluster = Id AdministratorCommissioning
        then [emberAfClusterInit AdministratorCommissioning endpoint]
      else if cluster = Id AirQuality then [emberAfClusterInit AirQuality endpoint]
      else if cluster = Id BasicInformation then [emberAfClusterInit BasicInformation endpoint]
      else if cluster = Id CarbonDioxideConcentrationMeasurement
        then [emberAfClusterInit CarbonDioxideConcentrationMeasurement endpoint]
      else if cluster = Id Descriptor then [emberAfClusterInit Descriptor endpoint]
      else if cluster = Id GeneralCommissioning
        then [emberAfClusterInit GeneralCommissioning endpoint]
      else if cluster = Id GeneralDiagnostics then [emberAfClusterInit GeneralDiagnostics endpoint]
      else if cluster = Id GroupKeyManagement then [emberAfClusterInit GroupKeyManagement endpoint]
      else if cluster = Id Identify then [emberAfClusterInit Identify endpoint]
      else if cluster = Id NetworkCommissioning
        then [emberAfClusterInit NetworkCommissioning endpoint]
      else if cluster = Id OtaSoftwareUpdateProvider
        then [emberAfClusterInit OtaSoftwareUpdateProvider endpoint]
      else if cluster = Id OtaSoftwareUpdateRequestor
        then [emberAfClusterInit OtaSoftwareUpdateRequestor endpoint]
      else if cluster = Id OperationalCredentials
        then [emberAfClusterInit OperationalCredentials endpoint]
      else if cluster = Id Pm1ConcentrationMeasurement
        then [emberAfClusterInit Pm1ConcentrationMeasurement endpoint]
      else if cluster = Id Pm10ConcentrationMeasurement
        then [emberAfClusterInit Pm10ConcentrationMeasurement endpoint]
      else if cluster = Id Pm25ConcentrationMeasurement
        then [emberAfClusterInit Pm25ConcentrationMeasurement endpoint]
      else if cluster = Id RelativeHumidityMeasurement
        then [emberAfClusterInit RelativeHumidityMeasurement endpoint]
      else if cluster = Id TemperatureMeasurement
        then [emberAfClusterInit TemperatureMeasurement endpoint]
      else [])"

text \<open>
  The weak definitions of the \<^verbatim>\<open>emberAf...ClusterInitCallback\<close> functions ignore the endpoint
  and do nothing; a strong definition elsewhere (the parameter \<open>strong\<close>) replaces them.
\<close>

primrec weak_init_callback :: "cluster_name \<Rightarrow> nat \<Rightarrow> 's \<Rightarrow> 's" where
  "weak_init_callback AccessControl endpoint = (\<lambda>s. s)"
| "weak_init_callback AdministratorCommissioning endpoint = (\<lambda>s. s)"
| "weak_init_callback AirQuality endpoint = (\<lambda>s. s)"
| "weak_init_callback BasicInformation endpoint = (\<lambda>s. s)"
| "weak_init_callback CarbonDioxideConcentrationMeasurement endpoint = (\<lambda>s. s)"
| "weak_init_callback Descriptor endpoint = (\<lambda>s. s)"
| "weak_init_callback GeneralCommissioning endpoint = (\<lambda>s. s)"
| "weak_init_callback GeneralDiagnostics endpoint = (\<lambda>s. s)"
| "weak_init_callback GroupKeyManagement endpoint = (\<lambda>s. s)"
| "weak_init_callback Identify endpoint = (\<lambda>s. s)"
| "weak_init_callback NetworkCommissioning endpoint = (\<lambda>s. s)"
| "weak_init_callback OtaSoftwareUpdateProvider endpoint = (\<lambda>s. s)"
| "weak_init_callback OtaSoftwareUpdateRequestor endpoint = (\<lambda>s. s)"
| "weak_init_callback OperationalCredentials endpoint = (\<lambda>s. s)"
| "weak_init_callback Pm1ConcentrationMeasurement endpoint = (\<lambda>s. s)"
| "weak_init_callback Pm10ConcentrationMeasurement endpoint = (\<lambda>s. s)"
| "weak_init_callback Pm25ConcentrationMeasurement endpoint = (\<lambda>s. s)"
| "weak_init_callback RelativeHumidityMeasurement endpoint = (\<lambda>s. s)"
| "weak_init_callback TemperatureMeasurement endpoint = (\<lambda>s. s)"

primrec run_callback ::
  "(cluster_name \<rightharpoonup> (nat \<Rightarrow> 's \<Rightarrow> 's)) \<Rightarrow> (callback_call \<Rightarrow> 's \<Rightarrow> 's) \<Rightarrow> callback_call \<Rightarrow> 's \<Rightarrow> 's" where
  "run_callback strong stack (emberAfClusterInit c e) =
     (case strong c of None \<Rightarrow> weak_init_callback c e | Some f \<Rightarrow> f e)"
| "run_callback strong stack (MatterClusterInit c e) = stack (MatterClusterInit c e)"
| "run_callback strong stack (MatterClusterShutdown c e) = stack (MatterClusterShutdown c e)"

section \<open>Access control\<close>

datatype privilege = kView | kOperate | kManage | kAdminister

text \<open>
  Parallel arrays: the cluster, the attribute (command, event), the privilege.  What is not
  listed has the default privilege, view for reading and operate for the rest.
\<close>

definition GENERATED_ACCESS_READ_ATTRIBUTE__CLUSTER :: "nat list" where
  "GENERATED_ACCESS_READ_ATTRIBUTE__CLUSTER =
     [0x1F, 0x1F, 0x31, 0x31, 0x31, 0x31, 0x31, 0x3E]"

definition GENERATED_ACCESS_READ_ATTRIBUTE__ATTRIBUTE :: "nat list" where
  "GENERATED_ACCESS_READ_ATTRIBUTE__ATTRIBUTE =
     [0x0, 0x1, 0x0, 0x1, 0x5, 0x6, 0x7, 0x0]"

definition GENERATED_ACCESS_READ_ATTRIBUTE__PRIVILEGE :: "privilege list" where
  "GENERATED_ACCESS_READ_ATTRIBUTE__PRIVILEGE =
     [kAdminister, kAdminister, kAdminister, kAdminister, kAdminister, kAdminister,
      kAdminister, kAdminister]"

definition GENERATED_ACCESS_WRITE_ATTRIBUTE__CLUSTER :: "nat list" where
  "GENERATED_ACCESS_WRITE_ATTRIBUTE__CLUSTER =
     [0x1F, 0x1F, 0x28, 0x28, 0x2A, 0x30, 0x31, 0x3F]"

definition GENERATED_ACCESS_WRITE_ATTRIBUTE__ATTRIBUTE :: "nat list" where
  "GENERATED_ACCESS_WRITE_ATTRIBUTE__ATTRIBUTE =
     [0x0, 0x1, 0x5, 0x6, 0x0, 0x0, 0x4, 0x0]"

definition GENERATED_ACCESS_WRITE_ATTRIBUTE__PRIVILEGE :: "privilege list" where
  "GENERATED_ACCESS_WRITE_ATTRIBUTE__PRIVILEGE =
     [kAdminister, kAdminister, kManage, kAdminister, kAdminister, kAdminister,
      kAdminister, kManage]"

definition GENERATED_ACCESS_INVOKE_COMMAND__CLUSTER :: "nat list" where
  "GENERATED_ACCESS_INVOKE_COMMAND__CLUSTER =
     [0x3, 0x3, 0x2A, 0x30, 0x30, 0x30, 0x31, 0x31, 0x31, 0x31, 0x31, 0x31, 0x33, 0x3C,
      0x3C, 0x3C, 0x3E, 0x3E, 0x3E, 0x3E, 0x3E, 0x3E, 0x3E, 0x3E, 0x3E, 0x3E, 0x3F, 0x3F,
      0x3F, 0x3F]"

definition GENERATED_ACCESS_INVOKE_COMMAND__COMMAND :: "nat list" where
  "GENERATED_ACCESS_INVOKE_COMMAND__COMMAND =
     [0x0, 0x40, 0x0, 0x0, 0x2, 0x4, 0x0, 0x2, 0x3, 0x4, 0x6, 0x8, 0x0, 0x0, 0x1, 0x2,
      0x0, 0x2, 0x4, 0x6, 0x7, 0x9, 0xA, 0xB, 0xC, 0xD, 0x0, 0x1, 0x3, 0x4]"

definition GENERATED_ACCESS_INVOKE_COMMAND__PRIVILEGE :: "privilege list" where
  "GENERATED_ACCESS_INVOKE_COMMAND__PRIVILEGE =
     [kManage, kManage, kAdminister, kAdminister, kAdminister, kAdminister, kAdminister,
      kAdminister, kAdminister, kAdminister, kAdminister, kAdminister, kManage,
      kAdminister, kAdminister, kAdminister, kAdminister, kAdminister, kAdminister,
      kAdminister, kAdminister, kAdminister, kAdminister, kAdminister, kAdminister,
      kAdminister, kAdminister, kAdminister, kAdminister, kAdminister]"

definition GENERATED_ACCESS_READ_EVENT__CLUSTER :: "nat list" where
  "GENERATED_ACCESS_READ_EVENT__CLUSTER =
     [0x1F, 0x1F, 0x1F]"

definition GENERATED_ACCESS_READ_EVENT__EVENT :: "nat list" where
  "GENERATED_ACCESS_READ_EVENT__EVENT =
     [0x0, 0x1, 0x2]"

definition GENERATED_ACCESS_READ_EVENT__PRIVILEGE :: "privilege list" where
  "GENERATED_ACCESS_READ_EVENT__PRIVILEGE =
     [kAdminister, kAdminister, kAdminister]"


section \<open>Lemmas on the tables\<close>

text \<open>The commands a cluster of this id accepts, anywhere on the device.\<close>

definition accepted_ids :: "nat \<Rightarrow> nat list" where
  "accepted_ids c = concat (map accepted (filter (\<lambda>k. clusterId k = c \<and> side k = SERVER) GENERATED_CLUSTERS))"

lemma accepted_OtaSoftwareUpdateRequestor: "accepted_ids (Id OtaSoftwareUpdateRequestor) = [0x0]"
  by (simp add: accepted_ids_def GENERATED_CLUSTERS_def clusters_endpoint0_def clusters_endpoint1_def
      clusters_endpoint2_def accepted_def command_list_def GENERATED_COMMANDS_def)

text \<open>The call that takes a code-driven cluster down again.\<close>

primrec taken_down :: "callback_call \<Rightarrow> callback_call" where
  "taken_down (MatterClusterInit c e) = MatterClusterShutdown c e"
| "taken_down (emberAfClusterInit c e) = emberAfClusterInit c e"
| "taken_down (MatterClusterShutdown c e) = MatterClusterShutdown c e"

lemma emberAfClusterInitCallback_Id [simp]:
  "emberAfClusterInitCallback endpoint (Id n) = [emberAfClusterInit n endpoint]"
  unfolding emberAfClusterInitCallback_def Id_eq_iff by (cases n) simp_all

lemma cluster_ids_named: "list_all (\<lambda>k. clusterId k \<in> range Id) GENERATED_CLUSTERS"
proof -
  have named: "c \<in> range Id" if "Id n = c" for c n using that by auto
  show ?thesis
    by (simp add: GENERATED_CLUSTERS_def clusters_endpoint0_def clusters_endpoint1_def clusters_endpoint2_def)
      (intro conjI; rule named; rule Id.simps)
qed

lemma Shutdown_taken_down:
  "MatterClusterServerShutdownCallback endpoint c = map taken_down (MatterClusterServerInitCallback endpoint c)"
  by (simp add: MatterClusterServerShutdownCallback_def MatterClusterServerInitCallback_def
      del: Id.simps)

text \<open>The endpoint and cluster an initialisation of the adapter is for.\<close>

fun init_place :: "query \<Rightarrow> (nat \<times> nat) list" where
  "init_place (IdentifyInit e) = [(e, Id Identify)]"
| "init_place AirQualityInit = [(fst sAirQualityInstance, Id AirQuality)]"
| "init_place (ConcentrationInit c) = [(instance_endpoint (instance_of c), instance_cluster (instance_of c))]"
| "init_place _ = []"

definition init_places :: "event list \<Rightarrow> (nat \<times> nat) list" where
  "init_places es = concat (map init_place (queries es))"

text \<open>
  A cluster is served when an initialisation among the events \<open>es\<close> or a code-driven callback
  sets it up.
\<close>

definition served_after :: "event list \<Rightarrow> nat \<Rightarrow> nat \<Rightarrow> bool" where
  "served_after es e c \<longleftrightarrow> MatterClusterServerInitCallback e c \<noteq> [] \<or> (e, c) \<in> set (init_places es)"

text \<open>Attributes kept outside the attribute store that nothing in the repository serves then.\<close>

definition unserved_after :: "event list \<Rightarrow> nat \<Rightarrow> (nat \<times> nat) list" where
  "unserved_after es e =
     concat (map (\<lambda>k. if served_after es e (clusterId k) then []
        else map (\<lambda>a. (clusterId k, attribute_id a)) (filter (Not \<circ> is_stored) (attributes_of k)))
       (endpoint_clusters e))"

section \<open>Properties of the dispatch code\<close>

text \<open>
  C40. Command dispatch agrees with the command table.  A command of another cluster than the OTA
  requestor is answered with unsupported-cluster, a command the table does not list for that
  cluster with unsupported-command, undecodable fields and a refusal by the callback with
  invalid-command; the callback runs only on decoded data, and only a handled command gets no
  status from here.
\<close>

theorem dispatch_agrees_with_command_table:
  "DispatchSingleClusterCommand Decode callback_fn AddStatus path reader h =
     (if mClusterId path \<noteq> Id OtaSoftwareUpdateRequestor then AddStatus h path UnsupportedCluster
      else if mCommandId path \<notin> set (accepted_ids (mClusterId path)) then AddStatus h path UnsupportedCommand
      else case Decode reader of (err, d) \<Rightarrow>
        if err \<noteq> 0 then AddStatus h path InvalidCommand
        else case callback_fn h path d of (handled, h') \<Rightarrow>
          if handled then h' else AddStatus h' path InvalidCommand)"
  using accepted_OtaSoftwareUpdateRequestor
  by (simp add: DispatchSingleClusterCommand_def DispatchServerCommand_def AnnounceOTAProvider_Id_def
      CHIP_NO_ERROR_def split: prod.splits)

text \<open>
  Every cluster of the data model has its own initialisation callback, called for the
  endpoint at hand, and the code-driven clusters that are set up are exactly those that are
  taken down, with the same endpoint.
\<close>

theorem cluster_callbacks_cover_data_model:
  "list_all (\<lambda>k. \<exists>n. Id n = clusterId k \<and>
      emberAfClusterInitCallback e (clusterId k) = [emberAfClusterInit n e]) GENERATED_CLUSTERS \<and>
   MatterClusterServerShutdownCallback e c = map taken_down (MatterClusterServerInitCallback e c)"
  using cluster_ids_named by (auto simp: Shutdown_taken_down list_all_iff)

text \<open>
  C37. When \<^verbatim>\<open>ClusterInit\<close> has returned true, every cluster it has initialised is a server cluster
  of the data model on that endpoint, and on the two sensor endpoints every attribute declared as
  kept outside the attribute store belongs to a cluster that this run of \<^verbatim>\<open>ClusterInit\<close> or a
  code-driven callback has set up, with one exception: the feature map of the temperature
  cluster on endpoint 2, which endpoint 1 declares as stored.
\<close>

theorem sensor_endpoint_attributes_are_served:
  fixes w w' :: world
  assumes "run E ClusterInit w = (Some True, w')"
  defines "es \<equiv> drop (length (history w)) (history w')"
  shows "list_all (\<lambda>(e, c). find_server e c \<noteq> None) (init_places es) \<and>
    unserved_after es 1 = [] \<and>
    unserved_after es 2 = [(Id TemperatureMeasurement, 0xFFFC)] \<and>
    map_option is_stored (find_attribute (1, Id TemperatureMeasurement, 0xFFFC)) = Some True"
proof -
  have es: "queries es = cluster_inits" unfolding es_def by (rule queries_ClusterInit [OF assms(1)])
  note tables = clusters_endpoint1_def clusters_endpoint2_def attribute_tables
  note find = find_simps [unfolded One_nat_def]
  note inits = init_places_def es cluster_inits_eq sAirQualityInstance_def kEndpointId_def
  have places: "list_all (\<lambda>(e, c). find_server e c \<noteq> None) (init_places es)"
    by (simp add: inits find tables)
  have "unserved_after es 1 = []" "unserved_after es 2 = [(Id TemperatureMeasurement, 0xFFFC)]"
    by (simp_all add: unserved_after_def served_after_def inits find tables is_stored_def
        MatterClusterServerInitCallback_def)
  moreover have "map_option is_stored (find_attribute (1, Id TemperatureMeasurement, 0xFFFC)) = Some True"
    by (simp add: find tables is_stored_def)
  ultimately show ?thesis using places by simp
qed

theorem sensor_endpoint_attributes_are_served_witness:
  "\<exists>es w'. run obliging_stack ClusterInit world_init = (Some True, w') \<and> history w' = es \<and>
     unserved_after es 1 = [] \<and> unserved_after es 2 = [(Id TemperatureMeasurement, 0xFFFC)]"
proof -
  obtain w' where "run obliging_stack ClusterInit world_init = (Some True, w')"
    by (simp add: ClusterInit_def obliging_stack_def RegisterUpdateCallback_def run_bind run_ApplyLatestMeasurement)
  from this sensor_endpoint_attributes_are_served [OF this] show ?thesis
    by (intro exI [of _ "history w'"] exI [of _ w']) (simp add: world_init_def)
qed

section \<open>Access control\<close>

text \<open>Looking a privilege up in three parallel arrays, with the default for what they omit.\<close>

definition privilege_in :: "nat list \<Rightarrow> nat list \<Rightarrow> privilege list \<Rightarrow> privilege \<Rightarrow> nat \<Rightarrow> nat \<Rightarrow> privilege" where
  "privilege_in cs xs ps def c x =
     (case find (\<lambda>(c', x', p). c' = c \<and> x' = x) (zip cs (zip xs ps)) of
        None \<Rightarrow> def | Some (_, _, p) \<Rightarrow> p)"

definition invoke_privilege :: "nat \<Rightarrow> nat \<Rightarrow> privilege" where
  "invoke_privilege = privilege_in GENERATED_ACCESS_INVOKE_COMMAND__CLUSTER
     GENERATED_ACCESS_INVOKE_COMMAND__COMMAND GENERATED_ACCESS_INVOKE_COMMAND__PRIVILEGE kOperate"

definition write_privilege :: "nat \<Rightarrow> nat \<Rightarrow> privilege" where
  "write_privilege = privilege_in GENERATED_ACCESS_WRITE_ATTRIBUTE__CLUSTER
     GENERATED_ACCESS_WRITE_ATTRIBUTE__ATTRIBUTE GENERATED_ACCESS_WRITE_ATTRIBUTE__PRIVILEGE kOperate"

definition read_privilege :: "nat \<Rightarrow> nat \<Rightarrow> privilege" where
  "read_privilege = privilege_in GENERATED_ACCESS_READ_ATTRIBUTE__CLUSTER
     GENERATED_ACCESS_READ_ATTRIBUTE__ATTRIBUTE GENERATED_ACCESS_READ_ATTRIBUTE__PRIVILEGE kView"

text \<open>The commands, and the writable attributes, of the data model.\<close>

definition device_commands :: "(nat \<times> nat) list" where
  "device_commands = concat (map (\<lambda>k. map (Pair (clusterId k)) (accepted k)) GENERATED_CLUSTERS)"

definition device_writable :: "(nat \<times> nat) list" where
  "device_writable =
     concat (map (\<lambda>k. map (\<lambda>a. (clusterId k, attribute_id a))
       (filter (\<lambda>a. WRITABLE \<in> set (attribute_mask a)) (attributes_of k))) GENERATED_CLUSTERS)"

lemmas access_tables =
  GENERATED_ACCESS_READ_ATTRIBUTE__CLUSTER_def GENERATED_ACCESS_READ_ATTRIBUTE__ATTRIBUTE_def
  GENERATED_ACCESS_READ_ATTRIBUTE__PRIVILEGE_def GENERATED_ACCESS_WRITE_ATTRIBUTE__CLUSTER_def
  GENERATED_ACCESS_WRITE_ATTRIBUTE__ATTRIBUTE_def GENERATED_ACCESS_WRITE_ATTRIBUTE__PRIVILEGE_def
  GENERATED_ACCESS_INVOKE_COMMAND__CLUSTER_def GENERATED_ACCESS_INVOKE_COMMAND__COMMAND_def
  GENERATED_ACCESS_INVOKE_COMMAND__PRIVILEGE_def GENERATED_ACCESS_READ_EVENT__CLUSTER_def
  GENERATED_ACCESS_READ_EVENT__EVENT_def GENERATED_ACCESS_READ_EVENT__PRIVILEGE_def

lemmas cluster_tables = GENERATED_CLUSTERS_def clusters_endpoint0_def clusters_endpoint1_def clusters_endpoint2_def

lemma device_commands_table:
  "device_commands =
     (0x2A, 0) # map (Pair 0x30) [0, 2, 4] @ map (Pair 0x31) [0, 2, 3, 4, 6, 8] @ map (Pair 0x33) [0, 1] @
     map (Pair 0x3C) [0, 1, 2] @ map (Pair 0x3E) [0, 2, 4, 6, 7, 9, 0xA, 0xB, 0xC, 0xD] @
     map (Pair 0x3F) [0, 1, 3, 4] @ [(3, 0), (3, 0), (3, 0x40)]"
  by (simp add: device_commands_def cluster_tables accepted_def command_list_def GENERATED_COMMANDS_def)

lemma device_writable_table:
  "device_writable =
     [(0x1F, 0), (0x1F, 1), (0x28, 5), (0x28, 6), (0x2A, 0), (0x30, 0), (0x31, 4), (0x3F, 0), (3, 0), (3, 0)]"
  by (simp add: device_writable_def cluster_tables attributes_of_def GENERATED_ATTRIBUTES_def
      table_lengths) (simp add: attribute_tables)

text \<open>
  The parallel arrays of the access lists have matching lengths, and every line of the lists
  names a command or a writable attribute of the data model, so none is dead.  With
  them, every command of the device needs the manage or the administer privilege, except the
  time snapshot of the general diagnostics, and every writable attribute does, except the identify
  time; the attributes the adapter publishes can be read with the view privilege.
\<close>

theorem access_lists_protect_device:
  "map length [GENERATED_ACCESS_INVOKE_COMMAND__CLUSTER, GENERATED_ACCESS_INVOKE_COMMAND__COMMAND,
     GENERATED_ACCESS_WRITE_ATTRIBUTE__CLUSTER, GENERATED_ACCESS_WRITE_ATTRIBUTE__ATTRIBUTE,
     GENERATED_ACCESS_READ_ATTRIBUTE__CLUSTER, GENERATED_ACCESS_READ_ATTRIBUTE__ATTRIBUTE,
     GENERATED_ACCESS_READ_EVENT__CLUSTER, GENERATED_ACCESS_READ_EVENT__EVENT] =
     concat (map (\<lambda>ps. let n = length ps in [n, n])
       [GENERATED_ACCESS_INVOKE_COMMAND__PRIVILEGE, GENERATED_ACCESS_WRITE_ATTRIBUTE__PRIVILEGE,
        GENERATED_ACCESS_READ_ATTRIBUTE__PRIVILEGE, GENERATED_ACCESS_READ_EVENT__PRIVILEGE]) \<and>
   set (zip GENERATED_ACCESS_INVOKE_COMMAND__CLUSTER GENERATED_ACCESS_INVOKE_COMMAND__COMMAND)
     \<subseteq> set device_commands \<and>
   set (zip GENERATED_ACCESS_WRITE_ATTRIBUTE__CLUSTER GENERATED_ACCESS_WRITE_ATTRIBUTE__ATTRIBUTE)
     \<subseteq> set device_writable \<and>
   filter (\<lambda>(c, x). invoke_privilege c x \<notin> {kManage, kAdminister}) device_commands =
     [(Id GeneralDiagnostics, 1)] \<and>
   filter (\<lambda>(c, x). write_privilege c x \<notin> {kManage, kAdminister}) device_writable =
     [(Id Identify, 0), (Id Identify, 0)] \<and>
   list_all (\<lambda>c. read_privilege (Id c) 0 = kView)
     [TemperatureMeasurement, RelativeHumidityMeasurement, CarbonDioxideConcentrationMeasurement,
      Pm1ConcentrationMeasurement, Pm25ConcentrationMeasurement, Pm10ConcentrationMeasurement, AirQuality]"
proof -
  note privileges = privilege_in_def access_tables
  have "filter (\<lambda>(c, x). invoke_privilege c x \<notin> {kManage, kAdminister}) device_commands =
      [(Id GeneralDiagnostics, 1)]"
    by (simp add: device_commands_table invoke_privilege_def privileges)
  moreover have "filter (\<lambda>(c, x). write_privilege c x \<notin> {kManage, kAdminister}) device_writable =
      [(Id Identify, 0), (Id Identify, 0)]"
    by (simp add: device_writable_table write_privilege_def privileges)
  moreover have "list_all (\<lambda>c. read_privilege (Id c) 0 = kView)
     [TemperatureMeasurement, RelativeHumidityMeasurement, CarbonDioxideConcentrationMeasurement,
      Pm1ConcentrationMeasurement, Pm25ConcentrationMeasurement, Pm10ConcentrationMeasurement, AirQuality]"
    by (simp add: read_privilege_def privileges)
  moreover have "set (zip GENERATED_ACCESS_INVOKE_COMMAND__CLUSTER GENERATED_ACCESS_INVOKE_COMMAND__COMMAND)
     \<subseteq> set device_commands"
    by (simp add: access_tables device_commands_table)
  moreover have "set (zip GENERATED_ACCESS_WRITE_ATTRIBUTE__CLUSTER GENERATED_ACCESS_WRITE_ATTRIBUTE__ATTRIBUTE)
     \<subseteq> set device_writable"
    by (simp add: access_tables device_writable_table)
  ultimately show ?thesis by (simp add: access_tables)
qed

end
