(* ===== verification/Gen_Config.thy ===== *)
theory Gen_Config
  imports Cluster_Dispatch
begin

text \<open>
  The build switches of the data model,
  \<^verbatim>\<open>src/default_zap/zap-generated/gen_config.h\<close> and \<^verbatim>\<open>PluginApplicationCallbacks.h\<close>: how
  many endpoints have each cluster, which cluster implementations and which commands are
  compiled in, and which plugins are initialised.  The Matter stack is compiled with these switches and run with
  the tables of \<^verbatim>\<open>endpoint_config.h\<close>; the property says that the two agree.
\<close>

section \<open>The switches\<close>

text \<open>
  The middle parts of the macros \<^verbatim>\<open>MATTER_DM_<name>_CLUSTER_SERVER_ENDPOINT_COUNT\<close> with
  their values, and the same for \<^verbatim>\<open>CLIENT\<close>.
\<close>

definition SERVER_ENDPOINT_COUNT :: "(string \<times> nat) list" where
  "SERVER_ENDPOINT_COUNT =
     [(''IDENTIFY'', 2), (''GROUPS'', 0), (''ON_OFF'', 0), (''LEVEL_CONTROL'', 0), (''PWM'', 0),
      (''DESCRIPTOR'', 3), (''BINDING'', 0), (''ACCESS_CONTROL'', 1), (''ACTIONS'', 0),
      (''BASIC_INFORMATION'', 1), (''OTA_SOFTWARE_UPDATE_PROVIDER'', 0),
      (''OTA_SOFTWARE_UPDATE_REQUESTOR'', 1), (''LOCALIZATION_CONFIGURATION'', 0),
      (''TIME_FORMAT_LOCALIZATION'', 0), (''UNIT_LOCALIZATION'', 0),
      (''POWER_SOURCE_CONFIGURATION'', 0), (''POWER_SOURCE'', 0), (''GENERAL_COMMISSIONING'', 1),
      (''NETWORK_COMMISSIONING'', 1), (''DIAGNOSTIC_LOGS'', 0), (''GENERAL_DIAGNOSTICS'', 1),
      (''SOFTWARE_DIAGNOSTICS'', 0), (''THREAD_NETWORK_DIAGNOSTICS'', 0),
      (''WIFI_NETWORK_DIAGNOSTICS'', 0), (''ETHERNET_NETWORK_DIAGNOSTICS'', 0),
      (''TIME_SYNCHRONIZATION'', 0), (''BRIDGED_DEVICE_BASIC_INFORMATION'', 0), (''SWITCH'', 0),
      (''ADMINISTRATOR_COMMISSIONING'', 1), (''OPERATIONAL_CREDENTIALS'', 1),
      (''GROUP_KEY_MANAGEMENT'', 1), (''FIXED_LABEL'', 0), (''USER_LABEL'', 0),
      (''PROXY_CONFIGURATION'', 0), (''PROXY_DISCOVERY'', 0), (''PROXY_VALID'', 0),
      (''BOOLEAN_STATE'', 0), (''ICD_MANAGEMENT'', 0), (''TIMER'', 0),
      (''OPERATIONAL_STATE_OVEN'', 0), (''OVEN_MODE'', 0), (''LAUNDRY_DRYER_CONTROLS'', 0),
      (''MODE_SELECT'', 0), (''LAUNDRY_WASHER_MODE'', 0),
      (''REFRIGERATOR_AND_TEMPERATURE_CONTROLLED_CABINET_MODE'', 0),
      (''LAUNDRY_WASHER_CONTROLS'', 0), (''RVC_RUN_MODE'', 0), (''RVC_CLEAN_MODE'', 0),
      (''TEMPERATURE_CONTROL'', 0), (''REFRIGERATOR_ALARM'', 0), (''DISHWASHER_MODE'', 0),
      (''AIR_QUALITY'', 1), (''SMOKE_CO_ALARM'', 0), (''DISHWASHER_ALARM'', 0),
      (''MICROWAVE_OVEN_MODE'', 0), (''MICROWAVE_OVEN_CONTROL'', 0), (''OPERATIONAL_STATE'', 0),
      (''OPERATIONAL_STATE_RVC'', 0), (''SCENES'', 0), (''GROUPCAST'', 0),
      (''HEPA_FILTER_MONITORING'', 0), (''ACTIVATED_CARBON_FILTER_MONITORING'', 0),
      (''WATER_TANK_LEVEL_MONITORING'', 0), (''BOOLEAN_STATE_CONFIGURATION'', 0),
      (''VALVE_CONFIGURATION_AND_CONTROL'', 0), (''ELECTRICAL_POWER_MEASUREMENT'', 0),
      (''ELECTRICAL_ENERGY_MEASUREMENT'', 0), (''WATER_HEATER_MANAGEMENT'', 0),
      (''COMMODITY_PRICE'', 0), (''MESSAGES'', 0), (''DEVICE_ENERGY_MANAGEMENT'', 0),
      (''ENERGY_EVSE'', 0), (''ENERGY_PREFERENCE'', 0), (''POWER_TOPOLOGY'', 0),
      (''ENERGY_EVSE_MODE'', 0), (''WATER_HEATER_MODE'', 0),
      (''DEVICE_ENERGY_MANAGEMENT_MODE'', 0), (''ELECTRICAL_GRID_CONDITIONS'', 0),
      (''DOOR_LOCK'', 0), (''WINDOW_COVERING'', 0), (''CLOSURE_CONTROL'', 0),
      (''CLOSURE_DIMENSION'', 0), (''SERVICE_AREA'', 0), (''PUMP_CONFIGURATION_AND_CONTROL'', 0),
      (''THERMOSTAT'', 0), (''FAN_CONTROL'', 0),
      (''THERMOSTAT_USER_INTERFACE_CONFIGURATION'', 0), (''COLOR_CONTROL'', 0),
      (''BALLAST_CONFIGURATION'', 0), (''ILLUMINANCE_MEASUREMENT'', 0),
      (''TEMPERATURE_MEASUREMENT'', 2), (''PRESSURE_MEASUREMENT'', 0), (''FLOW_MEASUREMENT'', 0),
      (''RELATIVE_HUMIDITY_MEASUREMENT'', 1), (''OCCUPANCY_SENSING'', 0),
      (''CARBON_MONOXIDE_CONCENTRATION_MEASUREMENT'', 0),
      (''CARBON_DIOXIDE_CONCENTRATION_MEASUREMENT'', 1),
      (''NITROGEN_DIOXIDE_CONCENTRATION_MEASUREMENT'', 0),
      (''OZONE_CONCENTRATION_MEASUREMENT'', 0), (''PM2_5_CONCENTRATION_MEASUREMENT'', 1),
      (''FORMALDEHYDE_CONCENTRATION_MEASUREMENT'', 0), (''PM1_CONCENTRATION_MEASUREMENT'', 1),
      (''PM10_CONCENTRATION_MEASUREMENT'', 1), (''TVOC_CONCENTRATION_MEASUREMENT'', 0),
      (''RADON_CONCENTRATION_MEASUREMENT'', 0), (''SOIL_MEASUREMENT'', 0),
      (''WIFI_NETWORK_MANAGEMENT'', 0), (''THREAD_BORDER_ROUTER_MANAGEMENT'', 0),
      (''THREAD_NETWORK_DIRECTORY'', 0), (''WAKE_ON_LAN'', 0), (''CHANNEL'', 0),
      (''TARGET_NAVIGATOR'', 0), (''MEDIA_PLAYBACK'', 0), (''MEDIA_INPUT'', 0),
      (''LOW_POWER'', 0), (''KEYPAD_INPUT'', 0), (''CONTENT_LAUNCHER'', 0),
      (''AUDIO_OUTPUT'', 0), (''APPLICATION_LAUNCHER'', 0), (''APPLICATION_BASIC'', 0),
      (''ACCOUNT_LOGIN'', 0), (''CONTENT_CONTROL'', 0), (''CONTENT_APP_OBSERVER'', 0),
      (''ZONE_MANAGEMENT'', 0), (''CAMERA_AV_STREAM_MANAGEMENT'', 0),
      (''CAMERA_AV_SETTINGS_USER_LEVEL_MANAGEMENT'', 0), (''WEB_RTC_TRANSPORT_PROVIDER'', 0),
      (''WEB_RTC_TRANSPORT_REQUESTOR'', 0), (''PUSH_AV_STREAM_TRANSPORT'', 0), (''CHIME'', 0),
      (''COMMODITY_TARIFF'', 0), (''ECOSYSTEM_INFORMATION'', 0), (''COMMISSIONER_CONTROL'', 0),
      (''JOINT_FABRIC_DATASTORE'', 0), (''JOINT_FABRIC_ADMINISTRATOR'', 0),
      (''TLS_CERTIFICATE_MANAGEMENT'', 0), (''TLS_CLIENT_MANAGEMENT'', 0),
      (''METER_IDENTIFICATION'', 0), (''COMMODITY_METERING'', 0), (''UNIT_TESTING'', 0),
      (''FAULT_INJECTION'', 0), (''SAMPLE_MEI'', 0)]"

definition CLIENT_ENDPOINT_COUNT :: "(string \<times> nat) list" where
  "CLIENT_ENDPOINT_COUNT =
     [(''IDENTIFY'', 0), (''GROUPS'', 0), (''ON_OFF'', 0), (''LEVEL_CONTROL'', 0), (''PWM'', 0),
      (''DESCRIPTOR'', 0), (''BINDING'', 0), (''ACCESS_CONTROL'', 0), (''ACTIONS'', 0),
      (''BASIC_INFORMATION'', 0), (''OTA_SOFTWARE_UPDATE_PROVIDER'', 1),
      (''OTA_SOFTWARE_UPDATE_REQUESTOR'', 0), (''LOCALIZATION_CONFIGURATION'', 0),
      (''TIME_FORMAT_LOCALIZATION'', 0), (''UNIT_LOCALIZATION'', 0),
      (''POWER_SOURCE_CONFIGURATION'', 0), (''POWER_SOURCE'', 0), (''GENERAL_COMMISSIONING'', 0),
      (''NETWORK_COMMISSIONING'', 0), (''DIAGNOSTIC_LOGS'', 0), (''GENERAL_DIAGNOSTICS'', 0),
      (''SOFTWARE_DIAGNOSTICS'', 0), (''THREAD_NETWORK_DIAGNOSTICS'', 0),
      (''WIFI_NETWORK_DIAGNOSTICS'', 0), (''ETHERNET_NETWORK_DIAGNOSTICS'', 0),
      (''TIME_SYNCHRONIZATION'', 0), (''BRIDGED_DEVICE_BASIC_INFORMATION'', 0), (''SWITCH'', 0),
      (''ADMINISTRATOR_COMMISSIONING'', 0), (''OPERATIONAL_CREDENTIALS'', 0),
      (''GROUP_KEY_MANAGEMENT'', 0), (''FIXED_LABEL'', 0), (''USER_LABEL'', 0),
      (''PROXY_CONFIGURATION'', 0), (''PROXY_DISCOVERY'', 0), (''PROXY_VALID'', 0),
      (''BOOLEAN_STATE'', 0), (''ICD_MANAGEMENT'', 0), (''TIMER'', 0),
      (''OPERATIONAL_STATE_OVEN'', 0), (''OVEN_MODE'', 0), (''LAUNDRY_DRYER_CONTROLS'', 0),
      (''MODE_SELECT'', 0), (''LAUNDRY_WASHER_MODE'', 0),
      (''REFRIGERATOR_AND_TEMPERATURE_CONTROLLED_CABINET_MODE'', 0),
      (''LAUNDRY_WASHER_CONTROLS'', 0), (''RVC_RUN_MODE'', 0), (''RVC_CLEAN_MODE'', 0),
      (''TEMPERATURE_CONTROL'', 0), (''REFRIGERATOR_ALARM'', 0), (''DISHWASHER_MODE'', 0),
      (''AIR_QUALITY'', 0), (''SMOKE_CO_ALARM'', 0), (''DISHWASHER_ALARM'', 0),
      (''MICROWAVE_OVEN_MODE'', 0), (''MICROWAVE_OVEN_CONTROL'', 0), (''OPERATIONAL_STATE'', 0),
      (''OPERATIONAL_STATE_RVC'', 0), (''SCENES'', 0), (''GROUPCAST'', 0),
      (''HEPA_FILTER_MONITORING'', 0), (''ACTIVATED_CARBON_FILTER_MONITORING'', 0),
      (''WATER_TANK_LEVEL_MONITORING'', 0), (''BOOLEAN_STATE_CONFIGURATION'', 0),
      (''VALVE_CONFIGURATION_AND_CONTROL'', 0), (''ELECTRICAL_POWER_MEASUREMENT'', 0),
      (''ELECTRICAL_ENERGY_MEASUREMENT'', 0), (''WATER_HEATER_MANAGEMENT'', 0),
      (''COMMODITY_PRICE'', 0), (''MESSAGES'', 0), (''DEVICE_ENERGY_MANAGEMENT'', 0),
      (''ENERGY_EVSE'', 0), (''ENERGY_PREFERENCE'', 0), (''POWER_TOPOLOGY'', 0),
      (''ENERGY_EVSE_MODE'', 0), (''WATER_HEATER_MODE'', 0),
      (''DEVICE_ENERGY_MANAGEMENT_MODE'', 0), (''ELECTRICAL_GRID_CONDITIONS'', 0),
      (''DOOR_LOCK'', 0), (''WINDOW_COVERING'', 0), (''CLOSURE_CONTROL'', 0),
      (''CLOSURE_DIMENSION'', 0), (''SERVICE_AREA'', 0), (''PUMP_CONFIGURATION_AND_CONTROL'', 0),
      (''THERMOSTAT'', 0), (''FAN_CONTROL'', 0),
      (''THERMOSTAT_USER_INTERFACE_CONFIGURATION'', 0), (''COLOR_CONTROL'', 0),
      (''BALLAST_CONFIGURATION'', 0), (''ILLUMINANCE_MEASUREMENT'', 0),
      (''TEMPERATURE_MEASUREMENT'', 0), (''PRESSURE_MEASUREMENT'', 0), (''FLOW_MEASUREMENT'', 0),
      (''RELATIVE_HUMIDITY_MEASUREMENT'', 0), (''OCCUPANCY_SENSING'', 0),
      (''CARBON_MONOXIDE_CONCENTRATION_MEASUREMENT'', 0),
      (''CARBON_DIOXIDE_CONCENTRATION_MEASUREMENT'', 0),
      (''NITROGEN_DIOXIDE_CONCENTRATION_MEASUREMENT'', 0),
      (''OZONE_CONCENTRATION_MEASUREMENT'', 0), (''PM2_5_CONCENTRATION_MEASUREMENT'', 0),
      (''FORMALDEHYDE_CONCENTRATION_MEASUREMENT'', 0), (''PM1_CONCENTRATION_MEASUREMENT'', 0),
      (''PM10_CONCENTRATION_MEASUREMENT'', 0), (''TVOC_CONCENTRATION_MEASUREMENT'', 0),
      (''RADON_CONCENTRATION_MEASUREMENT'', 0), (''SOIL_MEASUREMENT'', 0),
      (''WIFI_NETWORK_MANAGEMENT'', 0), (''THREAD_BORDER_ROUTER_MANAGEMENT'', 0),
      (''THREAD_NETWORK_DIRECTORY'', 0), (''WAKE_ON_LAN'', 0), (''CHANNEL'', 0),
      (''TARGET_NAVIGATOR'', 0), (''MEDIA_PLAYBACK'', 0), (''MEDIA_INPUT'', 0),
      (''LOW_POWER'', 0), (''KEYPAD_INPUT'', 0), (''CONTENT_LAUNCHER'', 0),
      (''AUDIO_OUTPUT'', 0), (''APPLICATION_LAUNCHER'', 0), (''APPLICATION_BASIC'', 0),
      (''ACCOUNT_LOGIN'', 0), (''CONTENT_CONTROL'', 0), (''CONTENT_APP_OBSERVER'', 0),
      (''ZONE_MANAGEMENT'', 0), (''CAMERA_AV_STREAM_MANAGEMENT'', 0),
      (''CAMERA_AV_SETTINGS_USER_LEVEL_MANAGEMENT'', 0), (''WEB_RTC_TRANSPORT_PROVIDER'', 0),
      (''WEB_RTC_TRANSPORT_REQUESTOR'', 0), (''PUSH_AV_STREAM_TRANSPORT'', 0), (''CHIME'', 0),
      (''COMMODITY_TARIFF'', 0), (''ECOSYSTEM_INFORMATION'', 0), (''COMMISSIONER_CONTROL'', 0),
      (''JOINT_FABRIC_DATASTORE'', 0), (''JOINT_FABRIC_ADMINISTRATOR'', 0),
      (''TLS_CERTIFICATE_MANAGEMENT'', 0), (''TLS_CLIENT_MANAGEMENT'', 0),
      (''METER_IDENTIFICATION'', 0), (''COMMODITY_METERING'', 0), (''UNIT_TESTING'', 0),
      (''FAULT_INJECTION'', 0), (''SAMPLE_MEI'', 0)]"

text \<open>The cluster implementations compiled in, \<^verbatim>\<open>ZCL_USING_<name>_CLUSTER_SERVER\<close> or \<^verbatim>\<open>CLIENT\<close>.\<close>

definition ZCL_USING :: "(string \<times> cluster_side) list" where
  "ZCL_USING =
     [(''IDENTIFY'', SERVER), (''DESCRIPTOR'', SERVER), (''ACCESS_CONTROL'', SERVER),
      (''BASIC_INFORMATION'', SERVER), (''OTA_SOFTWARE_UPDATE_PROVIDER'', CLIENT),
      (''OTA_SOFTWARE_UPDATE_REQUESTOR'', SERVER), (''GENERAL_COMMISSIONING'', SERVER),
      (''NETWORK_COMMISSIONING'', SERVER), (''GENERAL_DIAGNOSTICS'', SERVER),
      (''ADMINISTRATOR_COMMISSIONING'', SERVER), (''OPERATIONAL_CREDENTIALS'', SERVER),
      (''GROUP_KEY_MANAGEMENT'', SERVER), (''AIR_QUALITY'', SERVER),
      (''TEMPERATURE_MEASUREMENT'', SERVER), (''RELATIVE_HUMIDITY_MEASUREMENT'', SERVER),
      (''CARBON_DIOXIDE_CONCENTRATION_MEASUREMENT'', SERVER),
      (''PM2_5_CONCENTRATION_MEASUREMENT'', SERVER), (''PM1_CONCENTRATION_MEASUREMENT'', SERVER),
      (''PM10_CONCENTRATION_MEASUREMENT'', SERVER)]"

text \<open>
  Their plugin macros \<^verbatim>\<open>MATTER_DM_PLUGIN_<name>_SERVER\<close>, \<^verbatim>\<open>_CLIENT\<close> and the plain
  \<^verbatim>\<open>MATTER_DM_PLUGIN_<name>\<close> (\<open>None\<close>).
\<close>

definition MATTER_DM_PLUGIN :: "(string \<times> cluster_side option) list" where
  "MATTER_DM_PLUGIN =
     [(''IDENTIFY'', Some SERVER), (''IDENTIFY'', None), (''DESCRIPTOR'', Some SERVER),
      (''DESCRIPTOR'', None), (''ACCESS_CONTROL'', Some SERVER), (''ACCESS_CONTROL'', None),
      (''BASIC_INFORMATION'', Some SERVER), (''BASIC_INFORMATION'', None),
      (''OTA_SOFTWARE_UPDATE_PROVIDER'', Some CLIENT),
      (''OTA_SOFTWARE_UPDATE_REQUESTOR'', Some SERVER),
      (''OTA_SOFTWARE_UPDATE_REQUESTOR'', None), (''GENERAL_COMMISSIONING'', Some SERVER),
      (''GENERAL_COMMISSIONING'', None), (''NETWORK_COMMISSIONING'', Some SERVER),
      (''NETWORK_COMMISSIONING'', None), (''GENERAL_DIAGNOSTICS'', Some SERVER),
      (''GENERAL_DIAGNOSTICS'', None), (''ADMINISTRATOR_COMMISSIONING'', Some SERVER),
      (''ADMINISTRATOR_COMMISSIONING'', None), (''OPERATIONAL_CREDENTIALS'', Some SERVER),
      (''OPERATIONAL_CREDENTIALS'', None), (''GROUP_KEY_MANAGEMENT'', Some SERVER),
      (''GROUP_KEY_MANAGEMENT'', None), (''AIR_QUALITY'', Some SERVER), (''AIR_QUALITY'', None),
      (''TEMPERATURE_MEASUREMENT'', Some SERVER), (''TEMPERATURE_MEASUREMENT'', None),
      (''RELATIVE_HUMIDITY_MEASUREMENT'', Some SERVER),
      (''RELATIVE_HUMIDITY_MEASUREMENT'', None),
      (''CARBON_DIOXIDE_CONCENTRATION_MEASUREMENT'', Some SERVER),
      (''CARBON_DIOXIDE_CONCENTRATION_MEASUREMENT'', None),
      (''PM2__5_CONCENTRATION_MEASUREMENT'', Some SERVER),
      (''PM2__5_CONCENTRATION_MEASUREMENT'', None),
      (''PM1_CONCENTRATION_MEASUREMENT'', Some SERVER),
      (''PM1_CONCENTRATION_MEASUREMENT'', None),
      (''PM10_CONCENTRATION_MEASUREMENT'', Some SERVER),
      (''PM10_CONCENTRATION_MEASUREMENT'', None)]"

text \<open>
  The commands compiled in, \<^verbatim>\<open><cluster>_ENABLE_<command>_CMD\<close>, by the cluster and the id the command
  table gives the command of that name.
\<close>

definition ENABLED_COMMANDS :: "(cluster_name \<times> nat) list" where
  "ENABLED_COMMANDS = [
     (AdministratorCommissioning, 0x0), \<comment> \<open>OPEN_COMMISSIONING_WINDOW\<close>
     (AdministratorCommissioning, 0x1), \<comment> \<open>OPEN_BASIC_COMMISSIONING_WINDOW\<close>
     (AdministratorCommissioning, 0x2), \<comment> \<open>REVOKE_COMMISSIONING\<close>
     (GeneralCommissioning, 0x0), \<comment> \<open>ARM_FAIL_SAFE\<close>
     (GeneralCommissioning, 0x2), \<comment> \<open>SET_REGULATORY_CONFIG\<close>
     (GeneralCommissioning, 0x4), \<comment> \<open>COMMISSIONING_COMPLETE\<close>
     (GeneralDiagnostics, 0x0), \<comment> \<open>TEST_EVENT_TRIGGER\<close>
     (GeneralDiagnostics, 0x1), \<comment> \<open>TIME_SNAPSHOT\<close>
     (GroupKeyManagement, 0x0), \<comment> \<open>KEY_SET_WRITE\<close>
     (GroupKeyManagement, 0x1), \<comment> \<open>KEY_SET_READ\<close>
     (GroupKeyManagement, 0x3), \<comment> \<open>KEY_SET_REMOVE\<close>
     (GroupKeyManagement, 0x4), \<comment> \<open>KEY_SET_READ_ALL_INDICES\<close>
     (Identify, 0x0), \<comment> \<open>IDENTIFY\<close>
     (Identify, 0x40), \<comment> \<open>TRIGGER_EFFECT\<close>
     (NetworkCommissioning, 0x0), \<comment> \<open>SCAN_NETWORKS\<close>
     (NetworkCommissioning, 0x2), \<comment> \<open>ADD_OR_UPDATE_WI_FI_NETWORK\<close>
     (NetworkCommissioning, 0x3), \<comment> \<open>ADD_OR_UPDATE_THREAD_NETWORK\<close>
     (NetworkCommissioning, 0x4), \<comment> \<open>REMOVE_NETWORK\<close>
     (NetworkCommissioning, 0x6), \<comment> \<open>CONNECT_NETWORK\<close>
     (NetworkCommissioning, 0x8), \<comment> \<open>REORDER_NETWORK\<close>
     (OtaSoftwareUpdateRequestor, 0x0), \<comment> \<open>ANNOUNCE_OTA_PROVIDER\<close>
     (OperationalCredentials, 0x0), \<comment> \<open>ATTESTATION_REQUEST\<close>
     (OperationalCredentials, 0x2), \<comment> \<open>CERTIFICATE_CHAIN_REQUEST\<close>
     (OperationalCredentials, 0x4), \<comment> \<open>CSR_REQUEST\<close>
     (OperationalCredentials, 0x6), \<comment> \<open>ADD_NOC\<close>
     (OperationalCredentials, 0x7), \<comment> \<open>UPDATE_NOC\<close>
     (OperationalCredentials, 0x9), \<comment> \<open>UPDATE_FABRIC_LABEL\<close>
     (OperationalCredentials, 0xA), \<comment> \<open>REMOVE_FABRIC\<close>
     (OperationalCredentials, 0xB), \<comment> \<open>ADD_TRUSTED_ROOT_CERTIFICATE\<close>
     (OperationalCredentials, 0xC), \<comment> \<open>SET_VID_VERIFICATION_STATEMENT\<close>
     (OperationalCredentials, 0xD) \<comment> \<open>SIGN_VID_VERIFICATION_REQUEST\<close>
     ]"

text \<open>The plugins \<^verbatim>\<open>MATTER_PLUGINS_INIT\<close> initialises, in order.\<close>

definition MATTER_PLUGINS_INIT :: "cluster_name list" where
  "MATTER_PLUGINS_INIT =
     [Identify, Descriptor, AccessControl, BasicInformation, OtaSoftwareUpdateRequestor,
      GeneralCommissioning, NetworkCommissioning, GeneralDiagnostics, AdministratorCommissioning,
      OperationalCredentials, GroupKeyManagement, AirQuality, TemperatureMeasurement,
      RelativeHumidityMeasurement, CarbonDioxideConcentrationMeasurement,
      Pm25ConcentrationMeasurement, Pm1ConcentrationMeasurement, Pm10ConcentrationMeasurement]"

section \<open>Clusters and macros\<close>

primrec macro_name :: "cluster_name \<Rightarrow> string" where
  "macro_name Descriptor = ''DESCRIPTOR''"
| "macro_name AccessControl = ''ACCESS_CONTROL''"
| "macro_name BasicInformation = ''BASIC_INFORMATION''"
| "macro_name OtaSoftwareUpdateRequestor = ''OTA_SOFTWARE_UPDATE_REQUESTOR''"
| "macro_name GeneralCommissioning = ''GENERAL_COMMISSIONING''"
| "macro_name NetworkCommissioning = ''NETWORK_COMMISSIONING''"
| "macro_name GeneralDiagnostics = ''GENERAL_DIAGNOSTICS''"
| "macro_name AdministratorCommissioning = ''ADMINISTRATOR_COMMISSIONING''"
| "macro_name OperationalCredentials = ''OPERATIONAL_CREDENTIALS''"
| "macro_name GroupKeyManagement = ''GROUP_KEY_MANAGEMENT''"
| "macro_name Identify = ''IDENTIFY''"
| "macro_name AirQuality = ''AIR_QUALITY''"
| "macro_name TemperatureMeasurement = ''TEMPERATURE_MEASUREMENT''"
| "macro_name RelativeHumidityMeasurement = ''RELATIVE_HUMIDITY_MEASUREMENT''"
| "macro_name CarbonDioxideConcentrationMeasurement = ''CARBON_DIOXIDE_CONCENTRATION_MEASUREMENT''"
| "macro_name Pm25ConcentrationMeasurement = ''PM2_5_CONCENTRATION_MEASUREMENT''"
| "macro_name Pm1ConcentrationMeasurement = ''PM1_CONCENTRATION_MEASUREMENT''"
| "macro_name Pm10ConcentrationMeasurement = ''PM10_CONCENTRATION_MEASUREMENT''"
| "macro_name OtaSoftwareUpdateProvider = ''OTA_SOFTWARE_UPDATE_PROVIDER''"

text \<open>The plugin macros spell one name differently.\<close>

definition plugin_name :: "cluster_name \<Rightarrow> string" where
  "plugin_name c =
     (if c = Pm25ConcentrationMeasurement then ''PM2__5_CONCENTRATION_MEASUREMENT'' else macro_name c)"

text \<open>On how many endpoints the tables put a cluster.\<close>

definition endpoints_with :: "cluster_side \<Rightarrow> cluster_name \<Rightarrow> nat" where
  "endpoints_with s c = length (filter (\<lambda>k. clusterId k = Id c \<and> side k = s) GENERATED_CLUSTERS)"

text \<open>
  C39. The compiled stack fits the data model it serves.  The clusters with a nonzero endpoint count
  are exactly those of the tables, each with the number of endpoints that have it, as
  servers and as clients; exactly their implementations are compiled in and exactly the
  server plugins initialised, in the same order; and the enabled commands are exactly those the
  tables let a cluster of the device accept.
\<close>

theorem switches_fit_data_model:
  "filter (\<lambda>(n, k). k \<noteq> 0) SERVER_ENDPOINT_COUNT =
     map (\<lambda>c. (macro_name c, endpoints_with SERVER c)) MATTER_PLUGINS_INIT \<and>
   filter (\<lambda>(n, k). k \<noteq> 0) CLIENT_ENDPOINT_COUNT =
     [(macro_name OtaSoftwareUpdateProvider, endpoints_with CLIENT OtaSoftwareUpdateProvider)] \<and>
   sum_list (map snd SERVER_ENDPOINT_COUNT) + sum_list (map snd CLIENT_ENDPOINT_COUNT) =
     length GENERATED_CLUSTERS \<and>
   map fst (filter (\<lambda>(n, s). s = SERVER) ZCL_USING) = map macro_name MATTER_PLUGINS_INIT \<and>
   map fst (filter (\<lambda>(n, s). s = CLIENT) ZCL_USING) = [macro_name OtaSoftwareUpdateProvider] \<and>
   map fst (filter (\<lambda>(n, s). s = Some SERVER) MATTER_DM_PLUGIN) = map plugin_name MATTER_PLUGINS_INIT \<and>
   map fst (filter (\<lambda>(n, s). s = None) MATTER_DM_PLUGIN) = map plugin_name MATTER_PLUGINS_INIT \<and>
   set (map (\<lambda>(c, x). (Id c, x)) ENABLED_COMMANDS) = set device_commands \<and>
   distinct ENABLED_COMMANDS"
proof -
  have counts: "filter (\<lambda>(n, k). k \<noteq> 0) SERVER_ENDPOINT_COUNT =
      map (\<lambda>c. (macro_name c, endpoints_with SERVER c)) MATTER_PLUGINS_INIT"
    by (simp add: SERVER_ENDPOINT_COUNT_def MATTER_PLUGINS_INIT_def endpoints_with_def cluster_tables)
  have clients: "filter (\<lambda>(n, k). k \<noteq> 0) CLIENT_ENDPOINT_COUNT =
      [(macro_name OtaSoftwareUpdateProvider, endpoints_with CLIENT OtaSoftwareUpdateProvider)]"
    by (simp add: CLIENT_ENDPOINT_COUNT_def endpoints_with_def cluster_tables)
  have total: "sum_list (map snd SERVER_ENDPOINT_COUNT) + sum_list (map snd CLIENT_ENDPOINT_COUNT) =
      length GENERATED_CLUSTERS"
    by (simp add: SERVER_ENDPOINT_COUNT_def CLIENT_ENDPOINT_COUNT_def cluster_tables)
  have compiled: "map fst (filter (\<lambda>(n, s). s = SERVER) ZCL_USING) = map macro_name MATTER_PLUGINS_INIT"
    "map fst (filter (\<lambda>(n, s). s = CLIENT) ZCL_USING) = [macro_name OtaSoftwareUpdateProvider]"
    by (simp_all add: ZCL_USING_def MATTER_PLUGINS_INIT_def)
  have plugins: "map fst (filter (\<lambda>(n, s). s = Some SERVER) MATTER_DM_PLUGIN) = map plugin_name MATTER_PLUGINS_INIT"
    "map fst (filter (\<lambda>(n, s). s = None) MATTER_DM_PLUGIN) = map plugin_name MATTER_PLUGINS_INIT"
    by (simp_all add: MATTER_DM_PLUGIN_def MATTER_PLUGINS_INIT_def plugin_name_def)
  have "set (map (\<lambda>(c, x). (Id c, x)) ENABLED_COMMANDS) = set device_commands" "distinct ENABLED_COMMANDS"
    by (auto simp: ENABLED_COMMANDS_def device_commands_table)
  with counts clients total compiled plugins show ?thesis by (intro conjI)
qed

end
