(* ===== verification/Poll_Loop.thy ===== *)
theory Poll_Loop
  imports Matter_Adapter
begin

text \<open>
  The measurement service with the callback the firmware registers: what one tick of the poll
  work item does, and the schedule of all ticks.  The facts of the locale \<open>update_listener\<close>
  are used through its interpretation \<open>poll\<close> on the adapter's callback.
\<close>

section \<open>Environments for examples\<close>

text \<open>A bus on which no device answers: every write and every read fails with \<^verbatim>\<open>-EIO\<close>.\<close>

definition dead_bus :: env where
  "dead_bus =
     \<lparr>answer = (\<lambda>h q. - EIO), bus_data = (\<lambda>h n. (- EIO, \<lambda>i. 0)), clock = (\<lambda>h. int (length h))\<rparr>"

lemma dead_bus_outcome [simp]: "outcome dead_bus p w = (- EIO, Measurement_init)"
proof -
  have "write_errno dead_bus v cmd = - EIO" for v cmd by (simp add: dead_bus_def write_errno_def)
  then show ?thesis by (simp add: outcome_def run_acquire run_ReadMeasurement Let_def EIO_def)
qed

lemma dead_bus_read_errors [simp]: "read_errors dead_bus deref n p w = replicate n (- EIO)"
  by (induction n arbitrary: p w) simp_all

lemma steady_bus_outcome:
  assumes "length ws = kMeasurementWords"
  shows "outcome (steady_bus (BuildFrame ws)) p w = (0, decode ws)"
proof -
  have "length (BuildFrame ws) = kMeasurementBytes" using assms by (simp add: layout_defs)
  then show ?thesis
    by (simp add: outcome_def run_acquire run_ReadMeasurement Let_def payload_words_BuildFrame)
qed

lemma plausible_frame:
  "length plausible_words = kMeasurementWords" "valid (decode plausible_words) \<noteq> 0"
proof -
  show len: "length plausible_words = kMeasurementWords" by (simp add: plausible_words_def layout_defs)
  have "is_valid (decode plausible_words) kFieldCo2"
    by (simp add: is_valid_decode len) (simp add: plausible_words_def sentinel_def sentinel_defs)
  then show "valid (decode plausible_words) \<noteq> 0" by (auto simp: is_valid_def)
qed

section \<open>Starting\<close>

definition queue_started :: "world \<Rightarrow> world" where
  "queue_started w = w\<lparr>history := history w @ [Did WorkQueueInit, Did WorkQueueStart, Did WorkInit]\<rparr>"

lemma run_Service_Init:
  "run E (Service_Init p) w =
     (let v = queue_started w;
          err = write_errno E v Cmd_StartMeasurement;
          v' = snd (run E StartMeasurement v);
          now = clock E (history v')
      in if err = 0 then (Some (True, p), perform (WorkSchedule 0) v')
         else (Some (True, OnReadResult p err Measurement_init now),
               perform (WorkSchedule 0) (log_event (Clock now) v')))"
  by (simp add: Service_Init_def run_bind run_StartMeasurement Let_def queue_started_def perform_def
      log_event_def)

lemma usable_init: "length (backoffStepsMs cfg) = kBackoffStepCount \<Longrightarrow> usable (Policy_init cfg)"
  by (simp add: usable_def policy_inv_init)

lemma usable_default: "usable (Policy_init PolicyConfig_default)"
  by (rule usable_init) (simp add: PolicyConfig_default_def kBackoffStepCount_def)

lemma backoff_rel_init: "backoff_rel (Policy_init cfg) 0"
  by (simp add: backoff_rel_def backoff_threshold_def)

text \<open>
  C24. The delays the poll timer is armed with, from \<^verbatim>\<open>Init\<close> on and for every number of ticks
  and every behaviour of the bus, are: none for the first tick, and after each tick what a
  plain counter of failures since the last success prescribes, a failed start at \<^verbatim>\<open>Init\<close>
  counting as one.  Every tick re-arms the timer exactly once, so the loop never dies.
\<close>

theorem poll_loop_follows_backoff_schedule:
  assumes "length (backoffStepsMs cfg) = kBackoffStepCount"
    and "unat (failureThreshold cfg) + 3 < 2 ^ 32"
  shows "\<exists>p v p' w'.
    run E (Service_Init (Policy_init cfg)) w = (Some (True, p), v) \<and>
    run E (work_queue callback_code n p) v = (Some p', w') \<and>
    scheduled (history w') = scheduled (history w) @ 0 #
      schedule cfg (if write_errno E (queue_started w) Cmd_StartMeasurement = 0 then 0 else 1)
        (read_errors E callback_code n p v)"
proof -
  let ?err = "write_errno E (queue_started w) Cmd_StartMeasurement"
  let ?k = "if ?err = 0 then 0 else 1 :: nat"
  obtain p v where init: "run E (Service_Init (Policy_init cfg)) w = (Some (True, p), v)"
    and v: "scheduled (history v) = scheduled (history w) @ [0]"
    and p: "p = (if ?err = 0 then Policy_init cfg
                 else OnReadResult (Policy_init cfg) ?err Measurement_init (clock E (history (snd (run E StartMeasurement (queue_started w))))))"
    by (cases "?err = 0") (simp_all add: run_Service_Init Let_def run_StartMeasurement queue_started_def)
  have u: "usable p" using usable_init [OF assms(1)] by (simp add: p sen66_policy.inv_feed)
  have cfg: "config p = cfg" by (simp add: p)
  have "backoff_rel p ?k"
    using backoff_rel_failure [OF backoff_rel_init, of ?err cfg] backoff_rel_init [of cfg] assms(2)
    by (auto simp: p)
  from poll.run_work_queue [OF u this, where E = E and n = n and w = v] assms(2) init v show ?thesis
    unfolding cfg by (metis append.assoc append_Cons append_Nil)
qed

theorem poll_loop_follows_backoff_schedule_witness:
  "\<exists>p v p' w'.
    run dead_bus (Service_Init (Policy_init PolicyConfig_default)) world_init = (Some (True, p), v) \<and>
    run dead_bus (work_queue callback_code 7 p) v = (Some p', w') \<and>
    scheduled (history w') = [0, 1000, 2000, 5000, 10000, 30000, 30000, 30000]"
proof -
  have "length (backoffStepsMs PolicyConfig_default) = kBackoffStepCount"
    "unat (failureThreshold PolicyConfig_default) + 3 < 2 ^ 32"
    by (simp_all add: PolicyConfig_default_def kBackoffStepCount_def)
  moreover have "write_errno dead_bus v cmd = - EIO" for v cmd by (simp add: dead_bus_def write_errno_def)
  moreover have seven: "replicate 7 x = [x, x, x, x, x, x, x]" for x :: errno
    by (simp add: numeral_eq_Suc)
  have "schedule PolicyConfig_default 1 (replicate 7 (- 5)) =
      [1000, 2000, 5000, 10000, 30000, 30000, 30000]"
    unfolding seven by (simp add: PolicyConfig_default_def scheduled_delay_def backoff_threshold_def)
  ultimately show ?thesis
    using poll_loop_follows_backoff_schedule [of PolicyConfig_default dead_bus world_init 7]
    by (simp add: world_init_def EIO_def)
qed

section \<open>One tick\<close>

text \<open>
  C27. Every tick returns and leaves the policy fit for the next one.  It publishes the policy's
  snapshot with the age it has at the tick: after a successful read with a valid channel the
  fresh measurement with age 0, after a failed one the previous measurement, older by the
  time that has passed.
\<close>

theorem tick_publishes_snapshot:
  assumes "usable p"
  shows "\<exists>w'. run E (PollWorkHandler callback_code p) w = (Some (ticked E p w), w') \<and>
    usable (ticked E p w) \<and>
    snap w' = snapshot_of (ticked E p w) (tick_time E p w) \<and>
    (fst (outcome E p w) = 0 \<and> valid (snd (outcome E p w)) \<noteq> 0 \<longrightarrow>
       snap w' = \<lparr>measurement = snd (outcome E p w), ageMs = 0, everValid = True\<rparr>) \<and>
    (fst (outcome E p w) \<noteq> 0 \<longrightarrow> snap w' = snapshot_of p (tick_time E p w))"
  using poll.run_PollWorkHandler [OF assms, of E w] usable_ticked [OF assms, of E w]
  by (simp add: snapshot_of_ticked)
    (auto simp: snapshot_of_def fed_def GetLatest_def OnReadResult_success OnReadResult_failure)

theorem tick_publishes_snapshot_witness:
  "\<exists>p' w'. run (steady_bus (BuildFrame plausible_words)) (PollWorkHandler callback_code (Policy_init PolicyConfig_default))
      world_init = (Some p', w') \<and>
    snap w' = \<lparr>measurement = decode plausible_words, ageMs = 0, everValid = True\<rparr>"
proof -
  show ?thesis
    using tick_publishes_snapshot [OF usable_default, of "steady_bus (BuildFrame plausible_words)" world_init]
    unfolding steady_bus_outcome [OF plausible_frame(1)] using plausible_frame(2) by auto
qed

lemma commands_tail [simp]:
  "commands (publication s) = []" "commands (poll.notification cb) = []"
  by (simp_all add: publication_def poll.notification_def split: option.split)

text \<open>
  A tick reissues the start command exactly when the policy is in backoff, before anything
  else, and reads the sensor exactly when no restart was due or the restart was
  acknowledged; a refused restart is the error the policy is fed with.
\<close>

theorem tick_restarts_in_backoff:
  fixes E :: env and w :: world
  assumes "usable p"
  defines "refused \<equiv> NeedsRestart p \<and> write_errno E w Cmd_StartMeasurement \<noteq> 0"
  shows "commands (history (snd (run E (PollWorkHandler callback_code p) w))) =
      commands (history w) @
      (if NeedsRestart p then [command_bytes Cmd_StartMeasurement] else []) @
      (if refused then [] else [command_bytes Cmd_ReadMeasuredValues]) \<and>
    (refused \<longrightarrow> outcome E p w = (write_errno E w Cmd_StartMeasurement, Measurement_init))"
  using poll.run_PollWorkHandler [OF assms(1), of E w]
  by (simp add: refused_def after_read_def outcome_def run_acquire run_ReadMeasurement run_StartMeasurement Let_def)

text \<open>A policy that three failed reads have brought into backoff.\<close>

definition backed_off :: Policy where
  "backed_off = run_ops PolicyConfig_default (replicate 3 (Feed (- EIO) Measurement_init 0))"

lemma usable_run_ops: "length (backoffStepsMs cfg) = kBackoffStepCount \<Longrightarrow> usable (run_ops cfg ops)"
  by (simp add: usable_def policy_inv_run_ops)

lemma usable_backed_off: "usable backed_off"
  unfolding backed_off_def by (rule usable_run_ops) (simp add: PolicyConfig_default_def kBackoffStepCount_def)

lemma NeedsRestart_backed_off: "NeedsRestart backed_off"
proof -
  have "failures (replicate 3 (Feed (- EIO) Measurement_init 0)) = 3"
    by (simp add: failures_def numeral_3_eq_3 EIO_def)
  moreover have "unat (failureThreshold PolicyConfig_default) + 3 < 2 ^ 32"
    by (simp add: PolicyConfig_default_def)
  ultimately have "backoff_rel backed_off 3" unfolding backed_off_def by (metis backoff_rel_run_ops)
  then show ?thesis
    by (simp add: backoff_rel_def NeedsRestart_def backed_off_def backoff_threshold_def PolicyConfig_default_def)
qed

theorem tick_restarts_in_backoff_witness:
  "commands (history (snd (run dead_bus (PollWorkHandler callback_code backed_off) world_init))) =
     [command_bytes Cmd_StartMeasurement]"
proof -
  have "write_errno dead_bus world_init Cmd_StartMeasurement = - EIO"
    by (simp add: dead_bus_def write_errno_def)
  then show ?thesis
    using tick_restarts_in_backoff [OF usable_backed_off, of dead_bus world_init] NeedsRestart_backed_off
    by (simp add: world_init_def EIO_def)
qed

lemma after_read_history:
  "\<exists>es. history (after_read E p w) = history w @ es \<and> Did ScheduleWork \<notin> set es"
  by (simp add: after_read_def run_acquire run_ReadMeasurement run_StartMeasurement Let_def exchange_def)

text \<open>
  C28. The registered callback is called at most once a tick, exactly when the policy asks for
  it, after the snapshot is published and with the notification already recorded: what the
  policy remembers as notified is the measurement in the snapshot at that moment.
\<close>

theorem tick_notifies_after_publishing:
  fixes E :: env and w :: world
  assumes "usable p"
  defines "w' \<equiv> snd (run E (PollWorkHandler callback_code p) w)"
  shows "(\<exists>before. history w' = history w @ before @
        (if ShouldNotify (fed E p w) \<and> callback w \<noteq> None then [Did ScheduleWork] else []) @
        [Did (WorkSchedule (the (NextDelayMs (ticked E p w))))] \<and>
        Did ScheduleWork \<notin> set before \<and> Did (SetEverValid (everValid (snap w'))) \<in> set before) \<and>
    (ShouldNotify (fed E p w) \<longrightarrow> lastNotified (ticked E p w) = measurement (snap w') \<and>
       lastNotifyMs (ticked E p w) = tick_time E p w \<and> everValid (snap w')) \<and>
    \<not> ShouldNotify (ticked E p w)"
proof -
  let ?s = "snapshot_of (fed E p w) (tick_time E p w)"
  obtain es where es: "history (after_read E p w) = history w @ es" "Did ScheduleWork \<notin> set es"
    using after_read_history by blast
  let ?seen = "if ShouldNotify (fed E p w)
    then SawCallback (callback w) # (if callback w = None then [] else [SawCallback (callback w)]) else []"
  have w': "w' = snd (Some (ticked E p w), (after_read E p w)\<lparr>snap := ?s,
       history := history (after_read E p w) @ [Clock (tick_time E p w)] @ publication ?s @
         (if ShouldNotify (fed E p w) then poll.notification (callback w) else []) @
         [Did (WorkSchedule (the (NextDelayMs (fed E p w))))]\<rparr>)"
    unfolding w'_def poll.run_PollWorkHandler [OF assms(1)] ..
  have hist: "history w' = history w @ (es @ [Clock (tick_time E p w)] @ publication ?s @ ?seen) @
      (if ShouldNotify (fed E p w) \<and> callback w \<noteq> None then [Did ScheduleWork] else []) @
      [Did (WorkSchedule (the (NextDelayMs (ticked E p w))))]"
    by (simp add: w' es(1) delay_ticked poll.notification_def split: option.split)
  have sets: "Did ScheduleWork \<notin> set (es @ [Clock (tick_time E p w)] @ publication ?s @ ?seen)"
    "Did (SetEverValid (everValid (snap w'))) \<in> set (es @ [Clock (tick_time E p w)] @ publication ?s @ ?seen)"
    using es(2) by (simp_all add: publication_def w')
  have before: "\<exists>before. history w' = history w @ before @
        (if ShouldNotify (fed E p w) \<and> callback w \<noteq> None then [Did ScheduleWork] else []) @
        [Did (WorkSchedule (the (NextDelayMs (ticked E p w))))] \<and>
        Did ScheduleWork \<notin> set before \<and> Did (SetEverValid (everValid (snap w'))) \<in> set before"
    by (rule exI, intro conjI, rule hist, (rule sets)+)
  have "lastNotified (ticked E p w) = measurement (snap w') \<and>
      lastNotifyMs (ticked E p w) = tick_time E p w \<and> everValid (snap w')"
    if due: "ShouldNotify (fed E p w)"
  proof -
    obtain m age where "GetLatest (fed E p w) (tick_time E p w) = Some (m, age)"
      using sen66_policy.due_obtains [OF usable_fed [OF assms(1)] due] by blast
    moreover from this have "m = latest (fed E p w)" by (simp add: GetLatest_def split: if_splits)
    ultimately show ?thesis by (simp add: w' ticked_def due snapshot_of_def)
  qed
  moreover have "\<not> ShouldNotify (ticked E p w)"
    by (simp add: ticked_def sen66_policy.acknowledge_settles)
  ultimately show ?thesis using before by (intro conjI impI) simp_all
qed

lemma first_reading_is_due:
  "ShouldNotify (fed (steady_bus (BuildFrame plausible_words)) (Policy_init cfg) w)"
  using plausible_frame(2)
  by (simp add: fed_def steady_bus_outcome [OF plausible_frame(1)] ShouldNotify_def OnReadResult_success
      notify_due_def notify_mask_first)

theorem tick_notifies_after_publishing_witness:
  "\<exists>before d. history (snd (run (steady_bus (BuildFrame plausible_words))
       (PollWorkHandler callback_code (Policy_init PolicyConfig_default))
       (world_init\<lparr>callback := Some OnMeasurementUpdated_fn\<rparr>))) =
     before @ [Did ScheduleWork, Did (WorkSchedule d)]"
  using conjunct1 [OF tick_notifies_after_publishing [OF usable_default,
      of "steady_bus (BuildFrame plausible_words)" "world_init\<lparr>callback := Some OnMeasurementUpdated_fn\<rparr>"]]
  by (auto simp: first_reading_is_due world_init_def)

text \<open>
  One successful reading ends a recovery, however long the sensor was gone: the failure
  counter, the backoff and the demand for restarts are reset, and the timer is armed with the
  poll interval again.
\<close>

theorem tick_recovers:
  assumes "usable p" and "fst (outcome E p w) = 0"
  shows "\<not> NeedsRestart (ticked E p w) \<and> consecutiveFailures (ticked E p w) = 0 \<and>
    (\<exists>before. history (snd (run E (PollWorkHandler callback_code p) w)) =
       before @ [Did (WorkSchedule (pollIntervalMs (config p)))])"
  using poll.run_PollWorkHandler [OF assms(1), of E w] assms(2)
  by (simp add: ticked_def fed_def OnReadResult_success NeedsRestart_def NextDelayMs_def)

theorem tick_recovers_witness:
  "\<exists>before. history (snd (run (steady_bus (BuildFrame plausible_words))
     (PollWorkHandler callback_code backed_off) world_init)) = before @ [Did (WorkSchedule 1000)]"
proof -
  have "fst (outcome (steady_bus (BuildFrame plausible_words)) backed_off world_init) = 0"
    by (simp add: steady_bus_outcome [OF plausible_frame(1)])
  moreover have "pollIntervalMs (config backed_off) = 1000"
    by (simp add: backed_off_def PolicyConfig_default_def)
  ultimately show ?thesis using tick_recovers [OF usable_backed_off] by metis
qed

section \<open>Silence\<close>

text \<open>What each of \<open>n\<close> ticks gets from the sensor: the errno and the measurement.\<close>

primrec readings :: "env \<Rightarrow> nat \<Rightarrow> Policy \<Rightarrow> world \<Rightarrow> (errno \<times> Measurement) list" where
  "readings E 0 p w = []"
| "readings E (Suc n) p w =
     outcome E p w # readings E n (ticked E p w) (snd (run E (PollWorkHandler callback_code p) w))"

definition nothing_sensed :: "errno \<times> Measurement \<Rightarrow> bool" where
  "nothing_sensed x \<longleftrightarrow> fst x \<noteq> 0 \<or> valid (snd x) = 0"

lemma nothing_sensed_tick:
  assumes "nothing_sensed (outcome E p w)" and "valid (lastNotified p) = 0"
  shows "\<not> ShouldNotify (fed E p w)" "lastNotified (ticked E p w) = lastNotified p"
proof -
  obtain err m where o: "outcome E p w = (err, m)" by fastforce
  have fed: "\<not> ShouldNotify (fed E p w) \<and> lastNotified (fed E p w) = lastNotified p"
  proof (cases "err = 0")
    case True
    then show ?thesis
      using assms by (simp add: nothing_sensed_def o fed_def ShouldNotify_def OnReadResult_success notify_due_def)
  next
    case False
    then show ?thesis by (simp add: fed_def o ShouldNotify_def OnReadResult_failure)
  qed
  then show "\<not> ShouldNotify (fed E p w)" "lastNotified (ticked E p w) = lastNotified p" by (simp_all add: ticked_def)
qed

lemma silent_tick:
  assumes "usable p" and "\<not> ShouldNotify (fed E p w)"
  shows "\<exists>v es. run E (PollWorkHandler callback_code p) w = (Some (ticked E p w), v) \<and>
    history v = history w @ es \<and> Did ScheduleWork \<notin> set es"
proof -
  obtain es where "history (after_read E p w) = history w @ es" "Did ScheduleWork \<notin> set es"
    using after_read_history by blast
  then show ?thesis
    using assms(2) by (simp add: poll.run_PollWorkHandler [OF assms(1)] publication_def)
qed

text \<open>
  C23. The Matter side is left alone while there is nothing to show.  When what was notified last has no
  valid channel, then over any number of ticks that fail or read a frame without a valid
  channel the adapter is never scheduled, however much time passes: the heartbeat stops.  It resumes at
  once: after those ticks the next reading with a valid channel is due.
\<close>

theorem silence_while_all_invalid:
  assumes "usable p" and "valid (lastNotified p) = 0" and "list_all nothing_sensed (readings E n p w)"
  shows "\<exists>q w' es. run E (work_queue callback_code n p) w = (Some q, w') \<and> usable q \<and>
    history w' = history w @ es \<and> Did ScheduleWork \<notin> set es \<and>
    (\<forall>m now. notify_due q m now \<longleftrightarrow> valid m \<noteq> 0)"
  using assms
proof (induction n arbitrary: p w)
  case 0
  moreover have "notify_due p m now \<longleftrightarrow> valid m \<noteq> 0" for m now
    using 0(2) by (auto simp: notify_due_def notify_mask_first)
  ultimately show ?case by simp
next
  case (Suc n)
  have sensed: "nothing_sensed (outcome E p w)" using Suc.prems(3) by simp
  note tick = nothing_sensed_tick [OF sensed Suc.prems(2)]
  obtain v es where v: "run E (PollWorkHandler callback_code p) w = (Some (ticked E p w), v)"
    "history v = history w @ es" "Did ScheduleWork \<notin> set es"
    using silent_tick [OF Suc.prems(1) tick(1)] by blast
  have "list_all nothing_sensed (readings E n (ticked E p w) v)" using Suc.prems(3) v(1) by simp
  then obtain q w' es' where "run E (work_queue callback_code n (ticked E p w)) v = (Some q, w')" "usable q"
    "history w' = history v @ es'" "Did ScheduleWork \<notin> set es'" "\<forall>m now. notify_due q m now \<longleftrightarrow> valid m \<noteq> 0"
    using Suc.IH [OF usable_ticked [OF Suc.prems(1)], of E w v] tick(2) Suc.prems(2) by auto
  with v show ?case by (intro exI [of _ q] exI [of _ w'] exI [of _ "es @ es'"]) (simp add: run_bind)
qed

text \<open>The frame of a sensor that has no channel available.\<close>

definition unavailable_words :: "u16 list" where
  "unavailable_words = map sentinel all_fields"

lemma unavailable_frame: "length unavailable_words = kMeasurementWords" "valid (decode unavailable_words) = 0"
  by (simp_all add: unavailable_words_def layout_defs decode_def valid_of_def all_fields_def)

lemma readings_steady_bus:
  "length ws = kMeasurementWords \<Longrightarrow> readings (steady_bus (BuildFrame ws)) n p w = replicate n (0, decode ws)"
  by (induction n arbitrary: p w) (simp_all add: steady_bus_outcome)

theorem silence_while_all_invalid_witness:
  "\<exists>q w' es. run (steady_bus (BuildFrame unavailable_words))
      (work_queue callback_code 1000 (Policy_init PolicyConfig_default)) world_init = (Some q, w') \<and>
     history w' = history world_init @ es \<and> Did ScheduleWork \<notin> set es"
proof -
  have "valid (lastNotified (Policy_init PolicyConfig_default)) = 0"
    by (simp add: Policy_init_def Measurement_init_def)
  moreover have "list_all nothing_sensed
      (readings (steady_bus (BuildFrame unavailable_words)) 1000 (Policy_init PolicyConfig_default) world_init)"
    unfolding readings_steady_bus [OF unavailable_frame(1)]
    by (simp add: list_all_iff nothing_sensed_def unavailable_frame(2))
  ultimately show ?thesis using silence_while_all_invalid [OF usable_default] by blast
qed

end
