(* ===== verification/Sen66_Shell.thy ===== *)
theory Sen66_Shell
  imports Measurement_Service Air_Quality_Policy "HOL-Library.Char_ord"
begin

text \<open>
  \<^verbatim>\<open>src/sen66/sen66_shell.cpp\<close>: the diagnostic shell commands.  A printed line is the string
  the format produces; the conversions used (\<^verbatim>\<open>%u\<close>, \<^verbatim>\<open>%d\<close>, \<^verbatim>\<open>%lld\<close>, \<^verbatim>\<open>%02d\<close>, \<^verbatim>\<open>%-12s\<close>, \<^verbatim>\<open>%s\<close>)
  are those of the C standard.  The shell object and the argument vector are not used by the
  handlers and left out.
\<close>

section \<open>Conversions of the C library\<close>

definition digit :: "nat \<Rightarrow> char" where
  "digit n = char_of (48 + n)"

fun format_u :: "nat \<Rightarrow> string" where
  "format_u n = (if n < 10 then [digit n] else format_u (n div 10) @ [digit (n mod 10)])"

declare format_u.simps [simp del]

definition format_d :: "int \<Rightarrow> string" where
  "format_d i = (if i < 0 then ''-'' @ format_u (nat (- i)) else format_u (nat i))"

text \<open>\<^verbatim>\<open>%02d\<close>: zeros go between the sign and the digits.\<close>

definition format_02d :: "int \<Rightarrow> string" where
  "format_02d i =
     (let sign = (if i < 0 then ''-'' else ''''); ds = format_u (nat \<bar>i\<bar>)
      in sign @ replicate (2 - (length sign + length ds)) (digit 0) @ ds)"

text \<open>\<^verbatim>\<open>%-12s\<close>: left-justified, never truncated.\<close>

definition format_12s :: "string \<Rightarrow> string" where
  "format_12s s = s @ replicate (12 - length s) (CHR '' '')"

text \<open>\<^verbatim>\<open>%s\<close> of a character array: without a terminator the read would leave the array.\<close>

definition format_chars :: "bytes \<Rightarrow> string option" where
  "format_chars cs = (if 0 \<in> set cs then Some (map (char_of \<circ> unat) (c_string cs)) else None)"

section \<open>The code\<close>

definition EAGAIN :: errno where "EAGAIN = 11"

definition kDataReadyPollCount :: nat where "kDataReadyPollCount = 20"
definition kDataReadyPollMs :: nat where "kDataReadyPollMs = 100"

definition shell_print :: "string \<Rightarrow> unit io" where
  "shell_print line = Do (ShellPrint ShellNormal line) (Ret ())"

definition PrintUnsignedTenth :: "string \<Rightarrow> u16 \<Rightarrow> string \<Rightarrow> unit io" where
  "PrintUnsignedTenth lbl raw unit =
     shell_print (''  '' @ format_12s lbl @ '' '' @ format_u (unat raw div 10) @ ''.'' @
       format_u (unat raw mod 10) @ '' '' @ unit)"

definition PrintSignedFixed :: "string \<Rightarrow> int \<Rightarrow> int \<Rightarrow> string \<Rightarrow> unit io" where
  "PrintSignedFixed lbl scaled frac_pow unit =
     (let whole = div_trunc scaled frac_pow;
          frac = scaled - div_trunc scaled frac_pow * frac_pow;
          frac = (if frac < 0 then - frac else frac);
          sign = (if scaled < 0 \<and> whole = 0 then ''-'' else '''')
      in if frac_pow = 100
         then shell_print (''  '' @ format_12s lbl @ '' '' @ sign @ format_d whole @ ''.'' @
                format_02d frac @ '' '' @ unit)
         else shell_print (''  '' @ format_12s lbl @ '' '' @ sign @ format_d whole @ ''.'' @
                format_d frac @ '' '' @ unit))"

definition PrintNa :: "string \<Rightarrow> unit io" where
  "PrintNa lbl = shell_print (''  '' @ format_12s lbl @ '' <n/a>'')"

definition PrintMeasurement :: "Measurement \<Rightarrow> unit io" where
  "PrintMeasurement m =
     io_bind (if valid m AND field_mask kFieldPm1p0 \<noteq> 0
              then PrintUnsignedTenth ''PM1.0'' (pm1p0 m) ''ug/m3'' else PrintNa ''PM1.0'') (\<lambda>_.
     io_bind (if valid m AND field_mask kFieldPm2p5 \<noteq> 0
              then PrintUnsignedTenth ''PM2.5'' (pm2p5 m) ''ug/m3'' else PrintNa ''PM2.5'') (\<lambda>_.
     io_bind (if valid m AND field_mask kFieldPm4p0 \<noteq> 0
              then PrintUnsignedTenth ''PM4.0'' (pm4p0 m) ''ug/m3'' else PrintNa ''PM4.0'') (\<lambda>_.
     io_bind (if valid m AND field_mask kFieldPm10 \<noteq> 0
              then PrintUnsignedTenth ''PM10'' (pm10 m) ''ug/m3'' else PrintNa ''PM10'') (\<lambda>_.
     io_bind (if valid m AND field_mask kFieldHumidity \<noteq> 0
              then PrintSignedFixed ''Humidity'' (sint (humidity m)) 100 ''%RH''
              else PrintNa ''Humidity'') (\<lambda>_.
     io_bind (if valid m AND field_mask kFieldTemperature \<noteq> 0
              then PrintSignedFixed ''Temperature'' (div_trunc (sint (temperature m) * 100) 200) 100 ''degC''
              else PrintNa ''Temperature'') (\<lambda>_.
     io_bind (if valid m AND field_mask kFieldVocIndex \<noteq> 0
              then PrintSignedFixed ''VOC index'' (sint (voc_index m)) 10 ''''
              else PrintNa ''VOC index'') (\<lambda>_.
     io_bind (if valid m AND field_mask kFieldNoxIndex \<noteq> 0
              then PrintSignedFixed ''NOx index'' (sint (nox_index m)) 10 ''''
              else PrintNa ''NOx index'') (\<lambda>_.
     if valid m AND field_mask kFieldCo2 \<noteq> 0
     then shell_print (''  '' @ format_12s ''CO2'' @ '' '' @ format_u (unat (co2 m)) @ '' ppm'')
     else PrintNa ''CO2''))))))))"

text \<open>The array of \<^verbatim>\<open>CmdSerial\<close> is not initialised: its contents are a parameter.\<close>

definition CmdSerial :: "bytes \<Rightarrow> errno io" where
  "CmdSerial serial =
     io_bind (ReadSerialNumber serial) (\<lambda>(err, serial).
     if err \<noteq> 0
     then Do (ShellPrint ShellError (''SEN66: serial read failed ('' @ format_d err @ '')'')) (Ret err)
     else io_bind (defined (format_chars serial)) (\<lambda>text.
          io_bind (shell_print (''SEN66 serial: '' @ text)) (\<lambda>_. Ret 0)))"

function poll_ready :: "nat \<Rightarrow> bool \<Rightarrow> bool io" where
  "poll_ready i ready =
     (if i < kDataReadyPollCount \<and> \<not> ready
      then io_bind IsDataReady (\<lambda>ready.
           if \<not> ready then Do (Msleep kDataReadyPollMs) (poll_ready (i + 1) ready)
           else poll_ready (i + 1) ready)
      else Ret ready)"
  by auto
termination by (relation "measure (\<lambda>(i, _). kDataReadyPollCount - i)") auto

declare poll_ready.simps [simp del]

definition CmdRead :: "errno io" where
  "CmdRead =
     io_bind StartMeasurement (\<lambda>_.
     io_bind (poll_ready 0 False) (\<lambda>ready.
     if \<not> ready
     then Do (ShellPrint ShellWarning ''SEN66: no data ready (still warming up?)'') (Ret (- EAGAIN))
     else
       io_bind (ReadMeasurement Measurement_init) (\<lambda>(err, m).
       if err \<noteq> 0
       then Do (ShellPrint ShellError (''SEN66: read failed ('' @ format_d err @ '')'')) (Ret err)
       else
         io_bind (shell_print ''SEN66 measurement:'') (\<lambda>_.
         io_bind (PrintMeasurement m) (\<lambda>_. Ret 0)))))"

definition CmdLatest :: "errno io" where
  "CmdLatest =
     io_bind Service_GetLatest (\<lambda>(ok, snapshot).
     if \<not> ok
     then Do (ShellPrint ShellWarning ''SEN66: no measurement yet (still starting up?)'') (Ret (- EAGAIN))
     else
       io_bind (shell_print (''SEN66 latest (age '' @ format_d (ageMs snapshot) @ '' ms):'')) (\<lambda>_.
       io_bind (PrintMeasurement (measurement snapshot)) (\<lambda>_. Ret 0)))"

text \<open>
  The sub-commands of \<^verbatim>\<open>sen66\<close> with their help texts, which depend on the build option
  \<^verbatim>\<open>CONFIG_APP_MEASUREMENT_SERVICE\<close>.  The contents of the uninitialised array of
  \<^verbatim>\<open>CmdSerial\<close> at the call are the parameter \<open>serial\<close>.
\<close>

definition sen66_cmds :: "bool \<Rightarrow> bytes \<Rightarrow> (string \<times> string \<times> errno io) list" where
  "sen66_cmds app_service serial =
     (if app_service
      then [(''serial'', ''Read the SEN66 serial number'', CmdSerial serial),
            (''read'', ''Read one SEN66 measurement'', CmdRead),
            (''latest'', ''Print the measurement service's latest snapshot (non-blocking)'', CmdLatest)]
      else [(''serial'', ''Read the SEN66 serial number'', CmdSerial serial),
            (''read'', ''Read one SEN66 measurement'', CmdRead)])"

section \<open>The lines of a measurement\<close>

text \<open>The decimal number a fixed-point value is printed as.\<close>

definition fixed_text :: "int \<Rightarrow> int \<Rightarrow> string" where
  "fixed_text scaled frac_pow =
     (if scaled < 0 then ''-'' else '''') @ format_u (nat (\<bar>scaled\<bar> div frac_pow)) @ ''.'' @
     (if frac_pow = 100 then format_02d (\<bar>scaled\<bar> mod frac_pow) else format_u (nat (\<bar>scaled\<bar> mod frac_pow)))"

definition channel_line :: "Measurement \<Rightarrow> Field \<Rightarrow> string \<Rightarrow> string \<Rightarrow> string \<Rightarrow> string" where
  "channel_line m f lbl number unit =
     ''  '' @ format_12s lbl @ '' '' @ (if is_valid m f then number @ '' '' @ unit else ''<n/a>'')"

definition measurement_lines :: "Measurement \<Rightarrow> string list" where
  "measurement_lines m =
     [channel_line m kFieldPm1p0 ''PM1.0'' (fixed_text (uint (pm1p0 m)) 10) ''ug/m3'',
      channel_line m kFieldPm2p5 ''PM2.5'' (fixed_text (uint (pm2p5 m)) 10) ''ug/m3'',
      channel_line m kFieldPm4p0 ''PM4.0'' (fixed_text (uint (pm4p0 m)) 10) ''ug/m3'',
      channel_line m kFieldPm10 ''PM10'' (fixed_text (uint (pm10 m)) 10) ''ug/m3'',
      channel_line m kFieldHumidity ''Humidity'' (fixed_text (sint (humidity m)) 100) ''%RH'',
      channel_line m kFieldTemperature ''Temperature''
        (fixed_text (div_trunc (sint (temperature m)) 2) 100) ''degC'',
      channel_line m kFieldVocIndex ''VOC index'' (fixed_text (sint (voc_index m)) 10) '''',
      channel_line m kFieldNoxIndex ''NOx index'' (fixed_text (sint (nox_index m)) 10) '''',
      channel_line m kFieldCo2 ''CO2'' (format_u (unat (co2 m))) ''ppm'']"

lemma div_trunc_parts:
  assumes "0 < d"
  shows "div_trunc a d = (if a < 0 then - (\<bar>a\<bar> div d) else \<bar>a\<bar> div d)"
    and "a - div_trunc a d * d = (if a < 0 then - (\<bar>a\<bar> mod d) else \<bar>a\<bar> mod d)"
proof -
  show q: "div_trunc a d = (if a < 0 then - (\<bar>a\<bar> div d) else \<bar>a\<bar> div d)"
    using assms by (auto simp: div_trunc_def sgn_if)
  define k where "k = \<bar>a\<bar> div d"
  define r where "r = \<bar>a\<bar> mod d"
  have "\<bar>a\<bar> = k * d + r" by (simp add: k_def r_def)
  then show "a - div_trunc a d * d = (if a < 0 then - (\<bar>a\<bar> mod d) else \<bar>a\<bar> mod d)"
    unfolding q k_def [symmetric] r_def [symmetric] by (cases "a < 0") simp_all
qed

lemma PrintSignedFixed_text:
  assumes "frac_pow = 10 \<or> frac_pow = 100"
  shows "PrintSignedFixed lbl scaled frac_pow unit =
    shell_print (''  '' @ format_12s lbl @ '' '' @ fixed_text scaled frac_pow @ '' '' @ unit)"
proof -
  have pos: "0 < frac_pow" using assms by auto
  have frac: "(if scaled - div_trunc scaled frac_pow * frac_pow < 0
      then - (scaled - div_trunc scaled frac_pow * frac_pow)
      else scaled - div_trunc scaled frac_pow * frac_pow) = \<bar>scaled\<bar> mod frac_pow"
    using pos by (auto simp: div_trunc_parts(2) pos_mod_sign order.antisym)
  have whole: "(if scaled < 0 \<and> div_trunc scaled frac_pow = 0 then ''-'' else '''') @
      format_d (div_trunc scaled frac_pow) =
      (if scaled < 0 then ''-'' else '''') @ format_u (nat (\<bar>scaled\<bar> div frac_pow))"
  proof -
    define q where "q = \<bar>scaled\<bar> div frac_pow"
    have "0 \<le> q" using pos by (simp add: q_def pos_imp_zdiv_nonneg_iff)
    moreover have "div_trunc scaled frac_pow = (if scaled < 0 then - q else q)"
      using pos by (simp add: div_trunc_parts(1) q_def)
    ultimately show ?thesis unfolding q_def [symmetric] by (auto simp: format_d_def)
  qed
  have "format_d (\<bar>scaled\<bar> mod frac_pow) = format_u (nat (\<bar>scaled\<bar> mod frac_pow))"
    using pos_mod_sign [OF pos, of "\<bar>scaled\<bar>"] by (simp add: format_d_def)
  then show ?thesis
    using whole unfolding PrintSignedFixed_def fixed_text_def Let_def frac by auto
qed

lemma PrintUnsignedTenth_text:
  "PrintUnsignedTenth lbl raw unit =
    shell_print (''  '' @ format_12s lbl @ '' '' @ fixed_text (uint raw) 10 @ '' '' @ unit)"
  by (simp add: PrintUnsignedTenth_def fixed_text_def nat_div_distrib nat_mod_distrib flip: unat_eq_nat_uint)

text \<open>Every channel prints one line.\<close>

lemma channel_line_print:
  "(if is_valid m f
    then shell_print (''  '' @ format_12s lbl @ '' '' @ number @ '' '' @ unit)
    else PrintNa lbl) = shell_print (channel_line m f lbl number unit)"
  by (simp add: channel_line_def PrintNa_def)

lemma PrintMeasurement_lines:
  "PrintMeasurement m =
     foldr (\<lambda>l p. Do (ShellPrint ShellNormal l) p) (measurement_lines m) (Ret ())"
proof -
  have co2: "''  '' @ format_12s ''CO2'' @ '' '' @ x @ '' ppm'' =
      ''  '' @ format_12s ''CO2'' @ '' '' @ x @ '' '' @ ''ppm''" for x by simp
  have voc: "PrintSignedFixed lbl s 10 [] = shell_print (''  '' @ format_12s lbl @ '' '' @ fixed_text s 10 @ '' '' @ [])"
    for lbl s by (rule PrintSignedFixed_text) simp
  have fixed: "PrintSignedFixed lbl s 100 unit =
      shell_print (''  '' @ format_12s lbl @ '' '' @ fixed_text s 100 @ '' '' @ unit)" for lbl s unit
    by (rule PrintSignedFixed_text) simp
  note valid = is_valid_def [symmetric]
  show ?thesis
    unfolding PrintMeasurement_def valid voc fixed PrintUnsignedTenth_text co2 div_trunc_half
      channel_line_print measurement_lines_def
    by (simp only: shell_print_def io_bind.simps foldr.simps comp_def id_apply)
qed

lemma run_prints:
  "run E (io_bind (foldr (\<lambda>l p. Do (ShellPrint s l) p) ls (Ret ())) f) w =
     run E (f ()) (w\<lparr>history := history w @ map (Did \<circ> ShellPrint s) ls\<rparr>)"
  by (induction ls arbitrary: w) (simp_all add: perform_def log_event_def)

lemma run_shell_print: "run E (io_bind (shell_print l) f) w = run E (f ()) (log_event (Did (ShellPrint ShellNormal l)) w)"
  by (simp add: shell_print_def perform_def log_event_def)

lemma well_locked_shell [discipline]:
  "well_locked (shell_print l) None False" "well_locked (PrintMeasurement m) None False"
proof -
  have "well_locked (foldr (\<lambda>l p. Do (ShellPrint s l) p) ls (Ret ())) None False" for ls s
    by (induction ls) simp_all
  then show "well_locked (PrintMeasurement m) None False" by (simp add: PrintMeasurement_lines)
qed (simp add: shell_print_def)

section \<open>The printed decimals\<close>

text \<open>Reading a decimal number back.\<close>

definition digit_value :: "char \<Rightarrow> nat option" where
  "digit_value c = (if 48 \<le> (of_char c :: nat) \<and> (of_char c :: nat) \<le> 57 then Some (of_char c - 48) else None)"

definition read_digits :: "string \<Rightarrow> nat option" where
  "read_digits s = fold (\<lambda>c r. case (r, digit_value c) of (Some n, Some d) \<Rightarrow> Some (10 * n + d) | _ \<Rightarrow> None)
     s (if s = [] then None else Some 0)"

definition read_decimal :: "string \<Rightarrow> rat option" where
  "read_decimal s =
     (let (neg, s) = (case s of c # t \<Rightarrow> if c = CHR ''-'' then (True, t) else (False, s) | [] \<Rightarrow> (False, s));
          whole = takeWhile (\<lambda>c. c \<noteq> CHR ''.'') s;
          fr = drop (Suc (length whole)) s
      in case (read_digits whole, read_digits fr) of
           (Some w, Some f) \<Rightarrow>
             Some ((if neg then - 1 else 1) * (of_nat w + of_nat f / 10 ^ length fr))
         | _ \<Rightarrow> None)"

lemma digit_value_digit: "n < 10 \<Longrightarrow> digit_value (digit n) = Some n"
  by (simp add: digit_value_def digit_def)

lemma read_digits_snoc:
  "s \<noteq> [] \<Longrightarrow> n < 10 \<Longrightarrow> read_digits (s @ [digit n]) = map_option (\<lambda>k. 10 * k + n) (read_digits s)"
  by (auto simp: read_digits_def digit_value_digit split: option.splits)

lemma format_u_not_Nil [simp]: "format_u n \<noteq> []"
  by (subst format_u.simps) simp

lemma read_digits_format_u: "read_digits (format_u n) = Some n"
proof (induction n rule: format_u.induct)
  case (1 n)
  show ?case
  proof (cases "n < 10")
    case True
    then show ?thesis by (subst format_u.simps) (simp add: read_digits_def digit_value_digit)
  next
    case False
    then show ?thesis using 1 by (subst format_u.simps) (simp add: read_digits_snoc)
  qed
qed

lemma format_u_digits: "c \<in> set (format_u n) \<Longrightarrow> \<exists>d < 10. c = digit d"
proof (induction n rule: format_u.induct)
  case (1 n)
  have "n mod 10 < 10" by simp
  then have "\<exists>d < 10. digit (n mod 10) = digit d" by blast
  with 1 show ?case by (subst (asm) (2) format_u.simps) (auto split: if_splits)
qed

lemma of_char_digit: "d < 10 \<Longrightarrow> (of_char (digit d) :: nat) = 48 + d"
  by (simp add: digit_def)

lemma digit_no_punctuation: "d < 10 \<Longrightarrow> digit d \<noteq> CHR ''.'' \<and> digit d \<noteq> CHR ''-''"
  using of_char_digit [of d] by (auto simp: of_char_eq_iff [where 'a = nat, symmetric] simp del: of_char_eq_iff)

lemma format_u_no_punctuation: "CHR ''.'' \<notin> set (format_u n)" "CHR ''-'' \<notin> set (format_u n)"
  using format_u_digits digit_no_punctuation by metis+

lemma format_u_small: "n < 10 \<Longrightarrow> format_u n = [digit n]"
  by (subst format_u.simps) simp

lemma format_02d_digits:
  assumes "0 \<le> i" "i < 100"
  shows "length (format_02d i) = 2" and "read_digits (format_02d i) = Some (nat i)"
proof -
  have "format_02d i = [digit (nat i div 10), digit (nat i mod 10)]"
  proof (cases "nat i < 10")
    case True
    with assms show ?thesis by (simp add: format_02d_def Let_def format_u_small)
  next
    case False
    with assms have "format_u (nat i) = [digit (nat i div 10), digit (nat i mod 10)]"
      by (subst format_u.simps) (simp add: format_u_small)
    with assms show ?thesis by (simp add: format_02d_def Let_def)
  qed
  moreover have "nat i div 10 < 10" using assms by linarith
  moreover have "10 * (nat i div 10) + nat i mod 10 = nat i" by simp
  ultimately show "length (format_02d i) = 2" "read_digits (format_02d i) = Some (nat i)"
    by (simp_all add: read_digits_def digit_value_digit)
qed

text \<open>The text of a whole and a fractional part, read back.\<close>

lemma read_decimal_text:
  assumes "read_digits fr = Some f"
  shows "read_decimal ((if neg then ''-'' else '''') @ format_u w @ ''.'' @ fr) =
    Some ((if neg then - 1 else 1) * (of_nat w + of_nat f / 10 ^ length fr))"
proof -
  obtain c t where ct: "format_u w = c # t" by (cases "format_u w") auto
  have "c \<noteq> CHR ''-''" using format_u_no_punctuation(2) [of w] by (auto simp: ct)
  then have split: "(case (if neg then ''-'' else '''') @ format_u w @ ''.'' @ fr of
      c # t \<Rightarrow> if c = CHR ''-'' then (True, t) else (False, (if neg then ''-'' else '''') @ format_u w @ ''.'' @ fr)
      | [] \<Rightarrow> (False, (if neg then ''-'' else '''') @ format_u w @ ''.'' @ fr)) =
      (neg, format_u w @ ''.'' @ fr)"
    by (cases neg) (simp_all add: ct)
  have whole: "takeWhile (\<lambda>c. c \<noteq> CHR ''.'') (format_u w @ ''.'' @ fr) = format_u w"
    using format_u_no_punctuation(1) [of w] by (subst takeWhile_append2) auto
  show ?thesis
    unfolding read_decimal_def split Let_def prod.case whole
    by (simp add: read_digits_format_u assms)
qed

lemma read_fixed_text:
  assumes "frac_pow = 10 \<or> frac_pow = 100"
  shows "read_decimal (fixed_text scaled frac_pow) = Some (of_int scaled / of_int frac_pow)"
proof -
  define w where "w = nat (\<bar>scaled\<bar> div frac_pow)"
  define f where "f = nat (\<bar>scaled\<bar> mod frac_pow)"
  define fr where "fr = (if frac_pow = 100 then format_02d (\<bar>scaled\<bar> mod frac_pow) else format_u f)"
  have pos: "0 < frac_pow" using assms by auto
  have f: "int f = \<bar>scaled\<bar> mod frac_pow" "int w = \<bar>scaled\<bar> div frac_pow"
    using pos by (simp_all add: f_def w_def pos_imp_zdiv_nonneg_iff)
  have lt: "\<bar>scaled\<bar> mod frac_pow < frac_pow" using pos by (rule pos_mod_bound)
  have digits: "read_digits fr = Some f \<and> 10 ^ length fr = (of_int frac_pow :: rat)"
  proof (cases "frac_pow = 100")
    case True
    with lt f format_02d_digits [of "\<bar>scaled\<bar> mod 100"] show ?thesis by (simp add: fr_def f_def)
  next
    case False
    with assms have ten: "frac_pow = 10" by simp
    have "f < 10" using lt f(1) ten by linarith
    with ten have "length fr = 1" "fr = format_u f" by (simp_all add: fr_def format_u_small)
    with ten show ?thesis by (simp add: read_digits_format_u)
  qed
  have "\<bar>scaled\<bar> = int w * frac_pow + int f" unfolding f by simp
  then have "(of_int \<bar>scaled\<bar> :: rat) = of_nat w * of_int frac_pow + of_nat f"
    by (metis of_int_add of_int_mult of_int_of_nat_eq)
  then have parts: "of_nat w + of_nat f / of_int frac_pow = (of_int \<bar>scaled\<bar> :: rat) / of_int frac_pow"
    using pos by (simp add: field_simps)
  have "fixed_text scaled frac_pow = (if scaled < 0 then ''-'' else '''') @ format_u w @ ''.'' @ fr"
    by (simp add: fixed_text_def fr_def w_def f_def)
  then show ?thesis
    using read_decimal_text [of fr f "scaled < 0" w] digits parts by (cases "scaled < 0") simp_all
qed

lemma well_locked_poll_ready: "well_locked (poll_ready i ready) None False"
proof (induction i ready rule: poll_ready.induct)
  case (1 i ready)
  show ?case
  proof (cases "i < kDataReadyPollCount \<and> \<not> ready")
    case True
    with 1 show ?thesis
      by (subst poll_ready.simps) (simp, intro well_locked_bind, simp_all add: discipline)
  next
    case False
    then show ?thesis by (subst poll_ready.simps) auto
  qed
qed

lemma well_locked_CmdSerial [discipline]:
  "length serial = kSerialChars \<Longrightarrow> well_locked (CmdSerial serial) None False"
  by (auto simp: CmdSerial_def driver_defs Let_def buffer_parsers format_chars_def shell_print_def
      EIO_def split: prod.splits)

lemma well_locked_CmdRead [discipline]: "well_locked CmdRead None False"
  unfolding CmdRead_def
  by (intro well_locked_bind well_locked_driver(1) well_locked_poll_ready)
    (auto intro!: well_locked_bind well_locked_driver(4) simp: discipline)

lemma well_locked_CmdLatest [discipline]: "well_locked CmdLatest None False"
  unfolding CmdLatest_def
  by (intro well_locked_bind well_locked_Service_GetLatest)
    (auto intro!: well_locked_bind simp: discipline)

section \<open>Properties\<close>

text \<open>
  C32. The shell prints every measurement as nine lines in a fixed order, a channel that is not
  valid as \<^verbatim>\<open><n/a>\<close>.  The decimal in the line of a valid channel, read back, is the exact
  reading for eight channels, also between -1 and 0 where the whole part has no sign of its own:
  tenths for the four particulate channels and the two indexes, hundredths for the humidity,
  the whole number for CO2.  For the temperature, whose unit is a two-hundredth of a degree, it
  is the reading cut to hundredths towards zero, less than a hundredth from the reading, and
  the same hundredths that are published to Matter.
\<close>

theorem PrintMeasurement_prints_values:
  fixes m :: Measurement
  defines "celsius \<equiv> fixed_text (div_trunc (sint (temperature m)) 2) 100"
  shows "run E (PrintMeasurement m) w =
     (Some (), w\<lparr>history := history w @ map (Did \<circ> ShellPrint ShellNormal) (measurement_lines m)\<rparr>) \<and>
   map (\<lambda>raw. read_decimal (fixed_text (uint raw) 10)) [pm1p0 m, pm2p5 m, pm4p0 m, pm10 m] =
     map (\<lambda>raw. Some (of_int (uint raw) / 10)) [pm1p0 m, pm2p5 m, pm4p0 m, pm10 m] \<and>
   read_decimal (fixed_text (sint (humidity m)) 100) = Some (of_int (sint (humidity m)) / 100) \<and>
   map (\<lambda>raw. read_decimal (fixed_text (sint raw) 10)) [voc_index m, nox_index m] =
     map (\<lambda>raw. Some (of_int (sint raw) / 10)) [voc_index m, nox_index m] \<and>
   read_digits (format_u (unat (co2 m))) = Some (unat (co2 m)) \<and>
   (\<exists>shown. read_decimal celsius = Some shown \<and>
     shown = of_int (sint (TemperatureRawToMatterCentiDegC (temperature m))) / 100 \<and>
     \<bar>shown\<bar> \<le> \<bar>of_int (sint (temperature m)) / 200\<bar> \<and>
     \<bar>of_int (sint (temperature m)) / 200 - shown\<bar> < 1 / 100)"
proof -
  define a where "a = sint (temperature m)"
  define h where "h = div_trunc a 2"
  have half: "2 * h = (if a < 0 then - (2 * (\<bar>a\<bar> div 2)) else 2 * (\<bar>a\<bar> div 2))"
    by (simp add: h_def div_trunc_parts(1))
  have le: "\<bar>h\<bar> * 2 \<le> \<bar>a\<bar>" and lt: "\<bar>a - 2 * h\<bar> < 2" using half by (auto split: if_splits)
  have "of_int (\<bar>h\<bar> * 2) \<le> (of_int \<bar>a\<bar> :: rat)" using le by (simp only: of_int_le_iff)
  then have below: "\<bar>of_int h / 100 :: rat\<bar> \<le> \<bar>of_int a / 200\<bar>" by simp
  have "of_int \<bar>a - 2 * h\<bar> < (of_int 2 :: rat)" using lt by (simp only: of_int_less_iff)
  then have "\<bar>(of_int a - 2 * of_int h) / 200 :: rat\<bar> < 1 / 100" by simp
  moreover have "(of_int a - 2 * of_int h) / 200 = (of_int a / 200 - of_int h / 100 :: rat)"
    by (simp add: diff_divide_distrib)
  ultimately have near: "\<bar>of_int a / 200 - of_int h / 100 :: rat\<bar> < 1 / 100" by (simp only:)
  have "run E (PrintMeasurement m) w =
     (Some (), w\<lparr>history := history w @ map (Did \<circ> ShellPrint ShellNormal) (measurement_lines m)\<rparr>)"
    using run_prints [where f = Ret] by (simp add: PrintMeasurement_lines)
  moreover have "sint (TemperatureRawToMatterCentiDegC (temperature m)) = h"
    by (simp add: sint_Temperature h_def a_def)
  moreover have "read_decimal celsius = Some (of_int h / 100)"
    unfolding celsius_def by (simp add: read_fixed_text h_def a_def)
  ultimately show ?thesis
    using below near
    by (intro conjI exI [of _ "of_int h / 100"]) (simp_all add: read_fixed_text read_digits_format_u a_def)
qed

text \<open>
  The text printed for a fixed-point value, with one or two decimals, denotes that value
  exactly, whatever its sign.
\<close>

theorem PrintSignedFixed_roundtrip:
  assumes "frac_pow = 10 \<or> frac_pow = 100"
  shows "\<exists>number. PrintSignedFixed lbl scaled frac_pow unit =
      Do (ShellPrint ShellNormal (''  '' @ format_12s lbl @ '' '' @ number @ '' '' @ unit)) (Ret ()) \<and>
    read_decimal number = Some (of_int scaled / of_int frac_pow)"
  using PrintSignedFixed_text [OF assms] read_fixed_text [OF assms] by (metis shell_print_def)

theorem PrintSignedFixed_roundtrip_witness:
  "\<exists>number. PrintSignedFixed ''Temperature'' (- 5) 100 ''degC'' =
     Do (ShellPrint ShellNormal (''  Temperature  '' @ number @ '' degC'')) (Ret ()) \<and>
     read_decimal number = Some (- 1 / 20)"
  using PrintSignedFixed_roundtrip [of 100 "''Temperature''" "- 5" "''degC''"]
  by (simp add: format_12s_def)

section \<open>The commands\<close>

text \<open>The lines printed in a run of events.\<close>

fun printed :: "event list \<Rightarrow> string list" where
  "printed [] = []"
| "printed (Did (ShellPrint s l) # es) = l # printed es"
| "printed (e # es) = printed es"

lemma printed_append [simp]: "printed (es @ fs) = printed es @ printed fs"
  by (induction es rule: printed.induct) simp_all

lemma printed_lines [simp]: "printed (map (Did \<circ> ShellPrint s) ls) = ls"
  by (induction ls) simp_all

lemma commands_lines [simp]: "commands (map (Did \<circ> ShellPrint s) ls) = []"
  by (induction ls) simp_all

lemma printed_exchange [simp]: "printed (history (exchange E w cmd n)) = printed (history w)"
  by (simp add: exchange_def)

lemma run_print_measurement:
  "run E (io_bind (PrintMeasurement m) f) w =
     run E (f ()) (w\<lparr>history := history w @ map (Did \<circ> ShellPrint ShellNormal) (measurement_lines m)\<rparr>)"
  by (simp add: PrintMeasurement_lines run_prints)

text \<open>
  The world after \<open>n\<close> polls that found no data, each followed by its delay, and what the
  sensor answers to the next one.
\<close>

primrec after_polls :: "env \<Rightarrow> nat \<Rightarrow> world \<Rightarrow> world" where
  "after_polls E 0 v = v"
| "after_polls E (Suc n) v =
     after_polls E n (perform (Msleep kDataReadyPollMs) (exchange E v Cmd_GetDataReady kDataReadyBytes))"

definition ready_answer :: "env \<Rightarrow> world \<Rightarrow> nat \<Rightarrow> bool" where
  "ready_answer E v n \<longleftrightarrow> fst (run E IsDataReady (after_polls E n v)) = Some True"

lemma ready_answer_Suc:
  "ready_answer E v (Suc n) =
     ready_answer E (perform (Msleep kDataReadyPollMs) (exchange E v Cmd_GetDataReady kDataReadyBytes)) n"
  by (simp add: ready_answer_def)

lemma after_polls_simps [simp]:
  "commands (history (after_polls E n v)) = commands (history v) @ replicate n (command_bytes Cmd_GetDataReady)"
  "printed (history (after_polls E n v)) = printed (history v)"
  by (induction n arbitrary: v) simp_all

text \<open>Polling stops at the first answer that says ready, and gives up when no poll is left.\<close>

lemma run_poll_ready:
  assumes "i \<le> kDataReadyPollCount"
  shows "\<exists>k. i + k \<le> kDataReadyPollCount \<and> list_all (\<lambda>n. \<not> ready_answer E v n) [0..<k] \<and>
    (if i + k < kDataReadyPollCount
     then ready_answer E v k \<and> run E (poll_ready i False) v =
       (Some True, exchange E (after_polls E k v) Cmd_GetDataReady kDataReadyBytes)
     else run E (poll_ready i False) v = (Some False, after_polls E k v))"
  using assms
proof (induction "kDataReadyPollCount - i" arbitrary: i v)
  case 0
  then show ?case
    by (subst poll_ready.simps) (intro exI [of _ "0 :: nat"], simp)
next
  case (Suc n)
  let ?w = "exchange E v Cmd_GetDataReady kDataReadyBytes"
  let ?v = "perform (Msleep kDataReadyPollMs) ?w"
  have i: "i < kDataReadyPollCount" using Suc.hyps(2) by linarith
  obtain ready where r: "run E IsDataReady v = (Some ready, ?w)"
    by (simp add: run_IsDataReady Let_def)
  show ?case
  proof (cases ready)
    case True
    have "run E (poll_ready i False) v = (Some True, ?w)"
      using i True r by (subst poll_ready.simps) (simp add: run_bind poll_ready.simps)
    then show ?thesis
      using i True r by (intro exI [of _ "0 :: nat"]) (simp add: ready_answer_def)
  next
    case False
    have "n = kDataReadyPollCount - Suc i" "Suc i \<le> kDataReadyPollCount"
      using Suc.hyps(2) by simp_all
    from Suc.hyps(1) [OF this, of ?v]
    obtain k where k: "Suc i + k \<le> kDataReadyPollCount" "list_all (\<lambda>n. \<not> ready_answer E ?v n) [0..<k]"
      "if Suc i + k < kDataReadyPollCount
       then ready_answer E ?v k \<and> run E (poll_ready (Suc i) False) ?v =
         (Some True, exchange E (after_polls E k ?v) Cmd_GetDataReady kDataReadyBytes)
       else run E (poll_ready (Suc i) False) ?v = (Some False, after_polls E k ?v)"
      by blast
    have run: "run E (poll_ready i False) v = run E (poll_ready (Suc i) False) ?v"
      using i False r by (subst poll_ready.simps) (simp add: run_bind)
    have "\<not> ready_answer E v 0" using False r by (simp add: ready_answer_def)
    moreover have "[0..<Suc k] = 0 # map Suc [0..<k]" by (simp add: upt_conv_Cons map_Suc_upt del: upt_Suc)
    ultimately have "list_all (\<lambda>n. \<not> ready_answer E v n) [0..<Suc k]"
      using k(2) by (simp add: ready_answer_Suc list.pred_map comp_def del: upt_Suc)
    then show ?thesis
      using k(1,3) unfolding run by (intro exI [of _ "Suc k"]) (simp add: ready_answer_Suc)
  qed
qed

text \<open>
  C31. \<^verbatim>\<open>sen66 read\<close> always returns.  It sends one start command, whose refusal it ignores, and
  polls for data until the sensor answers that there is some, at most 20 times with the delay
  after each vain poll.  If no answer says so it has polled exactly 20 times, does not read the
  sensor, prints the warning and returns \<^verbatim>\<open>-EAGAIN\<close>; otherwise it reads the sensor once, right
  after that answer, returns what the driver returns and prints the nine lines of that reading
  or the error.
\<close>

theorem CmdRead_polls_at_most_20_times:
  fixes E :: env and w :: world
  defines "v \<equiv> snd (run E StartMeasurement w)"
  shows "\<exists>k \<le> 20. list_all (\<lambda>n. \<not> ready_answer E v n) [0..<k] \<and>
    (if k < 20
     then ready_answer E v k \<and>
       (\<exists>err m w'. fst (run E (ReadMeasurement Measurement_init)
            (exchange E (after_polls E k v) Cmd_GetDataReady kDataReadyBytes)) = Some (err, m) \<and>
          run E CmdRead w = (Some err, w') \<and>
          commands (history w') = commands (history w) @ command_bytes Cmd_StartMeasurement #
            replicate (Suc k) (command_bytes Cmd_GetDataReady) @ [command_bytes Cmd_ReadMeasuredValues] \<and>
          printed (history w') = printed (history w) @
            (if err = 0 then ''SEN66 measurement:'' # measurement_lines m
             else [''SEN66: read failed ('' @ format_d err @ '')'']))
     else (\<exists>w'. run E CmdRead w = (Some (- EAGAIN), w') \<and>
          commands (history w') = commands (history w) @ command_bytes Cmd_StartMeasurement #
            replicate 20 (command_bytes Cmd_GetDataReady) \<and>
          printed (history w') = printed (history w) @ [''SEN66: no data ready (still warming up?)'']))"
proof -
  obtain k where k: "k \<le> 20" "list_all (\<lambda>n. \<not> ready_answer E v n) [0..<k]"
    "if k < 20 then ready_answer E v k \<and> run E (poll_ready 0 False) v =
       (Some True, exchange E (after_polls E k v) Cmd_GetDataReady kDataReadyBytes)
     else run E (poll_ready 0 False) v = (Some False, after_polls E k v)"
    using run_poll_ready [of 0 E v] by (auto simp: kDataReadyPollCount_def)
  have start: "commands (history v) = commands (history w) @ [command_bytes Cmd_StartMeasurement]"
    "printed (history v) = printed (history w)"
    by (simp_all add: v_def run_StartMeasurement Let_def)
  have begin_read: "run E CmdRead w = run E (io_bind (poll_ready 0 False) f) v"
    if "CmdRead = io_bind StartMeasurement (\<lambda>_. io_bind (poll_ready 0 False) f)" for f
    by (simp add: that run_bind [of E StartMeasurement] v_def run_StartMeasurement Let_def)
  note run = begin_read [OF CmdRead_def]
  show ?thesis
  proof (cases "k < 20")
    case False
    then have "k = 20" using k(1) by simp
    then show ?thesis
      using k start by (intro exI [of _ k]) (simp add: run run_bind)
  next
    case True
    let ?u = "exchange E (after_polls E k v) Cmd_GetDataReady kDataReadyBytes"
    have poll: "run E (poll_ready 0 False) v = (Some True, ?u)" using k(3) True by simp
    have cmds: "commands (history ?u) = commands (history w) @ command_bytes Cmd_StartMeasurement #
        replicate (Suc k) (command_bytes Cmd_GetDataReady)" "printed (history ?u) = printed (history w)"
      using start by (simp_all add: replicate_append_same [symmetric])
    have "\<exists>err m w'. fst (run E (ReadMeasurement Measurement_init) ?u) = Some (err, m) \<and>
        run E CmdRead w = (Some err, w') \<and>
        commands (history w') = commands (history ?u) @ [command_bytes Cmd_ReadMeasuredValues] \<and>
        printed (history w') = printed (history ?u) @
          (if err = 0 then ''SEN66 measurement:'' # measurement_lines m
           else [''SEN66: read failed ('' @ format_d err @ '')''])"
    proof (cases rule: run_ReadMeasurement_cases [of E Measurement_init ?u])
      case (success ws)
      then show ?thesis
        by (simp add: run run_bind [of E "poll_ready 0 False"] poll run_bind [of E "ReadMeasurement _"]
            run_shell_print run_print_measurement)
    next
      case (failure err)
      then show ?thesis
        by (simp add: run run_bind [of E "poll_ready 0 False"] poll run_bind [of E "ReadMeasurement _"]
            perform_def log_event_def)
    qed
    then show ?thesis using k True unfolding cmds by (intro exI [of _ k]) simp
  qed
qed

text \<open>
  \<^verbatim>\<open>sen66 serial\<close> prints the text the sensor sent, whatever the uninitialised array of the
  handler held before.
\<close>

theorem CmdSerial_prints_sensor_text:
  assumes "length serial = kSerialChars" and "length text \<le> 32" and "0 \<notin> set text"
    and "write_errno E w Cmd_GetSerialNumber = 0"
    and "read_errno E w Cmd_GetSerialNumber kSerialBytes = 0"
    and "response E w Cmd_GetSerialNumber kSerialBytes = BuildSerial text"
  shows "run E (CmdSerial serial) w =
    (Some 0, log_event (Did (ShellPrint ShellNormal (''SEN66 serial: '' @ map (char_of \<circ> unat) text)))
       (exchange E w Cmd_GetSerialNumber kSerialBytes))"
proof -
  have "format_chars (take 32 (text @ replicate 32 0) @ [0]) = Some (map (char_of \<circ> unat) text)"
    using c_string_padded [OF assms(2,3)] by (simp add: format_chars_def)
  then show ?thesis
    using assms(4-6)
    by (simp add: CmdSerial_def run_bind [of E "ReadSerialNumber _"] run_ReadSerialNumber [OF assms(1)] Let_def
        frame_ok_BuildSerial payload_bytes_BuildSerial run_shell_print)
qed

theorem CmdSerial_prints_sensor_text_witness:
  "printed (history (snd (run (steady_bus (BuildSerial [0x53, 0x36])) (CmdSerial (replicate 33 0xAA)) world_init)))
     = [''SEN66 serial: S6'']"
proof -
  have "run (steady_bus (BuildSerial [0x53, 0x36])) (CmdSerial (replicate 33 0xAA)) world_init =
    (Some 0, log_event (Did (ShellPrint ShellNormal (''SEN66 serial: '' @ map (char_of \<circ> unat) [0x53, 0x36 :: u8])))
       (exchange (steady_bus (BuildSerial [0x53, 0x36])) world_init Cmd_GetSerialNumber kSerialBytes))"
    by (rule CmdSerial_prints_sensor_text) (simp_all add: layout_defs length_BuildSerial)
  then show ?thesis by (simp add: world_init_def char_of_def bit_Suc_0_iff)
qed

text \<open>
  No response of the sensor makes \<^verbatim>\<open>sen66 serial\<close> read past its array: the handler returns on
  every behaviour of the bus, prints exactly one line and leaves the bus mutex free.
\<close>

theorem CmdSerial_is_safe:
  assumes "length serial = kSerialChars"
  shows "\<exists>err w' es. run E (CmdSerial serial) w = (Some err, w') \<and> history w' = history w @ es \<and>
    length (printed es) = 1 \<and> held_after None es = Some None"
proof -
  let ?v = "exchange E w Cmd_GetSerialNumber kSerialBytes"
  have "\<exists>err out. run E (ReadSerialNumber serial) w = (Some (err, out), ?v) \<and> (err = 0 \<longrightarrow> 0 \<in> set out)"
    by (simp add: run_ReadSerialNumber [OF assms] Let_def EIO_def)
  then obtain err out where r: "run E (ReadSerialNumber serial) w = (Some (err, out), ?v)"
    and ok: "err = 0 \<longrightarrow> 0 \<in> set out" by blast
  have "\<exists>s l. run E (CmdSerial serial) w = (Some err, log_event (Did (ShellPrint s l)) ?v)"
    using ok by (cases "err = 0")
      (auto simp: CmdSerial_def run_bind [of E "ReadSerialNumber _"] r format_chars_def run_shell_print
        perform_def log_event_def shell_print_def)
  then obtain s l where c: "run E (CmdSerial serial) w = (Some err, log_event (Did (ShellPrint s l)) ?v)"
    by blast
  have "\<exists>es. history ?v = history w @ es \<and> printed es = [] \<and>
      held_after None (es @ [Did (ShellPrint s l)]) = Some None"
    by (cases "write_errno E w Cmd_GetSerialNumber = 0") (simp_all add: exchange_def)
  then obtain es where "history ?v = history w @ es" "printed es = []"
    "held_after None (es @ [Did (ShellPrint s l)]) = Some None" by blast
  then show ?thesis unfolding c by (intro exI [of _ err] exI [of _ "es @ [Did (ShellPrint s l)]"] exI) auto
qed

theorem CmdSerial_is_safe_witness:
  "\<exists>err w' es. run (steady_bus (replicate 48 0xFF)) (CmdSerial (replicate 33 0xAA)) world_init = (Some err, w') \<and>
    history w' = es \<and> length (printed es) = 1"
  using CmdSerial_is_safe [of "replicate 33 0xAA" "steady_bus (replicate 48 0xFF)" world_init]
  by (auto simp: layout_defs world_init_def)

text \<open>
  \<^verbatim>\<open>sen66 latest\<close> never touches the sensor: it prints the snapshot as it is, or answers
  \<^verbatim>\<open>-EAGAIN\<close> before the first valid reading.
\<close>

theorem CmdLatest_prints_snapshot:
  "\<exists>w'. run E CmdLatest w = (Some (if everValid (snap w) then 0 else - EAGAIN), w') \<and>
     snap w' = snap w \<and> commands (history w') = commands (history w) \<and>
     printed (history w') = printed (history w) @
       (if everValid (snap w)
        then (''SEN66 latest (age '' @ format_d (ageMs (snap w)) @ '' ms):'') #
             measurement_lines (measurement (snap w))
        else [''SEN66: no measurement yet (still starting up?)''])"
  by (simp add: CmdLatest_def run_bind [of E Service_GetLatest] run_Service_GetLatest
      run_shell_print run_print_measurement)

end
