(* ===== verification/App_Task.thy ===== *)
theory App_Task
  imports Poll_Loop Sen66_Shell
begin

text \<open>
  \<^verbatim>\<open>src/app_task.cpp\<close> and \<^verbatim>\<open>src/main.cpp\<close>: the start of the application.  The build options
  \<^verbatim>\<open>CONFIG_APP_SEN66\<close> and \<^verbatim>\<open>CONFIG_APP_MEASUREMENT_SERVICE\<close> and the SDK's error code for a
  failed board are parameters.  \<^verbatim>\<open>StartApp\<close> never leaves its dispatch loop, so the model runs
  it for a number of dispatches: the value \<open>None\<close> means that it is still running.
\<close>

section \<open>The code\<close>

text \<open>
  \<^verbatim>\<open>sPolicy\<close> as the program starts with it.  \<open>Start_Sensor\<close>, the part of \<^verbatim>\<open>AppTask::Init\<close> that
  depends on the build options, returns the value it leaves in \<^verbatim>\<open>sPolicy\<close>.
\<close>

definition sPolicy_start :: Policy where
  "sPolicy_start = Policy_init PolicyConfig_default"

definition Start_Sensor :: "bool \<Rightarrow> bool \<Rightarrow> Policy io" where
  "Start_Sensor app_sen66 app_service =
     (if app_sen66
      then io_bind Driver_Init (\<lambda>ready.
           if \<not> ready then Ret sPolicy_start
           else if app_service then io_bind (Service_Init sPolicy_start) (\<lambda>(_, sPolicy). Ret sPolicy)
           else Ret sPolicy_start)
      else Ret sPolicy_start)"

definition AppTask_Init :: "bool \<Rightarrow> bool \<Rightarrow> int \<Rightarrow> int io" where
  "AppTask_Init app_sen66 app_service incorrect_state =
     Ask PrepareServer (\<lambda>err. if err \<noteq> CHIP_NO_ERROR then Ret err else
     Ask BoardInit (\<lambda>ok. if ok = 0 then Ret incorrect_state else
     io_bind (Start_Sensor app_sen66 app_service) (\<lambda>_.
     Ask RegisterEventHandler (\<lambda>err. if err \<noteq> CHIP_NO_ERROR then Ret err else
     Ask StartServer Ret))))"

primrec dispatch_loop :: "nat \<Rightarrow> int option io" where
  "dispatch_loop 0 = Ret None"
| "dispatch_loop (Suc n) = Ask DispatchNextTask (\<lambda>_. dispatch_loop n)"

definition StartApp :: "bool \<Rightarrow> bool \<Rightarrow> int \<Rightarrow> nat \<Rightarrow> int option io" where
  "StartApp app_sen66 app_service incorrect_state n =
     io_bind (AppTask_Init app_sen66 app_service incorrect_state) (\<lambda>err.
     if err \<noteq> CHIP_NO_ERROR then Ret (Some err) else dispatch_loop n)"

definition main :: "bool \<Rightarrow> bool \<Rightarrow> int \<Rightarrow> nat \<Rightarrow> int option io" where
  "main app_sen66 app_service incorrect_state n =
     io_bind (StartApp app_sen66 app_service incorrect_state n) (\<lambda>r.
     case r of None \<Rightarrow> Ret None
     | Some err \<Rightarrow> Ret (Some (if err = CHIP_NO_ERROR then 0 else 1)))"

section \<open>What starting does\<close>

text \<open>The queries of a run of events with their answers, those of the bus left aside.\<close>

fun bus_event :: "event \<Rightarrow> bool" where
  "bus_event (Asked (I2cWrite _) _) = True"
| "bus_event (Asked DeviceIsReady _) = True"
| "bus_event (Asked _ _) = False"
| "bus_event (SawCallback _) = False"
| "bus_event _ = True"

definition stack_events :: "event list \<Rightarrow> event list" where
  "stack_events es = filter (\<lambda>e. \<not> bus_event e) es"

lemma stack_events_simps [simp]:
  "stack_events [] = []" "stack_events (es @ fs) = stack_events es @ stack_events fs"
  "stack_events (e # es) = (if bus_event e then stack_events es else e # stack_events es)"
  by (simp_all add: stack_events_def)

lemma run_Start_Sensor:
  "\<exists>p es w'. run E (Start_Sensor app_sen66 app_service) w = (Some p, w') \<and> history w' = history w @ es \<and>
     stack_events es = [] \<and> callback w' = callback w \<and> snap w' = snap w \<and>
     ((\<exists>d. Did (WorkSchedule d) \<in> set es) \<longleftrightarrow>
        app_sen66 \<and> app_service \<and> answer E (history w) DeviceIsReady \<noteq> 0)"
proof (cases "app_sen66 \<and> answer E (history w) DeviceIsReady \<noteq> 0")
  case False
  then show ?thesis by (auto simp: Start_Sensor_def Driver_Init_def Let_def)
next
  case True
  let ?w = "log_event (Asked DeviceIsReady (answer E (history w) DeviceIsReady)) w"
  show ?thesis
  proof (cases app_service)
    case False
    with True show ?thesis by (simp add: Start_Sensor_def Driver_Init_def Let_def)
  next
    case service: True
    have "\<exists>p. fst (run E (Service_Init sPolicy_start) ?w) = Some (True, p)"
      by (simp add: run_Service_Init Let_def)
    then obtain p v where v: "run E (Service_Init sPolicy_start) ?w = (Some (True, p), v)"
      by (metis prod.collapse)
    then have "run E (Start_Sensor app_sen66 app_service) w = (Some p, snd (run E (Service_Init sPolicy_start) ?w))"
      using True service by (simp add: Start_Sensor_def Driver_Init_def Let_def run_bind)
    then show ?thesis
      using True service
      by (simp add: run_Service_Init Let_def run_StartMeasurement queue_started_def)
  qed
qed

lemma run_dispatch_loop:
  "\<exists>rs. run E (dispatch_loop n) w =
     (Some None, w\<lparr>history := history w @ map (Asked DispatchNextTask) rs\<rparr>) \<and> length rs = n"
proof (induction n arbitrary: w)
  case 0
  then show ?case by simp
next
  case (Suc n)
  let ?r = "answer E (history w) DispatchNextTask"
  obtain rs where "run E (dispatch_loop n) (log_event (Asked DispatchNextTask ?r) w) =
      (Some None, (log_event (Asked DispatchNextTask ?r) w)\<lparr>history :=
         history (log_event (Asked DispatchNextTask ?r) w) @ map (Asked DispatchNextTask) rs\<rparr>)" "length rs = n"
    using Suc.IH by blast
  then show ?case by (intro exI [of _ "?r # rs"]) (simp add: Let_def log_event_def)
qed

text \<open>What the Matter stack and the board see of a start, given their four answers.\<close>

definition startup :: "int \<Rightarrow> int \<Rightarrow> int \<Rightarrow> int \<Rightarrow> event list" where
  "startup prepared board registered started =
     Asked PrepareServer prepared #
     (if prepared \<noteq> 0 then [] else Asked BoardInit board #
      (if board = 0 then [] else Asked RegisterEventHandler registered #
       (if registered \<noteq> 0 then [] else [Asked StartServer started])))"

definition startup_error :: "int \<Rightarrow> int \<Rightarrow> int \<Rightarrow> int \<Rightarrow> int \<Rightarrow> int" where
  "startup_error incorrect_state prepared board registered started =
     (if prepared \<noteq> 0 then prepared else if board = 0 then incorrect_state
      else if registered \<noteq> 0 then registered else started)"

lemma run_AppTask_Init:
  "\<exists>a b c d es w'. run E (AppTask_Init app_sen66 app_service incorrect_state) w =
     (Some (startup_error incorrect_state a b c d), w') \<and> history w' = history w @ es \<and>
     stack_events es = startup a b c d \<and> snap w' = snap w \<and> callback w' = callback w"
proof -
  let ?a = "answer E (history w) PrepareServer"
  let ?w1 = "log_event (Asked PrepareServer ?a) w"
  let ?b = "answer E (history ?w1) BoardInit"
  let ?w2 = "log_event (Asked BoardInit ?b) ?w1"
  obtain p es w3 where s: "run E (Start_Sensor app_sen66 app_service) ?w2 = (Some p, w3)"
    "history w3 = history ?w2 @ es" "stack_events es = []" "callback w3 = callback w" "snap w3 = snap w"
    using run_Start_Sensor [of E app_sen66 app_service ?w2] by auto
  let ?c = "answer E (history w3) RegisterEventHandler"
  let ?d = "answer E (history (log_event (Asked RegisterEventHandler ?c) w3)) StartServer"
  let ?w' = "snd (run E (AppTask_Init app_sen66 app_service incorrect_state) w)"
  show ?thesis
    using s
    by (intro exI [of _ ?a] exI [of _ ?b] exI [of _ ?c] exI [of _ ?d]
        exI [of _ "drop (length (history w)) (history ?w')"] exI [of _ ?w'])
      (auto simp: AppTask_Init_def Let_def run_bind startup_error_def startup_def CHIP_NO_ERROR_def)
qed

section \<open>Properties\<close>

text \<open>
  Starting the application calls the Matter stack and the board in one order up to the first
  failure, whose code it returns, in every configuration and whatever the sensor's bus
  answers: a missing or failing sensor neither adds, drops, reorders nor fails a step.
\<close>

theorem sensor_does_not_block_startup:
  "\<exists>a b c d es w'. run E (AppTask_Init app_sen66 app_service incorrect_state) w =
     (Some (startup_error incorrect_state a b c d), w') \<and> history w' = history w @ es \<and>
     stack_events es = startup a b c d"
  using run_AppTask_Init [of E app_sen66 app_service incorrect_state w] by blast

text \<open>
  The measurement service arms its poll timer during the start exactly when both options are
  built in and the bus reports ready.
\<close>

theorem service_starts_on_ready_bus:
  "\<exists>p es w'. run E (Start_Sensor app_sen66 app_service) w = (Some p, w') \<and> history w' = history w @ es \<and>
     ((\<exists>d. Did (WorkSchedule d) \<in> set es) \<longleftrightarrow>
        app_sen66 \<and> app_service \<and> answer E (history w) DeviceIsReady \<noteq> 0)"
  using run_Start_Sensor [of E app_sen66 app_service w] by blast

text \<open>
  C30. \<^verbatim>\<open>main\<close> never returns 0: after a successful start it is still dispatching tasks, one after
  another, however many have been dispatched, and after a failed start it returns 1 without
  having dispatched any.
\<close>

theorem main_dispatches_or_fails:
  assumes "incorrect_state \<noteq> 0"
  shows "\<exists>a b c d es w'. history w' = history w @ es \<and>
    (if startup_error incorrect_state a b c d = 0
     then run E (main app_sen66 app_service incorrect_state n) w = (Some None, w') \<and>
       (\<exists>rs. stack_events es = startup a b c d @ map (Asked DispatchNextTask) rs \<and> length rs = n) \<and>
       a = 0 \<and> b \<noteq> 0 \<and> c = 0 \<and> d = 0
     else run E (main app_sen66 app_service incorrect_state n) w = (Some (Some 1), w') \<and>
       stack_events es = startup a b c d)"
proof -
  obtain a b c d es v where i: "run E (AppTask_Init app_sen66 app_service incorrect_state) w =
      (Some (startup_error incorrect_state a b c d), v)" "history v = history w @ es"
    "stack_events es = startup a b c d"
    using run_AppTask_Init [of E app_sen66 app_service incorrect_state w] by blast
  show ?thesis
  proof (cases "startup_error incorrect_state a b c d = 0")
    case False
    then have "run E (main app_sen66 app_service incorrect_state n) w = (Some (Some 1), v)"
      using i(1) by (simp add: main_def StartApp_def run_bind CHIP_NO_ERROR_def)
    with False i(2,3) show ?thesis by metis
  next
    case True
    obtain rs where r: "run E (dispatch_loop n) v =
        (Some None, v\<lparr>history := history v @ map (Asked DispatchNextTask) rs\<rparr>)" "length rs = n"
      using run_dispatch_loop by blast
    have dispatched: "stack_events (map (Asked DispatchNextTask) rs) = map (Asked DispatchNextTask) rs"
      by (induction rs) simp_all
    have "run E (main app_sen66 app_service incorrect_state n) w =
        (Some None, v\<lparr>history := history v @ map (Asked DispatchNextTask) rs\<rparr>)"
      using True i(1) r(1) by (simp add: main_def StartApp_def run_bind CHIP_NO_ERROR_def)
    moreover have "a = 0 \<and> b \<noteq> 0 \<and> c = 0 \<and> d = 0"
      using True assms by (auto simp: startup_error_def split: if_splits)
    ultimately show ?thesis
      using True i(2,3) r(2) dispatched
      by (intro exI [of _ a] exI [of _ b] exI [of _ c] exI [of _ d]
          exI [of _ "es @ map (Asked DispatchNextTask) rs"]
          exI [of _ "v\<lparr>history := history v @ map (Asked DispatchNextTask) rs\<rparr>"]) auto
  qed
qed

theorem main_dispatches_or_fails_witness:
  "\<exists>w'. run dead_bus (main True True 3 5) world_init = (Some (Some 1), w')"
proof -
  obtain a b c d es w' where h: "history w' = es"
    and m: "if startup_error 3 a b c d = 0
     then run dead_bus (main True True 3 5) world_init = (Some None, w') \<and>
       (\<exists>rs. stack_events es = startup a b c d @ map (Asked DispatchNextTask) rs \<and> length rs = 5) \<and>
       a = 0 \<and> b \<noteq> 0 \<and> c = 0 \<and> d = 0
     else run dead_bus (main True True 3 5) world_init = (Some (Some 1), w') \<and>
       stack_events es = startup a b c d"
    using main_dispatches_or_fails [of 3 world_init dead_bus True True 5] by (auto simp: world_init_def)
  have "fst (run dead_bus (main True True 3 5) world_init) \<noteq> Some None"
    by (simp add: main_def StartApp_def AppTask_Init_def dead_bus_def EIO_def CHIP_NO_ERROR_def Let_def)
  with m show ?thesis by (auto split: if_splits)
qed

end
