(* ===== verification/Interleaved_System.thy ===== *)
theory Interleaved_System
  imports Sen66_Driver "HOL-Library.Sublist"
begin

text \<open>
  Threads that share two mutexes, the snapshot, the callback pointer and the bus.  Between any two
  calls or accesses of one thread the others can run; a mutex is taken only when it is free; the
  answers of the environment are arbitrary, so the reachable states cover every behaviour of
  bus, clock and stack, and every scheduling.  The locale \<open>disciplined_entries\<close> is the contract of the
  programs the threads run: with it the bus is used in whole exchanges, the snapshot behaves as
  an atomic variable, and no thread is stuck.
\<close>

section \<open>The system\<close>

record 'r system =
  shared_snap :: Snapshot
  shared_callback :: "UpdateCallback option"
  owner :: "mutex \<Rightarrow> nat option"
  thread :: "nat \<Rightarrow> 'r io option"
  trace :: "(nat \<times> event) list"

definition system_init :: "'r system" where
  "system_init =
     \<lparr>shared_snap = Snapshot_init, shared_callback = None, owner = (\<lambda>m. None),
      thread = (\<lambda>t. None), trace = []\<rparr>"

definition advance :: "nat \<Rightarrow> event \<Rightarrow> 'r io \<Rightarrow> 'r system \<Rightarrow> 'r system" where
  "advance t e p s = s\<lparr>thread := (thread s)(t \<mapsto> p), trace := trace s @ [(t, e)]\<rparr>"

text \<open>One step of one thread: \<open>thread s t = None\<close> is a thread between two entry points.\<close>

inductive sys_step :: "('e \<Rightarrow> 'r io) \<Rightarrow> ('e \<Rightarrow> bool) \<Rightarrow> 'r system \<Rightarrow> 'r system \<Rightarrow> bool"
  for code :: "'e \<Rightarrow> 'r io" and entry :: "'e \<Rightarrow> bool" where
  Enter: "thread s t = None \<Longrightarrow> entry e \<Longrightarrow>
    sys_step code entry s (s\<lparr>thread := (thread s)(t \<mapsto> code e)\<rparr>)"
| Leave: "thread s t = Some (Ret r) \<Longrightarrow>
    sys_step code entry s (s\<lparr>thread := (thread s)(t := None)\<rparr>)"
| TakeMutex: "thread s t = Some (Do (Lock m) p) \<Longrightarrow> owner s m = None \<Longrightarrow>
    sys_step code entry s ((advance t (Did (Lock m)) p s)\<lparr>owner := (owner s)(m \<mapsto> t)\<rparr>)"
| GiveMutex: "thread s t = Some (Do (Unlock m) p) \<Longrightarrow>
    sys_step code entry s ((advance t (Did (Unlock m)) p s)\<lparr>owner := (owner s)(m := None)\<rparr>)"
| Act: "thread s t = Some (Do a p) \<Longrightarrow> (\<forall>m. a \<noteq> Lock m \<and> a \<noteq> Unlock m) \<Longrightarrow>
    sys_step code entry s ((advance t (Did a) p s)
      \<lparr>shared_snap := snap_effect a (shared_snap s),
       shared_callback := callback_effect a (shared_callback s)\<rparr>)"
| Answer: "thread s t = Some (Ask q k) \<Longrightarrow> sys_step code entry s (advance t (Asked q r) (k r) s)"
| Transfer: "thread s t = Some (I2cRead n k) \<Longrightarrow>
    sys_step code entry s (advance t (ReadBus n (fst r) (map (snd r) [0..<n])) (k r) s)"
| ReadClock: "thread s t = Some (Uptime k) \<Longrightarrow> sys_step code entry s (advance t (Clock now) (k now) s)"
| ReadSnapshot: "thread s t = Some (GetSnapshot k) \<Longrightarrow>
    sys_step code entry s (advance t (SawSnapshot (shared_snap s)) (k (shared_snap s)) s)"
| ReadCallback: "thread s t = Some (GetCallback k) \<Longrightarrow>
    sys_step code entry s (advance t (SawCallback (shared_callback s)) (k (shared_callback s)) s)"

inductive reachable :: "('e \<Rightarrow> 'r io) \<Rightarrow> ('e \<Rightarrow> bool) \<Rightarrow> 'r system \<Rightarrow> bool"
  for code :: "'e \<Rightarrow> 'r io" and entry :: "'e \<Rightarrow> bool" where
  start: "reachable code entry system_init"
| step: "reachable code entry s \<Longrightarrow> sys_step code entry s s' \<Longrightarrow> reachable code entry s'"

text \<open>The owner of each mutex after a trace.\<close>

fun pass_mutex :: "nat \<times> event \<Rightarrow> (mutex \<Rightarrow> nat option) \<Rightarrow> mutex \<Rightarrow> nat option" where
  "pass_mutex (t, Did (Lock m)) own = own(m \<mapsto> t)"
| "pass_mutex (t, Did (Unlock m)) own = own(m := None)"
| "pass_mutex _ own = own"

definition owner_after :: "(nat \<times> event) list \<Rightarrow> mutex \<Rightarrow> nat option" where
  "owner_after tr = fold pass_mutex tr (\<lambda>m. None)"

lemma owner_after_simps [simp]:
  "owner_after [] m = None" "owner_after (tr @ [x]) = pass_mutex x (owner_after tr)"
  by (simp_all add: owner_after_def)

text \<open>
  Every event of a trace is performed by the thread that owns the mutex the event requires, a
  mutex is taken when it is free and given by its owner.
\<close>

definition allowed :: "(mutex \<Rightarrow> nat option) \<Rightarrow> nat \<Rightarrow> event \<Rightarrow> bool" where
  "allowed own t e \<longleftrightarrow>
     (\<forall>m. (required e = Some m \<or> e = Did (Unlock m) \<longrightarrow> own m = Some t) \<and>
          (e = Did (Lock m) \<longrightarrow> own m = None))"

definition guarded :: "(nat \<times> event) list \<Rightarrow> bool" where
  "guarded tr \<longleftrightarrow> (\<forall>pre t e post. tr = pre @ (t, e) # post \<longrightarrow> allowed (owner_after pre) t e)"

lemma guarded_Nil: "guarded []"
  by (simp add: guarded_def)

lemma guarded_snoc:
  "guarded (tr @ [(t, e)]) \<longleftrightarrow> guarded tr \<and> allowed (owner_after tr) t e"
  unfolding guarded_def
  by (auto simp: append_eq_append_conv2 Cons_eq_append_conv append_eq_Cons_conv) blast+

lemma guarded_append: "guarded (pre @ post) \<Longrightarrow> guarded pre"
  by (auto simp: guarded_def)

text \<open>From when a thread owns a mutex until it gives it back, only it uses what the mutex guards.\<close>

lemma owned_until_given:
  assumes "guarded (pre @ mid)" and "owner_after pre m = Some t" and "(t, Did (Unlock m)) \<notin> set mid"
  shows "owner_after (pre @ mid) m = Some t \<and> (\<forall>x \<in> set mid. required (snd x) = Some m \<longrightarrow> fst x = t)"
  using assms(1,3)
proof (induction mid rule: rev_induct)
  case Nil
  then show ?case using assms(2) by simp
next
  case (snoc x mid)
  obtain t' e where x: "x = (t', e)" by fastforce
  have g: "guarded ((pre @ mid) @ [(t', e)])" using snoc.prems(1) by (simp add: x)
  then have IH: "owner_after (pre @ mid) m = Some t" "\<forall>x \<in> set mid. required (snd x) = Some m \<longrightarrow> fst x = t"
    using snoc.IH snoc.prems(2) guarded_append by fastforce+
  have al: "allowed (owner_after (pre @ mid)) t' e" using g unfolding guarded_snoc by blast
  then have "e \<noteq> Did (Lock m)" "e = Did (Unlock m) \<longrightarrow> t' = t" "required e = Some m \<longrightarrow> t' = t"
    using IH(1) by (auto simp: allowed_def)
  moreover have "e \<noteq> Did (Unlock m)" using calculation(2) snoc.prems(2) x by auto
  ultimately have "pass_mutex (t', e) (owner_after (pre @ mid)) m = Some t"
    using IH(1) by (cases "((t', e), owner_after (pre @ mid))" rule: pass_mutex.cases) auto
  moreover have "required e = Some m \<longrightarrow> t' = t" by fact
  ultimately show ?case
    using IH(2) owner_after_simps(2) [of "pre @ mid" x] by (auto simp: x)
qed

text \<open>The owner of a mutex has taken it and not given it since.\<close>

lemma owner_took:
  "owner_after tr m = Some t \<Longrightarrow>
   \<exists>before taken. tr = before @ (t, Did (Lock m)) # taken \<and> (t, Did (Unlock m)) \<notin> set taken"
proof (induction tr rule: rev_induct)
  case (snoc x tr)
  show ?case
  proof (cases "x = (t, Did (Lock m))")
    case False
    then have "owner_after tr m = Some t" "x \<noteq> (t, Did (Unlock m))"
      using snoc.prems by (cases "(x, owner_after tr)" rule: pass_mutex.cases; auto split: if_splits)+
    then obtain before taken where "tr = before @ (t, Did (Lock m)) # taken" "(t, Did (Unlock m)) \<notin> set taken"
      using snoc.IH by blast
    with \<open>x \<noteq> (t, Did (Unlock m))\<close> show ?thesis by (intro exI [of _ before] exI [of _ "taken @ [x]"]) auto
  qed (intro exI [of _ tr] exI [of _ "[]"], simp)
qed simp

text \<open>Which events concern a mutex or the snapshot.\<close>

lemma unlocked_pass: "\<forall>m. a \<noteq> Lock m \<and> a \<noteq> Unlock m \<Longrightarrow> pass_mutex (t, Did a) own = own"
  by (cases a) auto

lemma snap_effect_required: "required (Did a) \<noteq> Some sSnapshotMutex \<Longrightarrow> snap_effect a s = s"
  by (cases a) simp_all

section \<open>One step of one thread\<close>

text \<open>What is left of a program after an event.\<close>

inductive follows :: "'a io \<Rightarrow> event \<Rightarrow> 'a io \<Rightarrow> bool" where
  "follows (Do a p) (Did a) p"
| "follows (Ask q k) (Asked q r) (k r)"
| "follows (I2cRead n k) (ReadBus n (fst r) (map (snd r) [0..<n])) (k r)"
| "follows (Uptime k) (Clock now) (k now)"
| "follows (GetSnapshot k) (SawSnapshot s) (k s)"
| "follows (GetCallback k) (SawCallback c) (k c)"

inductive_cases follows_E: "follows p e p'"

fun snap_after :: "event \<Rightarrow> Snapshot \<Rightarrow> Snapshot" where
  "snap_after (Did a) s = snap_effect a s"
| "snap_after _ s = s"

lemma snap_effect_mutex [simp]: "snap_effect (Lock m) s = s" "snap_effect (Unlock m) s = s"
  by simp_all

fun callback_after :: "event \<Rightarrow> UpdateCallback option \<Rightarrow> UpdateCallback option" where
  "callback_after (Did a) c = callback_effect a c"
| "callback_after _ c = c"

text \<open>
  A step that is no entry is the return of a thread or one event of one thread.
\<close>

definition event_step :: "nat \<Rightarrow> event \<Rightarrow> 'r io \<Rightarrow> 'r system \<Rightarrow> 'r system \<Rightarrow> bool" where
  "event_step t e p s v \<longleftrightarrow>
     thread v = (thread s)(t \<mapsto> p) \<and> trace v = trace s @ [(t, e)] \<and>
     owner v = pass_mutex (t, e) (owner s) \<and> shared_snap v = snap_after e (shared_snap s) \<and>
     shared_callback v = callback_after e (shared_callback s) \<and>
     (\<forall>m. e = Did (Lock m) \<longrightarrow> owner s m = None) \<and> (\<forall>x. e = SawSnapshot x \<longrightarrow> x = shared_snap s) \<and>
     (\<forall>c. e = SawCallback c \<longrightarrow> c = shared_callback s)"

lemma inside_cases:
  assumes "sys_step code (\<lambda>_. False) s v"
  obtains (returns) t x where "thread s t = Some (Ret x)" "v = s\<lparr>thread := (thread s)(t := None)\<rparr>"
  | (event) t e p p' where "thread s t = Some p" "follows p e p'" "event_step t e p' s v"
  using assms
proof cases
  case (Leave t r)
  then show ?thesis by (intro returns) auto
next
  case (TakeMutex t m p)
  then show ?thesis
    by (intro event [of t "Do (Lock m) p" "Did (Lock m)" p])
      (auto simp: event_step_def advance_def intro: follows.intros)
next
  case (GiveMutex t m p)
  then show ?thesis
    by (intro event [of t "Do (Unlock m) p" "Did (Unlock m)" p])
      (auto simp: event_step_def advance_def intro: follows.intros)
next
  case (Act t a p)
  then show ?thesis
    by (intro event [of t "Do a p" "Did a" p])
      (auto simp: event_step_def advance_def unlocked_pass intro: follows.intros)
next
  case (Answer t q k r)
  then show ?thesis
    by (intro event [of t "Ask q k" "Asked q r" "k r"])
      (auto simp: event_step_def advance_def intro: follows.intros)
next
  case (Transfer t n k r)
  then show ?thesis
    by (intro event [of t "I2cRead n k" "ReadBus n (fst r) (map (snd r) [0..<n])" "k r"])
      (auto simp: event_step_def advance_def intro: follows.intros)
next
  case (ReadClock t k now)
  then show ?thesis
    by (intro event [of t "Uptime k" "Clock now" "k now"])
      (auto simp: event_step_def advance_def intro: follows.intros)
next
  case (ReadSnapshot t k)
  then show ?thesis
    by (intro event [of t "GetSnapshot k" "SawSnapshot (shared_snap s)" "k (shared_snap s)"])
      (auto simp: event_step_def advance_def intro: follows.intros)
next
  case (ReadCallback t k)
  then show ?thesis
    by (intro event [of t "GetCallback k" "SawCallback (shared_callback s)" "k (shared_callback s)"])
      (auto simp: event_step_def advance_def intro: follows.intros)
qed simp

lemma inside_entry: "sys_step code (\<lambda>_. False) s v \<Longrightarrow> sys_step code entry s v"
  by (induction rule: sys_step.induct) (auto intro: sys_step.intros)

lemma snap_after_required: "required e \<noteq> Some sSnapshotMutex \<Longrightarrow> snap_after e s = s"
  by (cases "(e, s)" rule: snap_after.cases) (auto simp: snap_effect_required)


section \<open>Whole exchanges and whole accesses\<close>

text \<open>How far a thread has come with its exchange on the bus.\<close>

datatype bus_state = Free | Taken | Sent bytes | Waited bytes nat

fun bus_after :: "event \<Rightarrow> bus_state \<Rightarrow> bus_state" where
  "bus_after (Did (Lock kBusMutex)) b = Taken"
| "bus_after (Did (Unlock kBusMutex)) b = Free"
| "bus_after (Asked (I2cWrite cmd) r) b = (if r = 0 then Sent cmd else Taken)"
| "bus_after (Did (Msleep ms)) b = (case b of Sent cmd \<Rightarrow> Waited cmd ms | _ \<Rightarrow> b)"
| "bus_after (ReadBus n err bs) b = Taken"
| "bus_after _ b = b"

definition bus_of :: "nat \<Rightarrow> (nat \<times> event) list \<Rightarrow> bus_state" where
  "bus_of t tr = fold (\<lambda>(t', e) b. if t' = t then bus_after e b else b) tr Free"

lemma bus_of_simps [simp]:
  "bus_of t [] = Free"
  "bus_of t (tr @ [(t', e)]) = (if t' = t then bus_after e (bus_of t tr) else bus_of t tr)"
  by (simp_all add: bus_of_def)

text \<open>The length of the response to a command, where it has one.\<close>

primrec response_bytes :: "Command \<Rightarrow> nat option" where
  "response_bytes Cmd_StartMeasurement = None"
| "response_bytes Cmd_StopMeasurement = None"
| "response_bytes Cmd_GetDataReady = Some kDataReadyBytes"
| "response_bytes Cmd_ReadMeasuredValues = Some kMeasurementBytes"
| "response_bytes Cmd_GetSerialNumber = Some kSerialBytes"
| "response_bytes Cmd_DeviceReset = None"

text \<open>The accesses to the snapshot since its mutex was taken.\<close>

fun window_after :: "event \<Rightarrow> event list \<Rightarrow> event list" where
  "window_after (Did (Lock m)) w = (if m = sSnapshotMutex then [] else w)"
| "window_after (Did (Unlock m)) w = (if m = sSnapshotMutex then [] else w)"
| "window_after e w = (if required e = Some sSnapshotMutex then w @ [e] else w)"

definition window :: "(nat \<times> event) list \<Rightarrow> event list" where
  "window tr = fold (\<lambda>(t, e). window_after e) tr []"

lemma window_simps [simp]: "window [] = []" "window (tr @ [(t, e)]) = window_after e (window tr)"
  by (simp_all add: window_def)

definition snapshot_accesses :: "(nat \<times> event) list \<Rightarrow> (nat \<times> event) list" where
  "snapshot_accesses tr = filter (\<lambda>(t, e). required e = Some sSnapshotMutex) tr"

text \<open>
  The two operations on the snapshot as an atomic variable, and the accesses each of them
  consists of: setting its three fields, and copying its three fields.
\<close>

datatype snapshot_op = Publish Snapshot | Fetch Snapshot

primrec op_accesses :: "snapshot_op \<Rightarrow> event list" where
  "op_accesses (Publish v) = [Did (SetMeasurement (measurement v)), Did (SetAgeMs (ageMs v)), Did (SetEverValid (everValid v))]"
| "op_accesses (Fetch v) = [SawSnapshot v, SawSnapshot v, SawSnapshot v]"

definition op_events :: "nat \<times> snapshot_op \<Rightarrow> (nat \<times> event) list" where
  "op_events x = map (Pair (fst x)) (op_accesses (snd x))"

fun value_after :: "Snapshot \<Rightarrow> snapshot_op list \<Rightarrow> Snapshot" where
  "value_after cur [] = cur"
| "value_after cur (Publish v # ops) = value_after v ops"
| "value_after cur (Fetch v # ops) = value_after cur ops"

text \<open>Every fetch gets the value of the latest publication before it.\<close>

fun in_order :: "Snapshot \<Rightarrow> snapshot_op list \<Rightarrow> bool" where
  "in_order cur [] \<longleftrightarrow> True"
| "in_order cur (Publish v # ops) \<longleftrightarrow> in_order v ops"
| "in_order cur (Fetch v # ops) \<longleftrightarrow> v = cur \<and> in_order cur ops"

lemma value_after_append [simp]: "value_after cur (ops @ ops') = value_after (value_after cur ops) ops'"
  by (induction cur ops rule: value_after.induct) simp_all

lemma in_order_append [simp]: "in_order cur (ops @ ops') \<longleftrightarrow> in_order cur ops \<and> in_order (value_after cur ops) ops'"
  by (induction cur ops rule: in_order.induct) auto

definition begun :: "event list \<Rightarrow> bool" where
  "begun w \<longleftrightarrow> (\<exists>x. prefix w (op_accesses x))"

definition complete :: "event list \<Rightarrow> bool" where
  "complete w \<longleftrightarrow> w = [] \<or> (\<exists>x. w = op_accesses x)"

text \<open>
  An event fits when a response has the length its command asks for and comes after the
  command and its execution time, and the accesses to the snapshot under one lock make up one operation.
\<close>

fun fits :: "event \<Rightarrow> bus_state \<Rightarrow> event list \<Rightarrow> bool" where
  "fits (ReadBus n err bs) b w \<longleftrightarrow>
     (\<exists>cmd. b = Waited (command_bytes cmd) kExecReadMs \<and> response_bytes cmd = Some n)"
| "fits (Did (Unlock m)) b w \<longleftrightarrow> (m = sSnapshotMutex \<longrightarrow> complete w)"
| "fits e b w \<longleftrightarrow> (required e = Some sSnapshotMutex \<longrightarrow> begun (w @ [e]))"

text \<open>A program all of whose events fit, whatever its calls answer.\<close>

primrec tidy :: "'a io \<Rightarrow> bus_state \<Rightarrow> event list \<Rightarrow> bool" where
  "tidy (Ret x) b w \<longleftrightarrow> b = Free \<and> w = []"
| "tidy Undefined b w \<longleftrightarrow> True"
| "tidy (Do a p) b w \<longleftrightarrow> fits (Did a) b w \<and> tidy p (bus_after (Did a) b) (window_after (Did a) w)"
| "tidy (Ask q k) b w \<longleftrightarrow> (\<forall>r. tidy (k r) (bus_after (Asked q r) b) w)"
| "tidy (I2cRead n k) b w \<longleftrightarrow> fits (ReadBus n 0 []) b w \<and> (\<forall>r. tidy (k r) Taken w)"
| "tidy (Uptime k) b w \<longleftrightarrow> (\<forall>t. tidy (k t) b w)"
| "tidy (GetSnapshot k) b w \<longleftrightarrow>
     (\<forall>s. (\<forall>v. SawSnapshot v \<in> set w \<longrightarrow> v = s) \<longrightarrow>
       fits (SawSnapshot s) b w \<and> tidy (k s) b (w @ [SawSnapshot s]))"
| "tidy (GetCallback k) b w \<longleftrightarrow> (\<forall>c. tidy (k c) b w)"

lemma tidy_bind: "tidy p b w \<Longrightarrow> (\<And>x. tidy (f x) Free []) \<Longrightarrow> tidy (io_bind p f) b w"
  by (induction p arbitrary: b w) (auto simp del: fits.simps)

lemma window_after_other: "required e \<noteq> Some sSnapshotMutex \<Longrightarrow> e \<noteq> Did (Lock sSnapshotMutex) \<Longrightarrow>
   e \<noteq> Did (Unlock sSnapshotMutex) \<Longrightarrow> window_after e w = w"
  by (cases "(e, w)" rule: window_after.cases) auto

lemma tidy_follows:
  assumes "tidy p b w" and "follows p e p'" and "\<And>s v. e = SawSnapshot s \<Longrightarrow> SawSnapshot v \<in> set w \<Longrightarrow> v = s"
  shows "fits e b w" and "tidy p' (bus_after e b) (window_after e w)"
proof -
  have "fits e b w \<and> tidy p' (bus_after e b) (window_after e w)"
    using assms(2)
  proof cases
    case (2 q k r)
    have "required (Asked q r) \<noteq> Some sSnapshotMutex" by (cases q) auto
    with 2 assms(1) show ?thesis by (cases q) auto
  qed (use assms(1,3) in \<open>auto simp del: fits.simps(2-) simp: fits.simps\<close>)
  then show "fits e b w" and "tidy p' (bus_after e b) (window_after e w)" by blast+
qed

text \<open>What the state of a thread's exchange says about the trace.\<close>

definition calm :: "nat \<Rightarrow> (nat \<times> event) list \<Rightarrow> bool" where
  "calm t tr \<longleftrightarrow> (\<forall>e. (t, e) \<in> set tr \<longrightarrow> required e \<noteq> Some kBusMutex \<and> e \<noteq> Did (Unlock kBusMutex))"

lemma sent_command:
  "bus_of t tr = Sent cmd \<Longrightarrow> \<exists>before between. tr = before @ (t, Asked (I2cWrite cmd) 0) # between \<and> calm t between"
  "bus_of t tr = Waited cmd ms \<Longrightarrow> \<exists>before between. tr = before @ (t, Asked (I2cWrite cmd) 0) # between \<and>
     calm t between \<and> (t, Did (Msleep ms)) \<in> set between"
proof (induction tr rule: rev_induct)
  case (snoc x tr)
  obtain t' e where x: "x = (t', e)" by fastforce
  have more: "\<exists>before between. tr @ [x] = before @ (t, Asked (I2cWrite cmd) 0) # between \<and> calm t between \<and> Q between"
    if m: "\<exists>before between. tr = before @ (t, Asked (I2cWrite cmd) 0) # between \<and> calm t between \<and> P between"
      "calm t [x]" "\<And>between. P between \<Longrightarrow> Q (between @ [x])" for P Q
  proof -
    obtain before between where "tr = before @ (t, Asked (I2cWrite cmd) 0) # between" "calm t between" "P between"
      using m(1) by blast
    then have "tr @ [x] = before @ (t, Asked (I2cWrite cmd) 0) # (between @ [x])" "calm t (between @ [x])"
      "Q (between @ [x])"
      using m(2,3) by (auto simp: calm_def)
    then show ?thesis by blast
  qed
  { case 1
    show ?case
    proof (cases "t' = t \<and> e = Asked (I2cWrite cmd) 0")
      case True
      then show ?thesis by (intro exI [of _ tr] exI [of _ "[]"]) (simp add: x calm_def)
    next
      case False
      then have "bus_of t tr = Sent cmd \<and> calm t [x]"
        using 1 by (cases "(e, bus_of t tr)" rule: bus_after.cases)
          (auto simp: x calm_def split: if_splits bus_state.splits)
      then show ?thesis using more [of "\<lambda>_. True" "\<lambda>_. True"] snoc(1) by blast
    qed
  next
    case 2
    show ?case
    proof (cases "t' = t \<and> e = Did (Msleep ms) \<and> bus_of t tr = Sent cmd")
      case True
      then show ?thesis using more [of "\<lambda>_. True" "\<lambda>b. (t, Did (Msleep ms)) \<in> set b"] snoc(1)
        by (auto simp: x calm_def)
    next
      case False
      then have "bus_of t tr = Waited cmd ms \<and> calm t [x]"
        using 2 by (cases "(e, bus_of t tr)" rule: bus_after.cases)
          (auto simp: x calm_def split: if_splits bus_state.splits)
      then show ?thesis
        using more [of "\<lambda>b. (t, Did (Msleep ms)) \<in> set b" "\<lambda>b. (t, Did (Msleep ms)) \<in> set b"] snoc(2) by auto
    qed
  }
qed simp_all


section \<open>The snapshot as an atomic variable\<close>

text \<open>
  The accesses to the snapshot are the operations \<open>ops\<close> one after another, and then those of the
  thread that holds the mutex now; its present value is what they have left.
\<close>

definition pending :: "'r system \<Rightarrow> (nat \<times> event) list" where
  "pending s = (case owner s sSnapshotMutex of None \<Rightarrow> [] | Some t \<Rightarrow> map (Pair t) (window (trace s)))"

definition chronicle :: "'r system \<Rightarrow> (nat \<times> snapshot_op) list \<Rightarrow> bool" where
  "chronicle s ops \<longleftrightarrow>
     in_order Snapshot_init (map snd ops) \<and>
     snapshot_accesses (trace s) = concat (map op_events ops) @ pending s \<and>
     shared_snap s = fold snap_after (window (trace s)) (value_after Snapshot_init (map snd ops)) \<and>
     begun (window (trace s)) \<and> (owner s sSnapshotMutex = None \<longrightarrow> window (trace s) = []) \<and>
     (\<forall>v. SawSnapshot v \<in> set (window (trace s)) \<longrightarrow> v = shared_snap s)"

lemma begun_write: "begun (w @ [Did a]) \<Longrightarrow> SawSnapshot v \<notin> set w"
  unfolding begun_def
proof (elim exE)
  fix x assume p: "prefix (w @ [Did a]) (op_accesses x)"
  show "SawSnapshot v \<notin> set w"
  proof (cases x)
    case (Publish u)
    then show ?thesis using p set_mono_prefix by fastforce
  next
    case (Fetch u)
    then show ?thesis using p set_mono_prefix by fastforce
  qed
qed

lemma begun_Nil [simp]: "begun []"
  by (simp add: begun_def)

lemma snapshot_accesses_snoc [simp]:
  "snapshot_accesses (tr @ [(t, e)]) = snapshot_accesses tr @ (if required e = Some sSnapshotMutex then [(t, e)] else [])"
  by (simp add: snapshot_accesses_def)

lemma window_after_access: "required e = Some sSnapshotMutex \<Longrightarrow> window_after e w = w @ [e]"
  by (cases "(e, w)" rule: window_after.cases) auto

lemma fits_access: "required e = Some sSnapshotMutex \<Longrightarrow> fits e b w \<Longrightarrow> begun (w @ [e])"
  by (cases "(e, b, w)" rule: fits.cases) auto

lemma pass_other: "e \<noteq> Did (Lock m) \<Longrightarrow> e \<noteq> Did (Unlock m) \<Longrightarrow> pass_mutex (t, e) own m = own m"
  by (cases "((t, e), own)" rule: pass_mutex.cases) auto

text \<open>A complete operation leaves its value, and a fetch has got the value that was there.\<close>

lemma complete_op:
  assumes "w = op_accesses x" and "cur = fold snap_after w old" and "\<forall>v. SawSnapshot v \<in> set w \<longrightarrow> v = cur"
  shows "in_order old [x]" and "cur = value_after old [x]"
proof -
  have "s\<lparr>measurement := m, ageMs := a, everValid := k\<rparr> = \<lparr>measurement = m, ageMs = a, everValid = k\<rparr>"
    for s :: Snapshot and m a k by (cases s) simp
  then show "in_order old [x]" "cur = value_after old [x]" using assms by (cases x; simp)+
qed

lemma chronicle_event:
  assumes c: "chronicle s ops" and al: "allowed (owner s) t e" and ev: "event_step t e p s v"
    and fi: "owner s sSnapshotMutex = Some t \<Longrightarrow> fits e b (window (trace s))"
  shows "\<exists>ops'. chronicle v ops'"
proof -
  note c' = c [unfolded chronicle_def pending_def]
  have v: "trace v = trace s @ [(t, e)]" "owner v = pass_mutex (t, e) (owner s)"
    "shared_snap v = snap_after e (shared_snap s)" "\<And>x. e = SawSnapshot x \<Longrightarrow> x = shared_snap s"
    "\<And>m. e = Did (Lock m) \<Longrightarrow> owner s m = None"
    using ev unfolding event_step_def by blast+
  consider (lock) "e = Did (Lock sSnapshotMutex)" | (unlock) "e = Did (Unlock sSnapshotMutex)"
    | (access) "required e = Some sSnapshotMutex"
    | (other) "required e \<noteq> Some sSnapshotMutex" "e \<noteq> Did (Lock sSnapshotMutex)" "e \<noteq> Did (Unlock sSnapshotMutex)"
    by blast
  then show ?thesis
  proof cases
    case lock
    then have "owner s sSnapshotMutex = None" using v(5) by blast
    then have "chronicle v ops" using c' lock by (simp add: chronicle_def pending_def v)
    then show ?thesis ..
  next
    case unlock
    then have own: "owner s sSnapshotMutex = Some t" using al by (simp add: allowed_def)
    then have "complete (window (trace s))" using fi unlock by simp
    then consider "window (trace s) = []" | x where "window (trace s) = op_accesses x"
      by (auto simp: complete_def)
    then show ?thesis
    proof cases
      case 1
      then have "chronicle v ops" using c' unlock own by (simp add: chronicle_def pending_def v)
      then show ?thesis ..
    next
      case 2
      note op = complete_op [OF 2, of "shared_snap s"]
      have "chronicle v (ops @ [(t, x)])"
        using c' own op unlock by (auto simp: chronicle_def pending_def v op_events_def 2 simp del: in_order.simps value_after.simps)
      then show ?thesis ..
    qed
  next
    case access
    then have own: "owner s sSnapshotMutex = Some t" using al by (simp add: allowed_def)
    have "begun (window (trace s) @ [e])" using fits_access [OF access fi [OF own]] .
    moreover have "u = snap_after e (shared_snap s)" if "SawSnapshot u \<in> set (window (trace s) @ [e])" for u
    proof (cases "\<exists>a. e = Did a")
      case True
      then show ?thesis using begun_write calculation that by auto
    next
      case False
      then have "snap_after e (shared_snap s) = shared_snap s" by (cases e) auto
      then show ?thesis using c' that v(4) by auto
    qed
    moreover have "e \<noteq> Did (Lock sSnapshotMutex)" "e \<noteq> Did (Unlock sSnapshotMutex)" using access by auto
    ultimately have "chronicle v ops"
      using c' own access by (simp add: chronicle_def pending_def v window_after_access pass_other)
    then show ?thesis ..
  next
    case other
    have "shared_snap v = shared_snap s" unfolding v(3) by (rule snap_after_required [OF other(1)])
    moreover have "window (trace v) = window (trace s)" using other by (simp add: v(1) window_after_other)
    moreover have "owner v sSnapshotMutex = owner s sSnapshotMutex" using other by (simp add: v(2) pass_other)
    moreover have "snapshot_accesses (trace v) = snapshot_accesses (trace s)" using other by (simp add: v(1))
    ultimately have same: "chronicle v ops \<longleftrightarrow> chronicle s ops" by (simp only: chronicle_def pending_def)
    have "chronicle v ops" unfolding same by (rule c)
    then show ?thesis ..
  qed
qed


section \<open>The contract of an entry point\<close>

text \<open>What the locking discipline says about the next event of a program.\<close>

fun next_held :: "event \<Rightarrow> mutex option \<Rightarrow> mutex option" where
  "next_held (Did (Lock m)) held = Some m"
| "next_held (Did (Unlock m)) held = None"
| "next_held _ held = held"

fun next_seen :: "event \<Rightarrow> bool \<Rightarrow> bool" where
  "next_seen (SawCallback c) seen = (c \<noteq> None)"
| "next_seen _ seen = seen"

lemma well_locked_follows:
  assumes "well_locked p held seen" and "follows p e p'" and "\<And>c. seen \<Longrightarrow> e = SawCallback c \<Longrightarrow> c \<noteq> None"
  shows "well_locked p' (next_held e held) (next_seen e seen)"
    and "required e = Some m \<Longrightarrow> held = Some m"
    and "e = Did (Lock m) \<Longrightarrow> held = None"
    and "e = Did (Unlock m) \<Longrightarrow> held = Some m"
    and "e = Did (SetCallback c) \<Longrightarrow> c \<noteq> None"
proof -
  have "well_locked p' (next_held e held) (next_seen e seen) \<and> (required e = Some m \<longrightarrow> held = Some m) \<and>
      (e = Did (Lock m) \<longrightarrow> held = None) \<and> (e = Did (Unlock m) \<longrightarrow> held = Some m) \<and>
      (e = Did (SetCallback c) \<longrightarrow> c \<noteq> None)"
    using assms(2)
  proof cases
    case (1 a)
    with assms show ?thesis by (cases a) auto
  next
    case (2 q k r)
    with assms show ?thesis by (cases q) auto
  qed (use assms in \<open>auto simp del: split_paired_All\<close>)
  then show "well_locked p' (next_held e held) (next_seen e seen)"
    and "required e = Some m \<Longrightarrow> held = Some m"
    and "e = Did (Lock m) \<Longrightarrow> held = None"
    and "e = Did (Unlock m) \<Longrightarrow> held = Some m"
    and "e = Did (SetCallback c) \<Longrightarrow> c \<noteq> None" by blast+
qed

lemma callback_after_kept:
  assumes "c \<noteq> None" and "\<And>c'. e = Did (SetCallback c') \<Longrightarrow> c' \<noteq> None"
  shows "callback_after e c \<noteq> None"
proof (cases "\<exists>a. e = Did a")
  case True
  then obtain a where a: "e = Did a" by blast
  with assms show ?thesis by (cases a) auto
next
  case False
  with assms(1) show ?thesis by (cases e) auto
qed

text \<open>The window of the snapshot, as far as it is this thread's.\<close>

definition own_window :: "'r system \<Rightarrow> nat \<Rightarrow> event list" where
  "own_window s t = (if owner s sSnapshotMutex = Some t then window (trace s) else [])"

definition answered :: "(nat \<times> event) list \<Rightarrow> bool" where
  "answered tr \<longleftrightarrow> (\<forall>pre t n err bs post. tr = pre @ (t, ReadBus n err bs) # post \<longrightarrow>
     (\<exists>cmd. bus_of t pre = Waited (command_bytes cmd) kExecReadMs \<and> response_bytes cmd = Some n))"

lemma answered_snoc:
  "answered tr \<Longrightarrow> (\<And>n err bs. e = ReadBus n err bs \<Longrightarrow>
     \<exists>cmd. bus_of t tr = Waited (command_bytes cmd) kExecReadMs \<and> response_bytes cmd = Some n) \<Longrightarrow>
   answered (tr @ [(t, e)])"
  unfolding answered_def
  by (auto simp: append_eq_append_conv2 Cons_eq_append_conv append_eq_Cons_conv) blast+

lemma event_own_window:
  assumes "event_step t e p s v" and "allowed (owner s) t e"
  shows "own_window v t = window_after e (own_window s t)" and "t' \<noteq> t \<Longrightarrow> own_window v t' = own_window s t'"
proof -
  have v: "trace v = trace s @ [(t, e)]" "owner v = pass_mutex (t, e) (owner s)"
    "\<And>m. e = Did (Lock m) \<Longrightarrow> owner s m = None"
    using assms(1) unfolding event_step_def by blast+
  consider (lock) "e = Did (Lock sSnapshotMutex)" | (unlock) "e = Did (Unlock sSnapshotMutex)"
    | (access) "required e = Some sSnapshotMutex"
    | (other) "required e \<noteq> Some sSnapshotMutex" "e \<noteq> Did (Lock sSnapshotMutex)" "e \<noteq> Did (Unlock sSnapshotMutex)"
    by blast
  then have "own_window v t = window_after e (own_window s t) \<and> (t' \<noteq> t \<longrightarrow> own_window v t' = own_window s t')"
  proof cases
    case lock
    then show ?thesis using v by (simp add: own_window_def)
  next
    case unlock
    then show ?thesis using v assms(2) by (simp add: own_window_def allowed_def)
  next
    case access
    moreover from this have "e \<noteq> Did (Lock sSnapshotMutex)" "e \<noteq> Did (Unlock sSnapshotMutex)" by auto
    ultimately show ?thesis using v assms(2) by (simp add: own_window_def allowed_def pass_other)
  next
    case other
    then show ?thesis using v by (simp add: own_window_def pass_other window_after_other)
  qed
  then show "own_window v t = window_after e (own_window s t)" and "t' \<noteq> t \<Longrightarrow> own_window v t' = own_window s t'"
    by blast+
qed

text \<open>
  A data race: two threads are about to access the same variable and one of them writes it.  The
  variables that threads share are the snapshot and the callback pointer.
  An access is one step here; for a variable without races that is what a program in C++ may rely on.
\<close>

datatype shared_variable = sSnapshot | sUpdateCallback

fun next_access :: "'r io \<Rightarrow> (shared_variable \<times> bool) option" where
  "next_access (Do (SetMeasurement _) _) = Some (sSnapshot, True)"
| "next_access (Do (SetAgeMs _) _) = Some (sSnapshot, True)"
| "next_access (Do (SetEverValid _) _) = Some (sSnapshot, True)"
| "next_access (GetSnapshot _) = Some (sSnapshot, False)"
| "next_access (Do (SetCallback _) _) = Some (sUpdateCallback, True)"
| "next_access (GetCallback _) = Some (sUpdateCallback, False)"
| "next_access _ = None"

definition races :: "'r system \<Rightarrow> shared_variable \<Rightarrow> bool" where
  "races s x \<longleftrightarrow> (\<exists>t t' p p' writes. t \<noteq> t' \<and> thread s t = Some p \<and> thread s t' = Some p' \<and>
     next_access p = Some (x, True) \<and> next_access p' = Some (x, writes))"

lemma next_access_snapshot:
  "well_locked p held seen \<Longrightarrow> next_access p = Some (sSnapshot, writes) \<Longrightarrow> held = Some sSnapshotMutex"
  by (cases p rule: next_access.cases) auto

text \<open>The operation that is under way.\<close>

lemma fetched_unchanged: "(\<forall>e \<in> set w. e = SawSnapshot v) \<Longrightarrow> fold snap_after w cur = cur"
  by (induction w) simp_all

lemma begun_first:
  assumes "prefix w (op_accesses x)" and "\<forall>v. SawSnapshot v \<in> set w \<longrightarrow> v = fold snap_after w old"
  obtains y where "in_order old [y]" "prefix w (op_accesses y)"
proof (cases x)
  case (Publish v)
  then show thesis using assms(1) that [of x] by simp
next
  case (Fetch v)
  have elems: "\<forall>e \<in> set w. e = SawSnapshot v"
    using set_mono_prefix [OF assms(1)] by (auto simp: Fetch)
  show thesis
  proof (cases w)
    case Nil
    then show thesis using that [of "Publish old"] by simp
  next
    case (Cons e w')
    then have "v = old" using elems assms(2) fetched_unchanged [OF elems, of old] by simp
    then show thesis using assms(1) that [of x] Fetch by simp
  qed
qed

lemma chronicle_pending:
  assumes "chronicle s ops"
  shows "\<exists>x. in_order Snapshot_init (map snd ops @ [snd x]) \<and> prefix (pending s) (op_events x)"
proof -
  let ?w = "window (trace s)" and ?old = "value_after Snapshot_init (map snd ops)"
  have o: "in_order Snapshot_init (map snd ops)" and b: "begun ?w"
    and saw: "\<forall>v. SawSnapshot v \<in> set ?w \<longrightarrow> v = fold snap_after ?w ?old"
    using assms unfolding chronicle_def by metis+
  obtain x where "prefix ?w (op_accesses x)" using b by (auto simp: begun_def)
  then obtain y where y: "in_order ?old [y]" "prefix ?w (op_accesses y)" using begun_first saw by metis
  show ?thesis
  proof (cases "owner s sSnapshotMutex")
    case None
    then show ?thesis using o y(1) by (intro exI [of _ "(0, y)"]) (simp add: pending_def)
  next
    case (Some t)
    then show ?thesis
      using o y by (intro exI [of _ "(t, y)"]) (simp add: pending_def op_events_def map_mono_prefix)
  qed
qed

locale disciplined_entries =
  fixes code :: "'e \<Rightarrow> 'r io" and entry :: "'e \<Rightarrow> bool"
  assumes entry_locked: "entry e \<Longrightarrow> well_locked (code e) None False"
    and entry_tidy: "entry e \<Longrightarrow> tidy (code e) Free []"
begin

text \<open>What holds of each thread in a reachable state.\<close>

definition running :: "'r system \<Rightarrow> nat \<Rightarrow> 'r io \<Rightarrow> mutex option \<Rightarrow> bool \<Rightarrow> bool" where
  "running s t p held seen \<longleftrightarrow>
     well_locked p held seen \<and> (\<forall>m. owner s m = Some t \<longleftrightarrow> held = Some m) \<and>
     (seen \<longrightarrow> shared_callback s \<noteq> None) \<and> tidy p (bus_of t (trace s)) (own_window s t)"

definition thread_ok :: "'r system \<Rightarrow> nat \<Rightarrow> bool" where
  "thread_ok s t \<longleftrightarrow>
     (case thread s t of
        None \<Rightarrow> (\<forall>m. owner s m \<noteq> Some t) \<and> bus_of t (trace s) = Free
      | Some p \<Rightarrow> \<exists>held seen. running s t p held seen)"

definition system_ok :: "'r system \<Rightarrow> bool" where
  "system_ok s \<longleftrightarrow>
     (\<forall>t. thread_ok s t) \<and> owner_after (trace s) = owner s \<and> guarded (trace s) \<and>
     (\<exists>ops. chronicle s ops) \<and> answered (trace s)"

lemma thread_okI: "thread s t = Some p \<Longrightarrow> running s t p held seen \<Longrightarrow> thread_ok s t"
  by (auto simp: thread_ok_def)

lemma thread_ok_running:
  assumes "system_ok s" "thread s t = Some p"
  obtains held seen where "running s t p held seen"
proof -
  have "thread_ok s t" using assms(1) by (simp add: system_ok_def)
  with assms(2) that show thesis by (auto simp: thread_ok_def)
qed

lemma thread_ok_frame:
  assumes ok: "thread_ok s t" and "thread s' t = thread s t"
    and own: "\<And>m. owner s' m = Some t \<longleftrightarrow> owner s m = Some t"
    and cb: "shared_callback s \<noteq> None \<Longrightarrow> shared_callback s' \<noteq> None"
    and wi: "own_window s' t = own_window s t" "bus_of t (trace s') = bus_of t (trace s)"
  shows "thread_ok s' t"
proof (cases "thread s t")
  case None
  with assms show ?thesis by (simp add: thread_ok_def)
next
  case (Some p)
  then obtain held seen where "running s t p held seen"
    using ok by (auto simp: thread_ok_def)
  then have "running s' t p held seen"
    using own cb wi by (simp add: running_def)
  with Some assms(2) show ?thesis by (intro thread_okI) simp_all
qed

lemma chronicle_thread [simp]: "chronicle (s\<lparr>thread := x\<rparr>) ops = chronicle s ops"
  by (simp add: chronicle_def pending_def cong: option.case_cong)

lemma own_window_thread [simp]: "own_window (s\<lparr>thread := x\<rparr>) t = own_window s t"
  by (simp add: own_window_def)

text \<open>One event of a thread inside an entry point keeps the invariant of the whole system.\<close>

lemma system_ok_event:
  assumes ok: "system_ok s" and th: "thread s t = Some p" and fo: "follows p e p'" and ev: "event_step t e p' s v"
  shows "system_ok v"
proof -
  have v: "thread v = (thread s)(t \<mapsto> p')" "trace v = trace s @ [(t, e)]" "owner v = pass_mutex (t, e) (owner s)"
    "shared_callback v = callback_after e (shared_callback s)" "\<And>x. e = SawSnapshot x \<Longrightarrow> x = shared_snap s"
    "\<And>m. e = Did (Lock m) \<Longrightarrow> owner s m = None" "\<And>c. e = SawCallback c \<Longrightarrow> c = shared_callback s"
    using ev unfolding event_step_def by blast+
  obtain held seen where "running s t p held seen" using thread_ok_running [OF ok th] .
  then have r: "well_locked p held seen" "\<And>m. owner s m = Some t \<longleftrightarrow> held = Some m"
    "seen \<Longrightarrow> shared_callback s \<noteq> None" "tidy p (bus_of t (trace s)) (own_window s t)"
    by (simp_all add: running_def)
  have saw: "seen \<Longrightarrow> e = SawCallback c \<Longrightarrow> c \<noteq> None" for c using r(3) v(7) by blast
  note wl = well_locked_follows [OF r(1) fo saw]
  have kept: "shared_callback v \<noteq> None" if "shared_callback s \<noteq> None"
    unfolding v(4) by (rule callback_after_kept [OF that]) (rule wl(5))
  have al: "allowed (owner s) t e"
    unfolding allowed_def using wl(2,4) r(2) v(6) by blast
  note wi = event_own_window [OF ev al]
  obtain ops where ops: "chronicle s ops" using ok by (auto simp: system_ok_def)
  have same: "x = u" if "e = SawSnapshot u" "SawSnapshot x \<in> set (own_window s t)" for u x
    using that ops v(5) by (auto simp: chronicle_def own_window_def split: if_splits)
  have ti: "fits e (bus_of t (trace s)) (own_window s t)" "tidy p' (bus_after e (bus_of t (trace s))) (window_after e (own_window s t))"
    using tidy_follows [OF r(4) fo] same by blast+
  have "\<exists>ops'. chronicle v ops'"
    by (rule chronicle_event [OF ops al ev]) (use ti(1) in \<open>simp add: own_window_def\<close>)
  moreover have "answered (trace v)"
    unfolding v(2) using ok ti(1) by (intro answered_snoc) (auto simp: system_ok_def)
  moreover have "guarded (trace v)" "owner_after (trace v) = owner v"
    using ok al by (simp_all add: v guarded_snoc system_ok_def)
  moreover have "thread_ok v t'" for t'
  proof (cases "t' = t")
    case True
    have "owner v m = Some t \<longleftrightarrow> next_held e held = Some m" for m
      unfolding v(3) using r(2) wl(3,4) v(6)
      by (cases "(e, held)" rule: next_held.cases) (auto simp: pass_other)
    moreover have "next_seen e seen \<Longrightarrow> shared_callback v \<noteq> None"
      using r(3) v(4,7) kept by (cases "(e, seen)" rule: next_seen.cases) auto
    ultimately have "running v t p' (next_held e held) (next_seen e seen)"
      using wl(1) ti(2) wi(1) by (simp add: running_def v(2))
    then show ?thesis by (intro thread_okI [of v t' p']) (simp_all add: v(1) True)
  next
    case False
    have "thread_ok s t'" using ok by (simp add: system_ok_def)
    then show ?thesis
    proof (rule thread_ok_frame)
      show "owner v m = Some t' \<longleftrightarrow> owner s m = Some t'" for m
        unfolding v(3) using al False
        by (cases "((t, e), owner s)" rule: pass_mutex.cases) (auto simp: allowed_def)
      show "shared_callback v \<noteq> None" if "shared_callback s \<noteq> None"
        using that by (rule kept)
    qed (use False wi(2) in \<open>simp_all add: v\<close>)
  qed
  ultimately show ?thesis by (simp add: system_ok_def)
qed

lemma system_ok_enter:
  assumes "system_ok s" and "thread s t = None" and "entry e"
  shows "system_ok (s\<lparr>thread := (thread s)(t \<mapsto> code e)\<rparr>)"
proof -
  have idle: "(\<forall>m. owner s m \<noteq> Some t) \<and> bus_of t (trace s) = Free"
    using assms(1,2) by (auto simp: system_ok_def thread_ok_def dest!: spec [of _ t])
  then have "running (s\<lparr>thread := (thread s)(t \<mapsto> code e)\<rparr>) t (code e) None False"
    using entry_locked [OF assms(3)] entry_tidy [OF assms(3)] by (simp add: running_def own_window_def)
  then have "thread_ok (s\<lparr>thread := (thread s)(t \<mapsto> code e)\<rparr>) t" by (intro thread_okI) simp
  moreover have "thread_ok (s\<lparr>thread := (thread s)(t \<mapsto> code e)\<rparr>) t'" if "t' \<noteq> t" for t'
    by (rule thread_ok_frame [of s]) (use assms(1) that in \<open>simp_all add: system_ok_def\<close>)
  ultimately have "thread_ok (s\<lparr>thread := (thread s)(t \<mapsto> code e)\<rparr>) t'" for t' by (cases "t' = t") simp_all
  then show ?thesis using assms(1) by (simp add: system_ok_def)
qed

lemma system_ok_leave:
  assumes "system_ok s" and "thread s t = Some (Ret x)"
  shows "system_ok (s\<lparr>thread := (thread s)(t := None)\<rparr>)"
proof -
  obtain held seen where "running s t (Ret x) held seen" using thread_ok_running [OF assms] .
  then have "(\<forall>m. owner s m \<noteq> Some t) \<and> bus_of t (trace s) = Free" by (simp add: running_def)
  then have "thread_ok (s\<lparr>thread := (thread s)(t := None)\<rparr>) t" by (simp add: thread_ok_def)
  moreover have "thread_ok (s\<lparr>thread := (thread s)(t := None)\<rparr>) t'" if "t' \<noteq> t" for t'
    by (rule thread_ok_frame [of s]) (use assms(1) that in \<open>simp_all add: system_ok_def\<close>)
  ultimately have "thread_ok (s\<lparr>thread := (thread s)(t := None)\<rparr>) t'" for t' by (cases "t' = t") simp_all
  then show ?thesis using assms(1) by (simp add: system_ok_def)
qed

lemma step_inside_or_enters:
  assumes "sys_step code entry s v"
  shows "sys_step code (\<lambda>_. False) s v \<or>
    (\<exists>t e. thread s t = None \<and> entry e \<and> v = s\<lparr>thread := (thread s)(t \<mapsto> code e)\<rparr>)"
  using assms by cases (auto intro: sys_step.intros)

lemma system_ok_step:
  assumes "sys_step code entry s v" and "system_ok s"
  shows "system_ok v"
proof (cases "sys_step code (\<lambda>_. False) s v")
  case True
  then show ?thesis
  proof (cases rule: inside_cases)
    case (returns t x)
    then show ?thesis using system_ok_leave [OF assms(2)] by simp
  next
    case (event t e p p')
    then show ?thesis by (rule system_ok_event [OF assms(2)])
  qed
next
  case False
  then show ?thesis using step_inside_or_enters [OF assms(1)] system_ok_enter [OF assms(2)] by blast
qed

lemma system_ok_init: "system_ok system_init"
proof -
  have "chronicle (system_init :: 'r system) []"
    by (simp add: chronicle_def system_init_def pending_def snapshot_accesses_def)
  then show ?thesis
    by (auto simp: system_ok_def system_init_def thread_ok_def guarded_Nil answered_def fun_eq_iff)
qed

lemma reachable_ok: "reachable code entry s \<Longrightarrow> system_ok s"
  by (induction rule: reachable.induct) (auto intro: system_ok_init system_ok_step)

text \<open>The facts a client of the contract uses.\<close>

lemma no_undefined: "reachable code entry s \<Longrightarrow> thread s t \<noteq> Some Undefined"
proof
  assume "reachable code entry s" "thread s t = Some Undefined"
  then obtain held seen where "running s t Undefined held seen"
    using thread_ok_running reachable_ok by blast
  then show False by (simp add: running_def)
qed

lemma no_snapshot_race: "reachable code entry s \<Longrightarrow> \<not> races s sSnapshot"
proof
  assume "reachable code entry s" and "races s sSnapshot"
  then obtain t t' p p' w where r: "t \<noteq> t'" "thread s t = Some p" "thread s t' = Some p'"
    "next_access p = Some (sSnapshot, True)" "next_access p' = Some (sSnapshot, w)"
    by (auto simp: races_def)
  have own: "owner s sSnapshotMutex = Some u"
    if q: "thread s u = Some q" "next_access q = Some (sSnapshot, b)" for u q b
  proof -
    obtain held seen where "running s u q held seen"
      using thread_ok_running [OF reachable_ok [OF \<open>reachable code entry s\<close>] q(1)] .
    then show ?thesis using next_access_snapshot [OF _ q(2)] by (auto simp: running_def)
  qed
  show False using own [OF r(2,4)] own [OF r(3,5)] r(1) by simp
qed

lemma guarded_trace: "reachable code entry s \<Longrightarrow> guarded (trace s)"
  using reachable_ok by (simp add: system_ok_def)

lemma snapshot_chronicle: "reachable code entry s \<Longrightarrow> \<exists>ops. chronicle s ops"
  using reachable_ok by (simp add: system_ok_def)

text \<open>
  A response is read in the exchange its command began: one thread takes the bus, sends the
  command, waits and reads, keeping the bus all the while, with nothing on the bus in between.
\<close>

lemma response_follows_command:
  assumes "reachable code entry s" and tr: "trace s = pre @ (t, ReadBus n err bs) # post"
  obtains cmd before taken between where
    "pre = before @ (t, Did (Lock kBusMutex)) # taken @ (t, Asked (I2cWrite (command_bytes cmd)) 0) # between"
    "(t, Did (Unlock kBusMutex)) \<notin> set (taken @ between)" "response_bytes cmd = Some n"
    "(t, Did (Msleep kExecReadMs)) \<in> set between" "\<forall>x \<in> set between. required (snd x) \<noteq> Some kBusMutex"
proof -
  have "answered (trace s)" using reachable_ok [OF assms(1)] by (simp add: system_ok_def)
  then obtain cmd where cmd: "bus_of t pre = Waited (command_bytes cmd) kExecReadMs" "response_bytes cmd = Some n"
    using tr unfolding answered_def by blast
  obtain start between where p: "pre = start @ (t, Asked (I2cWrite (command_bytes cmd)) 0) # between"
    "calm t between" "(t, Did (Msleep kExecReadMs)) \<in> set between"
    using sent_command(2) [OF cmd(1)] by blast
  let ?c = "(t, Asked (I2cWrite (command_bytes cmd)) 0)"
  have g: "guarded (trace s)" by (rule guarded_trace [OF assms(1)])
  then have "allowed (owner_after start) t (Asked (I2cWrite (command_bytes cmd)) 0)"
    unfolding guarded_def using tr p(1) by auto
  then have own: "owner_after start kBusMutex = Some t" by (simp add: allowed_def)
  obtain before taken where b: "start = before @ (t, Did (Lock kBusMutex)) # taken"
    "(t, Did (Unlock kBusMutex)) \<notin> set taken"
    using owner_took [OF own] by blast
  have "owner_after (start @ [?c]) kBusMutex = Some t" using own by simp
  moreover have "guarded ((start @ [?c]) @ between)"
    using g guarded_append [of pre "(t, ReadBus n err bs) # post"] tr p(1) by simp
  moreover have kept: "(t, Did (Unlock kBusMutex)) \<notin> set between" using p(2) by (auto simp: calm_def)
  ultimately have "\<forall>x \<in> set between. required (snd x) = Some kBusMutex \<longrightarrow> fst x = t"
    using owned_until_given by blast
  then have "\<forall>x \<in> set between. required (snd x) \<noteq> Some kBusMutex" using p(2) by (auto simp: calm_def)
  with p(1,3) b kept cmd(2) that [of before taken cmd between] show thesis by simp
qed

text \<open>A thread that is not waiting for a mutex can take a step.\<close>

lemma step_by:
  "sys_step code entry s s' \<Longrightarrow> trace s' = trace s @ [(t, e)] \<Longrightarrow>
   \<exists>s'. sys_step code entry s s' \<and> (thread s' t = None \<or> (\<exists>e. trace s' = trace s @ [(t, e)]))"
  by blast

lemma can_step:
  assumes "running s t p held seen" and "thread s t = Some p"
    and "\<And>m p'. p = Do (Lock m) p' \<Longrightarrow> owner s m = None"
  shows "\<exists>s'. sys_step code entry s s' \<and> (thread s' t = None \<or> (\<exists>e. trace s' = trace s @ [(t, e)]))"
proof (cases p)
  case (Ret x)
  then have "sys_step code entry s (s\<lparr>thread := (thread s)(t := None)\<rparr>)"
    using assms(2) by (intro sys_step.Leave) simp
  then show ?thesis by (intro exI conjI) auto
next
  case Undefined
  then show ?thesis using assms(1) by (simp add: running_def)
next
  case (Do a p')
  consider m where "a = Lock m" | m where "a = Unlock m" | "\<forall>m. a \<noteq> Lock m \<and> a \<noteq> Unlock m" by blast
  then show ?thesis
  proof cases
    case 1
    show ?thesis by (rule step_by [OF sys_step.TakeMutex]) (use assms Do 1 in \<open>simp_all add: advance_def\<close>)
  next
    case 2
    show ?thesis by (rule step_by [OF sys_step.GiveMutex]) (use assms Do 2 in \<open>simp_all add: advance_def\<close>)
  next
    case 3
    show ?thesis by (rule step_by [OF sys_step.Act]) (use assms Do 3 in \<open>simp_all add: advance_def\<close>)
  qed
next
  case (Ask q k)
  show ?thesis by (rule step_by [OF sys_step.Answer [where r = 0]]) (use assms Ask in \<open>simp_all add: advance_def\<close>)
next
  case (I2cRead n k)
  show ?thesis by (rule step_by [OF sys_step.Transfer [where r = "(0, \<lambda>i. 0)"]]) (use assms I2cRead in \<open>simp_all add: advance_def\<close>)
next
  case (Uptime k)
  show ?thesis by (rule step_by [OF sys_step.ReadClock [where now = 0]]) (use assms Uptime in \<open>simp_all add: advance_def\<close>)
next
  case (GetSnapshot k)
  show ?thesis by (rule step_by [OF sys_step.ReadSnapshot]) (use assms GetSnapshot in \<open>simp_all add: advance_def\<close>)
next
  case (GetCallback k)
  show ?thesis by (rule step_by [OF sys_step.ReadCallback]) (use assms GetCallback in \<open>simp_all add: advance_def\<close>)
qed

text \<open>
  No deadlock: a thread waits only for a mutex another thread holds, and a thread that holds
  one never waits.
\<close>

lemma not_stuck:
  assumes "reachable code entry s" and "thread s t \<noteq> None"
  shows "\<exists>t' s'. thread s t' \<noteq> None \<and> sys_step code entry s s' \<and>
    (thread s' t' = None \<or> (\<exists>e. trace s' = trace s @ [(t', e)]))"
proof -
  have ok: "system_ok s" using assms(1) by (rule reachable_ok)
  obtain p where p: "thread s t = Some p" using assms(2) by blast
  obtain held seen where r: "running s t p held seen" using thread_ok_running [OF ok p] .
  show ?thesis
  proof (cases "\<exists>m p'. p = Do (Lock m) p' \<and> owner s m \<noteq> None")
    case False
    then show ?thesis using can_step [OF r p] assms(2) by blast
  next
    case True
    then obtain m p' t' where "owner s m = Some t'" by blast
    moreover have "thread_ok s t'" using ok by (simp add: system_ok_def)
    ultimately have "\<exists>q. thread s t' = Some q" by (cases "thread s t'") (auto simp: thread_ok_def)
    then obtain q where q': "thread s t' = Some q" by blast
    obtain held' seen' where r': "running s t' q held' seen'" using thread_ok_running [OF ok q'] .
    then have "held' = Some m" using \<open>owner s m = Some t'\<close> by (simp add: running_def)
    note q = q' r' this
    then have "q \<noteq> Do (Lock m'') p''" for m'' p'' by (auto simp: running_def)
    then show ?thesis using can_step [OF q(2,1)] q(1) by blast
  qed
qed

end

end
