(* ===== verification/Firmware_Threads.thy ===== *)
theory Firmware_Threads
  imports App_Task Interleaved_System
begin

text \<open>
  The firmware as concurrent threads: the poll work queue, the shell, the CHIP thread and the
  main thread run the entry points of the components, interleaved as in \<open>Interleaved_System\<close>.  The
  entry points keep the contract of that theory.
\<close>

section \<open>The entry points of the firmware\<close>

text \<open>
  What threads run: the start of the sensor on the main thread, ticks on the work queue, the
  adapter's two functions on the CHIP thread and the shell commands.  A tick runs with some
  policy a tick can have left behind, \<^verbatim>\<open>sen66 serial\<close> with some contents of its array.  The
  start and a tick return the value they leave in \<^verbatim>\<open>sPolicy\<close>.
\<close>

datatype firmware_entry =
    Start bool bool
  | Tick Policy
  | Apply
  | Init_Clusters
  | Serial bytes
  | Read
  | Latest

definition ignore :: "'a io \<Rightarrow> Policy option io" where
  "ignore p = io_bind p (\<lambda>_. Ret None)"

definition leave_policy :: "Policy io \<Rightarrow> Policy option io" where
  "leave_policy p = io_bind p (\<lambda>sPolicy. Ret (Some sPolicy))"

primrec entry_code :: "firmware_entry \<Rightarrow> Policy option io" where
  "entry_code (Start app_sen66 app_service) = leave_policy (Start_Sensor app_sen66 app_service)"
| "entry_code (Tick sPolicy) = leave_policy (PollWorkHandler callback_code sPolicy)"
| "entry_code Apply = ignore ApplyLatestMeasurement"
| "entry_code Init_Clusters = ignore ClusterInit"
| "entry_code (Serial serial) = ignore (CmdSerial serial)"
| "entry_code Read = ignore CmdRead"
| "entry_code Latest = ignore CmdLatest"

primrec firmware_entry_ok :: "firmware_entry \<Rightarrow> bool" where
  "firmware_entry_ok (Start app_sen66 app_service) \<longleftrightarrow> True"
| "firmware_entry_ok (Tick sPolicy) \<longleftrightarrow> usable sPolicy"
| "firmware_entry_ok Apply \<longleftrightarrow> True"
| "firmware_entry_ok Init_Clusters \<longleftrightarrow> True"
| "firmware_entry_ok (Serial serial) \<longleftrightarrow> length serial = kSerialChars"
| "firmware_entry_ok Read \<longleftrightarrow> True"
| "firmware_entry_ok Latest \<longleftrightarrow> True"

lemma well_locked_ignore: "well_locked p None False \<Longrightarrow> well_locked (ignore p) None False"
  "well_locked q None False \<Longrightarrow> well_locked (leave_policy q) None False"
  unfolding ignore_def leave_policy_def by (rule well_locked_bind, simp_all)+

lemma well_locked_Service_Init: "well_locked (Service_Init p) None False"
  unfolding Service_Init_def
  by (simp, intro well_locked_bind well_locked_driver) simp_all

lemma well_locked_Start_Sensor: "well_locked (Start_Sensor a b) None False"
  unfolding Start_Sensor_def
  by (auto intro!: well_locked_bind well_locked_driver well_locked_Service_Init)

lemma entry_code_locked: "firmware_entry_ok e \<Longrightarrow> well_locked (entry_code e) None False"
  by (cases e)
    (simp_all add: well_locked_ignore discipline poll.well_locked_PollWorkHandler well_locked_Start_Sensor)

text \<open>The exchanges of the driver, and the two operations on the snapshot.\<close>

lemma tidy_ignore: "tidy p Free [] \<Longrightarrow> tidy (ignore p) Free []"
  "tidy q Free [] \<Longrightarrow> tidy (leave_policy q) Free []"
  unfolding ignore_def leave_policy_def by (rule tidy_bind, simp_all)+

lemma SendCommand_eq: "SendCommand cmd = Ask (I2cWrite (command_bytes cmd)) Ret"
  by (simp add: SendCommand_def command_bytes_def Let_def)

lemma fits_response:
  "response_bytes cmd = Some n \<Longrightarrow> fits (ReadBus n err bs) (Waited (command_bytes cmd) kExecReadMs) w"
  by auto

lemmas exchange_defs = BusLock_def SendCommand_eq ReadBytes_def Driver_Init_def ReadSerialNumber_def
  StartMeasurement_def StopMeasurement_def IsDataReady_def ReadMeasurement_def

lemma tidy_driver:
  "tidy StartMeasurement Free []" "tidy IsDataReady Free []"
  "tidy (ReadMeasurement m) Free []" "tidy Driver_Init Free []"
  by (auto simp: exchange_defs Let_def buffer_parsers rd_buffer kDataReadyBytes_def kWordSize_def
    CheckWordsCrc_eq fits_response simp del: fits.simps(1) split: prod.splits)

lemma tidy_PublishSnapshot: "tidy (PublishSnapshot p now) Free []"
proof -
  have "begun [Did (SetMeasurement m)]" "begun [Did (SetMeasurement m), Did (SetAgeMs a)]"
    "begun [Did (SetMeasurement m), Did (SetAgeMs a), Did (SetEverValid k)]"
    "complete [Did (SetMeasurement m), Did (SetAgeMs a), Did (SetEverValid k)]" for m a k
    unfolding begun_def complete_def
    by (auto intro!: exI [of _ "Publish \<lparr>measurement = m, ageMs = a, everValid = k\<rparr>"])
  then show ?thesis by (simp add: PublishSnapshot_def split: prod.split)
qed

lemma tidy_Service_GetLatest: "tidy Service_GetLatest Free []"
proof -
  have "begun [SawSnapshot s]" "begun [SawSnapshot s, SawSnapshot s]" "begun [SawSnapshot s, SawSnapshot s, SawSnapshot s]"
    "complete [SawSnapshot s, SawSnapshot s, SawSnapshot s]" for s
    unfolding begun_def complete_def by (auto intro!: exI [of _ "Fetch s"])
  then show ?thesis by (simp add: Service_GetLatest_def Let_def)
qed

lemma tidy_shell: "tidy (shell_print l) Free []" "tidy (PrintMeasurement m) Free []"
proof -
  have "tidy (foldr (\<lambda>l p. Do (ShellPrint s l) p) ls (Ret ())) Free []" for ls s
    by (induction ls) simp_all
  then show "tidy (PrintMeasurement m) Free []" by (simp add: PrintMeasurement_lines)
qed (simp add: shell_print_def)

lemma tidy_poll_ready: "tidy (poll_ready i ready) Free []"
proof (induction i ready rule: poll_ready.induct)
  case (1 i ready)
  show ?case
  proof (cases "i < kDataReadyPollCount \<and> \<not> ready")
    case True
    with 1 show ?thesis
      by (subst poll_ready.simps) (simp, intro tidy_bind, simp_all add: tidy_driver)
  next
    case False
    then show ?thesis by (subst poll_ready.simps) auto
  qed
qed

lemma tidy_CmdSerial: "length serial = kSerialChars \<Longrightarrow> tidy (CmdSerial serial) Free []"
  by (auto simp: CmdSerial_def exchange_defs Let_def buffer_parsers format_chars_def shell_print_def
      EIO_def fits_response simp del: fits.simps(1) split: prod.splits)

lemma tidy_CmdRead: "tidy CmdRead Free []"
  unfolding CmdRead_def
  by (intro tidy_bind tidy_driver(1) tidy_poll_ready)
    (auto intro!: tidy_bind tidy_driver(3) simp: tidy_shell)

lemma tidy_CmdLatest: "tidy CmdLatest Free []"
  unfolding CmdLatest_def
  by (intro tidy_bind tidy_Service_GetLatest)
    (auto intro!: tidy_bind simp: tidy_shell)

lemma tidy_Apply: "tidy ApplyLatestMeasurement Free []"
proof -
  note valid = is_valid_def [symmetric]
  show ?thesis
    unfolding ApplyLatestMeasurement_def valid
    by (intro tidy_bind [OF tidy_Service_GetLatest])
      (auto simp: Let_def intro!: tidy_bind)
qed

lemma tidy_ClusterInit: "tidy ClusterInit Free []"
proof -
  have "tidy (ask_all qs) Free []" if "list_all (\<lambda>q. \<nexists>bs. q = I2cWrite bs) qs" for qs
    using that
  proof (induction qs)
    case (Cons q qs)
    then have "bus_after (Asked q r) Free = Free" for r by (cases q) auto
    with Cons show ?case by simp
  qed simp
  then have "tidy (ask_all cluster_inits) Free []" by (simp add: cluster_inits_eq)
  then show ?thesis
    unfolding ClusterInit_ask_all
    by (intro tidy_bind) (auto intro!: tidy_bind tidy_Apply)
qed

lemma tidy_Start: "tidy (Start_Sensor a b) Free []"
proof -
  have "tidy (Service_Init p) Free []" for p
    unfolding Service_Init_def
    by (simp, intro tidy_bind tidy_driver) simp_all
  then show ?thesis
    unfolding Start_Sensor_def by (auto intro!: tidy_bind tidy_driver)
qed

lemma tidy_Tick:
  assumes "usable p"
  shows "tidy (PollWorkHandler callback_code p) Free []"
proof -
  have react: "tidy (react callback_code q now) Free []" if q: "usable q" for q now
  proof -
    obtain d where d: "NextDelayMs q = Some d" "NextDelayMs (MarkNotified q now) = Some d"
      using sen66_policy.delay_defined [OF q] by (auto simp: sen66_policy.delay_acknowledge)
    have tail: "tidy (io_bind (defined (NextDelayMs q')) (\<lambda>delay. Do (WorkSchedule delay) (Ret q'))) Free []"
      if "q' = q \<or> q' = MarkNotified q now" for q'
      using that d by auto
    have calls: "tidy (io_bind (io_bind (callback_code f reading changed) (\<lambda>_. Ret q')) g) Free []"
      if "tidy (g q') Free []" for f reading changed q' g
      using that by (cases f) (simp add: OnMeasurementUpdated_def)
    show ?thesis
      unfolding react_def
      by (intro tidy_bind [OF tidy_PublishSnapshot])
        (auto simp: Let_def tail calls split: option.split)
  qed
  have acquire: "tidy (acquire p) Free []"
    unfolding acquire_def by (intro tidy_bind) (simp_all add: tidy_driver)
  show ?thesis
    unfolding PollWorkHandler_split
    by (intro tidy_bind [OF acquire]) (simp add: react usable_OnReadResult assms split: prod.split)
qed

lemma entry_code_tidy: "firmware_entry_ok e \<Longrightarrow> tidy (entry_code e) Free []"
  by (cases e)
    (simp_all add: tidy_ignore tidy_Start tidy_Tick tidy_Apply tidy_ClusterInit tidy_CmdSerial tidy_CmdRead
      tidy_CmdLatest)

interpretation firmware: disciplined_entries entry_code firmware_entry_ok
  by unfold_locales (simp_all add: entry_code_locked entry_code_tidy)

text \<open>Between taking a mutex and giving it back, nobody else uses what the mutex guards.\<close>

definition exclusive :: "mutex \<Rightarrow> (nat \<times> event) list \<Rightarrow> bool" where
  "exclusive m tr \<longleftrightarrow>
     (\<forall>pre t mid t' e post. tr = pre @ (t, Did (Lock m)) # mid @ (t', e) # post \<and>
        (t, Did (Unlock m)) \<notin> set mid \<and> required e = Some m \<longrightarrow> t' = t)"

lemma exclusive_if_guarded:
  assumes "guarded tr"
  shows "exclusive m tr"
  unfolding exclusive_def
proof (intro allI impI, elim conjE)
  fix pre t mid t' e post
  assume tr: "tr = pre @ (t, Did (Lock m)) # mid @ (t', e) # post"
    and no: "(t, Did (Unlock m)) \<notin> set mid" and req: "required e = Some m"
  have "guarded ((pre @ [(t, Did (Lock m))]) @ mid @ [(t', e)])"
    using guarded_append [of "(pre @ [(t, Did (Lock m))]) @ mid @ [(t', e)]" post] assms by (simp add: tr)
  moreover have "owner_after (pre @ [(t, Did (Lock m))]) m = Some t" by simp
  moreover have "(t, Did (Unlock m)) \<notin> set (mid @ [(t', e)])" using no req by auto
  ultimately show "t' = t" using owned_until_given [of "pre @ [(t, Did (Lock m))]" "mid @ [(t', e)]" m t] req by auto
qed

text \<open>A thread inside \<^verbatim>\<open>sen66 read\<close> that has just taken the bus.\<close>

lemma reading_state:
  "\<exists>s. reachable entry_code firmware_entry_ok s \<and> trace s = [(0, Did (Lock kBusMutex))] \<and>
     thread s 0 \<noteq> None \<and> owner s sSnapshotMutex = None"
proof -
  let ?step = "sys_step entry_code firmware_entry_ok"
  obtain p where p: "entry_code Read = Do (Lock kBusMutex) p"
    by (simp add: ignore_def CmdRead_def StartMeasurement_def BusLock_def)
  let ?s = "system_init\<lparr>thread := (thread system_init)(0 \<mapsto> entry_code Read)\<rparr>"
  let ?t = "(advance 0 (Did (Lock kBusMutex)) p ?s)\<lparr>owner := (owner ?s)(kBusMutex \<mapsto> 0)\<rparr>"
  have "?step system_init ?s" by (rule sys_step.Enter) (simp_all add: system_init_def)
  moreover have "?step ?s ?t"
    by (rule sys_step.TakeMutex) (simp_all only: p, simp_all add: system_init_def)
  ultimately have "reachable entry_code firmware_entry_ok ?t"
    by (meson reachable.intros)
  then show ?thesis by (intro exI [of _ ?t]) (simp add: advance_def system_init_def)
qed

section \<open>Properties\<close>

text \<open>
  C12. The firmware does not deadlock: in every reachable state in which some thread is inside an
  entry point, a thread inside an entry point can make its next call or return.
\<close>

theorem firmware_is_deadlock_free:
  assumes "reachable entry_code firmware_entry_ok s" and "thread s t \<noteq> None"
  shows "\<exists>t' s'. thread s t' \<noteq> None \<and> sys_step entry_code firmware_entry_ok s s' \<and>
    (thread s' t' = None \<or> (\<exists>e. trace s' = trace s @ [(t', e)]))"
  using firmware.not_stuck [OF assms] .

theorem firmware_is_deadlock_free_witness:
  "\<exists>s s'. trace s = [(0, Did (Lock kBusMutex))] \<and> sys_step entry_code firmware_entry_ok s s'"
  using reading_state firmware_is_deadlock_free by metis

text \<open>
  C13. No interleaving lets a thread read or write outside a buffer, take a backoff step past its
  array, or call through a callback pointer that was cleared after it had been checked; and the
  snapshot is free of data races: two threads are never both about to access it when one of
  them is about to write it.  (The callback pointer is not, as
  \<^verbatim>\<open>Firmware_Runs\<close> shows.)
\<close>

theorem no_interleaving_is_undefined:
  assumes "reachable entry_code firmware_entry_ok s"
  shows "thread s t \<noteq> Some Undefined \<and> \<not> races s sSnapshot"
  using firmware.no_undefined [OF assms] firmware.no_snapshot_race [OF assms] by blast

theorem no_interleaving_is_undefined_witness:
  "\<exists>s :: Policy option system. trace s = [(0, Did (Lock kBusMutex))] \<and> thread s 0 \<noteq> Some Undefined \<and>
     \<not> races s sSnapshot"
  using reading_state no_interleaving_is_undefined by metis

end
