(* ===== verification/Firmware_Schedule.thy ===== *)
theory Firmware_Schedule
  imports Firmware_Threads
begin

text \<open>
  The threads of the firmware with what decides when each of them runs: \<^verbatim>\<open>main\<close> starts the
  sensor once and then has the clusters initialised, the poll thread runs the work item when it
  is armed, the Matter thread runs the work that was scheduled on it, the shell thread runs commands.
  \<^verbatim>\<open>sPolicy\<close> has no lock; it goes from thread to thread with the work item.  Every value that
  is published is followed back to a frame the sensor sent.
\<close>

section \<open>Where values come from\<close>

text \<open>The measurements of the valid frames that were read from the bus.\<close>

fun readings_of :: "event \<Rightarrow> Measurement set" where
  "readings_of (ReadBus n err bs) =
     {decode ws |ws. length ws = kMeasurementWords \<and> n = kMeasurementBytes \<and> err = 0 \<and> bs = BuildFrame ws}"
| "readings_of _ = {}"

definition received :: "(nat \<times> event) list \<Rightarrow> Measurement set" where
  "received tr = (\<Union>(t, e) \<in> set tr. readings_of e)"

fun write_of :: "event \<Rightarrow> attribute_write list" where
  "write_of (Did (WriteAttribute x)) = [x]"
| "write_of _ = []"

definition writes_by :: "nat \<Rightarrow> (nat \<times> event) list \<Rightarrow> attribute_write list" where
  "writes_by t tr = concat (map (\<lambda>(t', e). if t' = t then write_of e else []) tr)"

lemma received_simps [simp]:
  "received [] = {}" "received (tr @ [(t, e)]) = received tr \<union> readings_of e"
  by (auto simp: received_def)

lemma writes_by_simps [simp]:
  "writes_by t [] = []"
  "writes_by t (tr @ [(t', e)]) = writes_by t tr @ (if t' = t then write_of e else [])"
  by (simp_all add: writes_by_def)

definition from_sensor :: "Measurement set \<Rightarrow> Snapshot \<Rightarrow> bool" where
  "from_sensor G s \<longleftrightarrow> (everValid s \<longrightarrow> measurement s \<in> G)"

lemma from_sensor_mono: "from_sensor G s \<Longrightarrow> G \<subseteq> G' \<Longrightarrow> from_sensor G' s"
  by (auto simp: from_sensor_def)

text \<open>
  A program accounts for its values: it publishes snapshots and writes attributes only from
  measurements in \<open>G\<close>, the frames received so far, and its attribute writes \<open>part\<close> since its
  start never leave the order of one publication.  While it holds the snapshot's mutex, \<open>cur\<close> is the
  snapshot; \<open>R\<close> is what holds of its result.
\<close>

primrec accounts :: "('a \<Rightarrow> Measurement set \<Rightarrow> attribute_write list \<Rightarrow> bool) \<Rightarrow> 'a io \<Rightarrow>
    Measurement set \<Rightarrow> Snapshot option \<Rightarrow> attribute_write list \<Rightarrow> bool" where
  "accounts R (Ret x) G cur part \<longleftrightarrow> R x G part"
| "accounts R Undefined G cur part \<longleftrightarrow> True"
| "accounts R (Do a p) G cur part \<longleftrightarrow>
     (case a of
        Lock m \<Rightarrow> if m = sSnapshotMutex
          then \<forall>G' s. G \<subseteq> G' \<and> from_sensor G' s \<longrightarrow> accounts R p G' (Some s) part
          else accounts R p G cur part
      | Unlock m \<Rightarrow> if m = sSnapshotMutex
          then (\<exists>s. cur = Some s \<and> from_sensor G s) \<and> accounts R p G None part
          else accounts R p G cur part
      | WriteAttribute x \<Rightarrow>
          (\<exists>m\<in>G. prefix (part @ [x]) (attribute_writes m)) \<and> accounts R p G cur (part @ [x])
      | _ \<Rightarrow> accounts R p G (map_option (snap_effect a) cur) part)"
| "accounts R (Ask q k) G cur part \<longleftrightarrow> (\<forall>r. accounts R (k r) G cur part)"
| "accounts R (I2cRead n k) G cur part \<longleftrightarrow>
     (\<forall>r. accounts R (k r) (G \<union> readings_of (ReadBus n (fst r) (map (snd r) [0..<n]))) cur part)"
| "accounts R (Uptime k) G cur part \<longleftrightarrow> (\<forall>t. accounts R (k t) G cur part)"
| "accounts R (GetSnapshot k) G cur part \<longleftrightarrow> (\<forall>s. cur = Some s \<longrightarrow> accounts R (k s) G cur part)"
| "accounts R (GetCallback k) G cur part \<longleftrightarrow> (\<forall>c. accounts R (k c) G cur part)"

definition monotone_result :: "('a \<Rightarrow> Measurement set \<Rightarrow> attribute_write list \<Rightarrow> bool) \<Rightarrow> bool" where
  "monotone_result R \<longleftrightarrow> (\<forall>x G G' part. R x G part \<longrightarrow> G \<subseteq> G' \<longrightarrow> R x G' part)"

lemma accounts_mono:
  assumes "monotone_result R"
  shows "accounts R p G cur part \<Longrightarrow> G \<subseteq> G' \<Longrightarrow> accounts R p G' cur part"
proof (induction p arbitrary: G G' cur part)
  case (Ret x)
  then show ?case using assms by (auto simp: monotone_result_def)
next
  case (Do a p)
  show ?case
  proof (cases a)
    case (Lock m)
    with Do.prems show ?thesis by (auto intro: Do.IH split: if_splits)
  next
    case (Unlock m)
    with Do show ?thesis by (auto intro: from_sensor_mono split: if_splits)
  next
    case (WriteAttribute x)
    with Do.prems have "\<exists>m\<in>G'. prefix (part @ [x]) (attribute_writes m)" by auto
    with WriteAttribute Do show ?thesis by auto
  qed (use Do in \<open>auto\<close>)
next
  case (I2cRead n k)
  let ?g = "\<lambda>r. readings_of (ReadBus n (fst r) (map (snd r) [0..<n]))"
  have "accounts R (k r) (G' \<union> ?g r) cur part" for r
  proof (rule I2cRead.IH [OF rangeI])
    show "accounts R (k r) (G \<union> ?g r) cur part" using I2cRead.prems(1) by (simp only: accounts.simps)
    show "G \<union> ?g r \<subseteq> G' \<union> ?g r" using I2cRead.prems(2) by blast
  qed
  then show ?case by (simp only: accounts.simps) blast
next
  case (Ask q k)
  then show ?case by (simp only: accounts.simps) (meson rangeI)
next
  case (Uptime k)
  then show ?case by (simp only: accounts.simps) (meson rangeI)
next
  case (GetSnapshot k)
  then show ?case by (auto intro: GetSnapshot.IH)
next
  case (GetCallback k)
  then show ?case by (simp only: accounts.simps) (meson rangeI)
qed simp

text \<open>What a program may rely on after it has called another.\<close>

lemma accounts_bind:
  "accounts R' p G cur part \<Longrightarrow> (\<And>x G' cur' part'. R' x G' part' \<Longrightarrow> accounts R (f x) G' cur' part') \<Longrightarrow>
   accounts R (io_bind p f) G cur part"
proof (induction p arbitrary: G cur part)
  case (Do a p)
  then show ?case by (cases a) auto
next
  case (I2cRead n k)
  then show ?case by (auto simp del: split_paired_All readings_of.simps)
qed auto


section \<open>One event of a program that accounts for its values\<close>

text \<open>A program that accounts for its values still does after its next event.\<close>

fun cur_after :: "event \<Rightarrow> Snapshot option \<Rightarrow> Snapshot \<Rightarrow> Snapshot option" where
  "cur_after (Did (Lock m)) cur s = (if m = sSnapshotMutex then Some s else cur)"
| "cur_after (Did (Unlock m)) cur s = (if m = sSnapshotMutex then None else cur)"
| "cur_after (Did a) cur s = map_option (snap_effect a) cur"
| "cur_after _ cur s = cur"

lemma accounts_follows:
  assumes "accounts R p G cur part" and "follows p e p'"
    and "e = Did (Lock sSnapshotMutex) \<Longrightarrow> from_sensor G s"
    and "\<And>x. e = SawSnapshot x \<Longrightarrow> cur = Some x"
  shows "accounts R p' (G \<union> readings_of e) (cur_after e cur s) (part @ write_of e)"
  using assms(2)
proof cases
  case (1 a)
  show ?thesis
  proof (cases a)
    case (Lock m)
    with 1 assms show ?thesis by (auto split: if_splits)
  next
    case (WriteAttribute x)
    with 1 assms show ?thesis by (cases cur) auto
  qed (use 1 assms in \<open>auto split: if_splits\<close>)
qed (use assms in \<open>auto simp del: split_paired_All readings_of.simps(1)\<close>)

text \<open>Its writes so far are the beginning of a publication.\<close>

definition begins_publication :: "Measurement set \<Rightarrow> attribute_write list \<Rightarrow> bool" where
  "begins_publication G part \<longleftrightarrow> part = [] \<or> (\<exists>m\<in>G. prefix part (attribute_writes m))"

lemma begins_publication_mono: "begins_publication G part \<Longrightarrow> G \<subseteq> G' \<Longrightarrow> begins_publication G' part"
  by (auto simp: begins_publication_def)

lemma follows_begins:
  assumes "accounts R p G cur part" and "follows p e p'" and "begins_publication G part"
  shows "begins_publication (G \<union> readings_of e) (part @ write_of e)"
  using assms(2)
proof cases
  case (1 a)
  with assms show ?thesis by (cases a) (auto simp: begins_publication_def)
qed (use assms(3) in \<open>auto intro: begins_publication_mono\<close>)


section \<open>Threads that account for their values\<close>

text \<open>A program that has returned has written no attribute or one whole publication.\<close>

definition completes :: "('r \<Rightarrow> Measurement set \<Rightarrow> bool) \<Rightarrow> 'r \<Rightarrow> Measurement set \<Rightarrow> attribute_write list \<Rightarrow> bool" where
  "completes result x G part \<longleftrightarrow> result x G \<and> (part = [] \<or> (\<exists>m\<in>G. part = attribute_writes m))"

text \<open>The snapshot as the thread that holds its mutex has it.\<close>

definition own_snap :: "'r system \<Rightarrow> nat \<Rightarrow> Snapshot option" where
  "own_snap s t = (if owner s sSnapshotMutex = Some t then Some (shared_snap s) else None)"

lemma own_snap_thread_update [simp]: "own_snap (s\<lparr>thread := x\<rparr>) t = own_snap s t"
  by (simp add: own_snap_def)

definition whole_writes :: "nat \<Rightarrow> (nat \<times> event) list \<Rightarrow> attribute_write list \<Rightarrow> bool" where
  "whole_writes t tr part \<longleftrightarrow>
     (\<exists>pubs. set pubs \<subseteq> received tr \<and> writes_by t tr = concat (map attribute_writes pubs) @ part)"

text \<open>
  The contract of entry points that may start when the frames received so far make them
  \<open>ready\<close>, and whose results then satisfy \<open>result\<close>.
\<close>

locale accounting_entries = disciplined_entries code entry
  for code :: "'e \<Rightarrow> 'r io" and entry :: "'e \<Rightarrow> bool" +
  fixes ready :: "Measurement set \<Rightarrow> 'e \<Rightarrow> bool" and result :: "'r \<Rightarrow> Measurement set \<Rightarrow> bool"
  assumes ready_entry: "ready G e \<Longrightarrow> entry e"
    and result_mono: "result x G \<Longrightarrow> G \<subseteq> G' \<Longrightarrow> result x G'"
    and entry_accounts: "ready G e \<Longrightarrow> accounts (completes result) (code e) G None []"
begin

lemma monotone_completes: "monotone_result (completes result)"
  using result_mono by (fastforce simp: monotone_result_def completes_def)

definition thread_accounts :: "'r system \<Rightarrow> nat \<Rightarrow> bool" where
  "thread_accounts s t \<longleftrightarrow>
     (\<exists>part. whole_writes t (trace s) part \<and> begins_publication (received (trace s)) part \<and>
       (case thread s t of None \<Rightarrow> part = []
        | Some p \<Rightarrow> accounts (completes result) p (received (trace s)) (own_snap s t) part))"

lemma thread_accounts_frame:
  assumes "thread_accounts s t" and th: "thread s' t = thread s t" and own: "own_snap s' t = own_snap s t"
    and wr: "writes_by t (trace s') = writes_by t (trace s)" and rc: "received (trace s) \<subseteq> received (trace s')"
  shows "thread_accounts s' t"
proof -
  obtain part where part: "whole_writes t (trace s) part" "begins_publication (received (trace s)) part"
    "case thread s t of None \<Rightarrow> part = []
     | Some p \<Rightarrow> accounts (completes result) p (received (trace s)) (own_snap s t) part"
    using assms(1) by (auto simp: thread_accounts_def)
  have "whole_writes t (trace s') part"
    using part(1) rc by (auto simp: whole_writes_def wr)
  moreover have "begins_publication (received (trace s')) part"
    using part(2) rc by (rule begins_publication_mono)
  moreover have "case thread s' t of None \<Rightarrow> part = []
     | Some p \<Rightarrow> accounts (completes result) p (received (trace s')) (own_snap s' t) part"
    using part(3) accounts_mono [OF monotone_completes _ rc] by (cases "thread s t") (auto simp: th own)
  ultimately show ?thesis unfolding thread_accounts_def by blast
qed

definition accounted :: "'r system \<Rightarrow> bool" where
  "accounted s \<longleftrightarrow>
     (\<forall>t. thread_accounts s t) \<and>
     (owner s sSnapshotMutex = None \<longrightarrow> from_sensor (received (trace s)) (shared_snap s))"

lemma thread_accounts_running:
  assumes "accounted s" and "thread s t = Some p"
  obtains part where "whole_writes t (trace s) part" "begins_publication (received (trace s)) part"
    "accounts (completes result) p (received (trace s)) (own_snap s t) part"
proof -
  have "thread_accounts s t" using assms(1) by (simp add: accounted_def)
  with assms(2) that show thesis by (auto simp: thread_accounts_def)
qed

lemma accounted_init: "accounted system_init"
proof -
  have "whole_writes t [] []" for t by (auto simp: whole_writes_def intro: exI [of _ "[]"])
  then show ?thesis
    by (auto simp: accounted_def thread_accounts_def system_init_def begins_publication_def
        from_sensor_def Snapshot_init_def)
qed

lemma accounted_enter:
  assumes "accounted s" and "reachable code entry s" and "thread s t = None" and "ready (received (trace s)) e"
  shows "accounted (s\<lparr>thread := (thread s)(t \<mapsto> code e)\<rparr>)"
proof -
  have "thread_ok s t" using reachable_ok [OF assms(2)] by (simp add: system_ok_def)
  then have own: "own_snap s t = None" using assms(3) by (simp add: thread_ok_def own_snap_def)
  have "thread_accounts (s\<lparr>thread := (thread s)(t \<mapsto> code e)\<rparr>) t'" for t'
  proof (cases "t' = t")
    case True
    have "thread_accounts s t" using assms(1) by (simp add: accounted_def)
    then show ?thesis
      using entry_accounts [OF assms(4)] own assms(3) by (auto simp: thread_accounts_def True)
  next
    case False
    have "thread_accounts s t'" using assms(1) by (simp add: accounted_def)
    then show ?thesis by (rule thread_accounts_frame) (use False in simp_all)
  qed
  then show ?thesis using assms(1) by (simp add: accounted_def)
qed

lemma accounted_leave:
  assumes "accounted s" and "thread s t = Some (Ret x)"
  shows "accounted (s\<lparr>thread := (thread s)(t := None)\<rparr>)" and "result x (received (trace s))"
proof -
  obtain part where part: "whole_writes t (trace s) part"
    "accounts (completes result) (Ret x) (received (trace s)) (own_snap s t) part"
    using thread_accounts_running [OF assms] .
  then show "result x (received (trace s))" by (simp add: completes_def)
  have whole: "whole_writes t (trace s) []"
  proof (cases "part = []")
    case False
    then obtain m where "m \<in> received (trace s)" "part = attribute_writes m"
      using part(2) by (auto simp: completes_def)
    moreover obtain pubs where "set pubs \<subseteq> received (trace s)"
      "writes_by t (trace s) = concat (map attribute_writes pubs) @ part"
      using part(1) by (auto simp: whole_writes_def)
    ultimately show ?thesis
      unfolding whole_writes_def by (intro exI [of _ "pubs @ [m]"]) simp
  qed (use part in simp)
  have "thread_accounts (s\<lparr>thread := (thread s)(t := None)\<rparr>) t'" for t'
  proof (cases "t' = t")
    case True
    with whole show ?thesis by (auto simp: thread_accounts_def begins_publication_def)
  next
    case False
    have "thread_accounts s t'" using assms(1) by (simp add: accounted_def)
    then show ?thesis by (rule thread_accounts_frame) (use False in simp_all)
  qed
  then show "accounted (s\<lparr>thread := (thread s)(t := None)\<rparr>)"
    using assms(1) by (simp add: accounted_def)
qed

end


text \<open>How one event changes what a thread sees of the snapshot.\<close>

lemma event_own_snap:
  assumes "event_step t e p s v" and "allowed (owner s) t e"
  shows "own_snap v t = cur_after e (own_snap s t) (shared_snap s)"
    and "t' \<noteq> t \<Longrightarrow> own_snap v t' = own_snap s t'"
proof -
  have v: "owner v = pass_mutex (t, e) (owner s)" "shared_snap v = snap_after e (shared_snap s)"
    using assms(1) by (simp_all add: event_step_def)
  show "own_snap v t = cur_after e (own_snap s t) (shared_snap s)"
    by (cases "(e, own_snap s t, shared_snap s)" rule: cur_after.cases) (auto simp: own_snap_def v)
  show "own_snap v t' = own_snap s t'" if "t' \<noteq> t"
  proof -
    have "owner v sSnapshotMutex = Some t' \<longleftrightarrow> owner s sSnapshotMutex = Some t'"
      using assms(2) that unfolding v
      by (cases "((t, e), owner s)" rule: pass_mutex.cases) (auto simp: allowed_def)
    moreover have "shared_snap v = shared_snap s" if "owner s sSnapshotMutex = Some t'"
    proof -
      have "required e \<noteq> Some sSnapshotMutex" using assms(2) \<open>t' \<noteq> t\<close> that by (auto simp: allowed_def)
      then show ?thesis unfolding v(2) by (rule snap_after_required)
    qed
    ultimately show ?thesis by (auto simp: own_snap_def)
  qed
qed

context accounting_entries
begin

lemma event_allowed:
  assumes "reachable code entry s" and "reachable code entry v" and "event_step t e p s v"
  shows "allowed (owner s) t e"
proof -
  have "guarded (trace s @ [(t, e)])" using guarded_trace [OF assms(2)] assms(3) by (simp add: event_step_def)
  moreover have "owner_after (trace s) = owner s" using reachable_ok [OF assms(1)] by (simp add: system_ok_def)
  ultimately show ?thesis by (simp add: guarded_snoc)
qed

lemma accounted_event:
  assumes acc: "accounted s" and re: "reachable code entry s" and rv: "reachable code entry v"
    and th: "thread s t = Some p" and fo: "follows p e p'" and ev: "event_step t e p' s v"
  shows "accounted v"
proof -
  have v: "thread v = (thread s)(t \<mapsto> p')" "trace v = trace s @ [(t, e)]"
    "owner v = pass_mutex (t, e) (owner s)" "shared_snap v = snap_after e (shared_snap s)"
    "\<And>m. e = Did (Lock m) \<Longrightarrow> owner s m = None" "\<And>x. e = SawSnapshot x \<Longrightarrow> x = shared_snap s"
    using ev unfolding event_step_def by blast+
  note al = event_allowed [OF re rv ev]
  note own = event_own_snap [OF ev al]
  obtain part where part: "whole_writes t (trace s) part" "begins_publication (received (trace s)) part"
    "accounts (completes result) p (received (trace s)) (own_snap s t) part"
    using thread_accounts_running [OF acc th] .
  have free: "owner s sSnapshotMutex = None \<Longrightarrow> from_sensor (received (trace s)) (shared_snap s)"
    using acc by (simp add: accounted_def)
  have saw: "own_snap s t = Some x" if "e = SawSnapshot x" for x
    using al v(6) [OF that] that by (simp add: allowed_def own_snap_def)
  have "thread_accounts v t"
  proof -
    have "whole_writes t (trace v) (part @ write_of e)"
      using part(1) by (fastforce simp: whole_writes_def v(2))
    moreover have "begins_publication (received (trace v)) (part @ write_of e)"
      using follows_begins [OF part(3) fo part(2)] by (simp add: v(2))
    moreover have "accounts (completes result) p' (received (trace v)) (own_snap v t) (part @ write_of e)"
      using accounts_follows [OF part(3) fo, of "shared_snap s"] free v(5) saw by (simp add: v(2) own(1))
    ultimately show ?thesis by (auto simp: thread_accounts_def v(1))
  qed
  moreover have "thread_accounts v t'" if "t' \<noteq> t" for t'
  proof -
    have "thread_accounts s t'" using acc by (simp add: accounted_def)
    then show ?thesis by (rule thread_accounts_frame) (use that own(2) in \<open>simp_all add: v\<close>)
  qed
  moreover have "from_sensor (received (trace v)) (shared_snap v)" if none: "owner v sSnapshotMutex = None"
  proof (cases "e = Did (Unlock sSnapshotMutex)")
    case True
    then obtain q where "p = Do (Unlock sSnapshotMutex) q" using fo by (auto elim: follows_E)
    moreover have "own_snap s t = Some (shared_snap s)" using al True by (simp add: allowed_def own_snap_def)
    ultimately show ?thesis using part(3) True by (simp add: v)
  next
    case False
    then have o: "owner s sSnapshotMutex = None"
      using none unfolding v(3) by (cases "((t, e), owner s)" rule: pass_mutex.cases) (auto split: if_splits)
    then have "required e \<noteq> Some sSnapshotMutex" using al by (auto simp: allowed_def)
    then show ?thesis
      using free [OF o] snap_after_required [of e "shared_snap s"] by (auto simp: v intro: from_sensor_mono)
  qed
  ultimately have "(\<forall>t. thread_accounts v t) \<and>
      (owner v sSnapshotMutex = None \<longrightarrow> from_sensor (received (trace v)) (shared_snap v))" by metis
  then show ?thesis by (simp add: accounted_def)
qed

lemma accounted_inside:
  assumes "accounted s" and "reachable code entry s" and "sys_step code (\<lambda>_. False) s v"
  shows "accounted v"
  using assms(3)
proof (cases rule: inside_cases)
  case (returns t x)
  then show ?thesis using accounted_leave(1) [OF assms(1)] by simp
next
  case (event t e p p')
  have "reachable code entry v" using assms(2) inside_entry [OF assms(3)] by (rule reachable.step)
  then show ?thesis using accounted_event [OF assms(1,2)] event by blast
qed

text \<open>The facts a client of the contract uses.\<close>

lemma writes_are_publications:
  assumes "accounted s"
  obtains pubs part where "set pubs \<subseteq> received (trace s)" "begins_publication (received (trace s)) part"
    "writes_by t (trace s) = concat (map attribute_writes pubs) @ part"
    "thread s t = None \<Longrightarrow> part = []"
proof -
  have "thread_accounts s t" using assms by (simp add: accounted_def)
  then obtain part where part: "whole_writes t (trace s) part" "begins_publication (received (trace s)) part"
    "thread s t = None \<Longrightarrow> part = []"
    by (cases "thread s t") (auto simp: thread_accounts_def)
  then show thesis using that by (auto simp: whole_writes_def)
qed

end


section \<open>The entry points account for their values\<close>

text \<open>A call that adds no attribute write and keeps what has been received.\<close>

definition leaves :: "Measurement set \<Rightarrow> attribute_write list \<Rightarrow> 'a \<Rightarrow> Measurement set \<Rightarrow> attribute_write list \<Rightarrow> bool" where
  "leaves G part x G' part' \<longleftrightarrow> G \<subseteq> G' \<and> part' = part"

lemma accounts_weaken:
  "accounts R p G cur part \<Longrightarrow> (\<And>x G' part'. R x G' part' \<Longrightarrow> R' x G' part') \<Longrightarrow> accounts R' p G cur part"
  using accounts_bind [of R p G cur part R' Ret] by simp

lemma accounts_driver:
  "accounts (leaves G part) StartMeasurement G cur part"
  "accounts (leaves G part) IsDataReady G cur part"
  "accounts (leaves G part) Driver_Init G cur part"
  "length out = kSerialChars \<Longrightarrow> accounts (leaves G part) (ReadSerialNumber out) G cur part"
  by (auto simp: driver_defs Let_def buffer_parsers rd_buffer kDataReadyBytes_def kWordSize_def
    CheckWordsCrc_eq leaves_def split: prod.splits)

lemma accounts_ReadMeasurement:
  "accounts (\<lambda>x G' part'. leaves G part x G' part' \<and> (fst x = 0 \<longrightarrow> snd x \<in> G')) (ReadMeasurement out) G cur part"
proof -
  have "decode (payload_words raw) \<in> readings_of (ReadBus kMeasurementBytes 0 raw)"
    if "length raw = kMeasurementBytes" "frame_ok raw" for raw
    using frame_accepted_iff [OF that(1)] that(2) by auto
  then show ?thesis
    by (auto simp: driver_defs Let_def ParseMeasurement_buffer EIO_def leaves_def simp del: readings_of.simps
      split: prod.splits)
qed


lemma accounts_call:
  "accounts (leaves G part) p G cur part \<Longrightarrow> (\<And>x G' cur'. G \<subseteq> G' \<Longrightarrow> accounts R (f x) G' cur' part) \<Longrightarrow>
   accounts R (io_bind p f) G cur part"
  by (rule accounts_bind, assumption) (simp add: leaves_def)

lemma leaves_trans: "G \<subseteq> G' \<Longrightarrow> leaves G' part x H part' \<Longrightarrow> leaves G part x H part'"
  by (auto simp: leaves_def)

lemma accounts_leaves_call:
  assumes "accounts (leaves G part) p G cur part"
    and "\<And>x G' cur'. accounts (leaves G' part) (f x) G' cur' part"
  shows "accounts (leaves G part) (io_bind p f) G cur part"
  by (rule accounts_call [OF assms(1)]) (rule accounts_weaken [OF assms(2)], rule leaves_trans)

lemma accounts_shell: "accounts (leaves G part) (shell_print l) G cur part"
  "accounts (leaves G part) (PrintMeasurement m) G cur part"
proof -
  have "accounts (leaves G part) (foldr (\<lambda>l p. Do (ShellPrint s l) p) ls (Ret ())) G cur part" for ls s cur
    by (induction ls arbitrary: cur) (simp_all add: leaves_def)
  then show "accounts (leaves G part) (PrintMeasurement m) G cur part" by (simp add: PrintMeasurement_lines)
qed (simp add: shell_print_def leaves_def)

lemma accounts_poll_ready: "accounts (leaves G part) (poll_ready i ready) G cur part"
proof (induction i ready arbitrary: G cur rule: poll_ready.induct)
  case (1 i ready)
  show ?case
  proof (cases "i < kDataReadyPollCount \<and> \<not> ready")
    case True
    then show ?thesis
      by (subst poll_ready.simps)
        (simp, rule accounts_leaves_call [OF accounts_driver(2)], use "1.IH" [OF True] in auto)
  next
    case False
    then show ?thesis by (subst poll_ready.simps) (auto simp: leaves_def)
  qed
qed

lemma accounts_CmdSerial:
  "length serial = kSerialChars \<Longrightarrow> accounts (leaves G part) (CmdSerial serial) G cur part"
  by (auto simp: CmdSerial_def driver_defs Let_def buffer_parsers format_chars_def shell_print_def
      EIO_def leaves_def split: prod.splits)

lemma accounts_CmdRead: "accounts (leaves G part) CmdRead G cur part"
proof -
  have read: "accounts (leaves G part) (ReadMeasurement m) G cur part" for G part m cur
    by (rule accounts_weaken [OF accounts_ReadMeasurement]) simp
  show ?thesis
    unfolding CmdRead_def
    by (intro accounts_leaves_call accounts_driver(1) accounts_poll_ready)
      (auto simp: leaves_def accounts_shell intro!: accounts_leaves_call read)
qed

lemma accounts_Service_GetLatest:
  "accounts (\<lambda>x G' part'. leaves G part x G' part' \<and> (fst x \<longrightarrow> measurement (snd x) \<in> G'))
     Service_GetLatest G cur part"
  by (auto simp: Service_GetLatest_def Let_def leaves_def from_sensor_def)

lemma accounts_CmdLatest: "accounts (leaves G part) CmdLatest G cur part"
proof -
  have get: "accounts (leaves G part) Service_GetLatest G cur part" for G part cur
    by (rule accounts_weaken [OF accounts_Service_GetLatest]) simp
  show ?thesis
    unfolding CmdLatest_def
    by (intro accounts_leaves_call get)
      (auto simp: leaves_def accounts_shell intro!: accounts_leaves_call)
qed


text \<open>\<^verbatim>\<open>ApplyLatestMeasurement\<close> performs the writes of one publication in a row.\<close>

definition write_all :: "attribute_write list \<Rightarrow> unit io" where
  "write_all ws = foldr (\<lambda>x p. Do (WriteAttribute x) p) ws (Ret ())"

lemma ApplyLatestMeasurement_eq:
  "ApplyLatestMeasurement =
     io_bind Service_GetLatest (\<lambda>(ok, s). if \<not> ok then Ret () else write_all (attribute_writes (measurement s)))"
proof -
  note valid = is_valid_def [symmetric]
  show ?thesis
    unfolding ApplyLatestMeasurement_def valid
    by (rule arg_cong [where f = "io_bind Service_GetLatest"])
      (auto simp: fun_eq_iff write_all_def attribute_writes_def inputs_of_def Let_def kEndpointId_def
        kTemperatureEndpointId_def)
qed

abbreviation one_publication :: "'a \<Rightarrow> Measurement set \<Rightarrow> attribute_write list \<Rightarrow> bool" where
  "one_publication x G part \<equiv> part = [] \<or> (\<exists>m\<in>G. part = attribute_writes m)"

lemma accounts_write_all:
  "m \<in> G \<Longrightarrow> part @ ws = attribute_writes m \<Longrightarrow> accounts one_publication (write_all ws) G cur part"
proof (induction ws arbitrary: part cur)
  case (Cons x ws)
  have "prefix (part @ [x]) (attribute_writes m)"
    using Cons.prems(2) by (metis append.assoc append_Cons append_Nil prefixI)
  moreover have "accounts one_publication (write_all ws) G cur (part @ [x])"
    using Cons by simp
  ultimately show ?case using Cons.prems(1) by (auto simp: write_all_def)
qed (auto simp: write_all_def)

lemma accounts_Apply: "accounts one_publication ApplyLatestMeasurement G cur []"
  unfolding ApplyLatestMeasurement_eq
  by (rule accounts_bind [OF accounts_Service_GetLatest])
    (auto simp: leaves_def accounts_write_all)

lemma accounts_ClusterInit: "accounts one_publication ClusterInit G cur []"
proof -
  have "accounts (leaves G part) (ask_all qs) G cur part" for qs G cur part
    by (induction qs arbitrary: cur) (auto simp: leaves_def)
  then show ?thesis
    unfolding ClusterInit_ask_all
    by (intro accounts_call) (auto intro!: accounts_bind [OF accounts_Apply])
qed


text \<open>A policy whose latest reading came from the sensor.\<close>

definition good_policy :: "Measurement set \<Rightarrow> Policy \<Rightarrow> bool" where
  "good_policy G p \<longleftrightarrow> usable p \<and> (hasEverBeenValid p \<longrightarrow> latest p \<in> G)"

lemma good_policy_mono: "good_policy G p \<Longrightarrow> G \<subseteq> G' \<Longrightarrow> good_policy G' p"
  by (auto simp: good_policy_def)

lemma good_policy_start: "good_policy G sPolicy_start"
  using usable_default by (simp add: good_policy_def sPolicy_start_def)

lemma good_policy_OnReadResult:
  "good_policy G p \<Longrightarrow> err = 0 \<Longrightarrow> m \<in> G \<Longrightarrow> good_policy G (OnReadResult p err m now)"
  "good_policy G p \<Longrightarrow> err \<noteq> 0 \<Longrightarrow> good_policy G (OnReadResult p err m now)"
  by (simp_all add: good_policy_def usable_OnReadResult)
    (simp_all add: OnReadResult_success OnReadResult_failure)

lemma good_policy_MarkNotified: "good_policy G p \<Longrightarrow> good_policy G (MarkNotified p now)"
  by (simp add: good_policy_def usable_MarkNotified)

lemma from_sensor_snapshot_of: "good_policy G p \<Longrightarrow> from_sensor G (snapshot_of p now)"
  by (simp add: good_policy_def from_sensor_def snapshot_of_def GetLatest_def Snapshot_init_def)

lemma accounts_PublishSnapshot:
  assumes "good_policy G p"
  shows "accounts (leaves G part) (PublishSnapshot p now) G cur part"
proof -
  have all: "s\<lparr>measurement := m, ageMs := a, everValid := b\<rparr> = \<lparr>measurement = m, ageMs = a, everValid = b\<rparr>"
    for s :: Snapshot and m a b by (cases s) simp
  have "from_sensor G' (snapshot_of p now)" if "G \<subseteq> G'" for G'
    by (rule from_sensor_snapshot_of, rule good_policy_mono [OF assms that])
  then show ?thesis
    by (cases "GetLatest p now")
      (auto simp: PublishSnapshot_def snapshot_of_def Snapshot_init_def all leaves_def)
qed

abbreviation leaves_policy :: "attribute_write list \<Rightarrow> Policy \<Rightarrow> Measurement set \<Rightarrow> attribute_write list \<Rightarrow> bool" where
  "leaves_policy part p G part' \<equiv> part' = part \<and> good_policy G p"

lemma accounts_react:
  assumes "good_policy G q"
  shows "accounts (leaves_policy part) (react callback_code q now) G cur part"
proof -
  have u: "usable q" using assms by (simp add: good_policy_def)
  obtain d where d: "NextDelayMs q = Some d" "NextDelayMs (MarkNotified q now) = Some d"
    using sen66_policy.delay_defined [OF u] by (auto simp: sen66_policy.delay_acknowledge)
  have tail: "accounts (leaves_policy part)
      (io_bind (defined (NextDelayMs q')) (\<lambda>delay. Do (WorkSchedule delay) (Ret q'))) G' cur' part"
    if "q' = q \<or> q' = MarkNotified q now" "G \<subseteq> G'" for q' G' cur'
    using that d good_policy_mono [OF assms that(2)] by (auto simp: good_policy_MarkNotified)
  have calls: "accounts R (io_bind (io_bind (callback_code f reading changed) (\<lambda>_. Ret q')) g) G' cur' part"
    if "\<And>cur'. accounts R (g q') G' cur' part" for R f reading changed q' g G' cur'
    using that by (cases f) (simp add: OnMeasurementUpdated_def)
  show ?thesis
    unfolding react_def
    by (rule accounts_call [OF accounts_PublishSnapshot [OF assms]])
      (auto simp: Let_def tail calls split: option.split)
qed

lemma accounts_Tick:
  assumes "good_policy G p"
  shows "accounts (leaves_policy part) (PollWorkHandler callback_code p) G cur part"
proof -
  have acquire: "accounts (\<lambda>x G' part'. leaves G part x G' part' \<and> (fst x = 0 \<longrightarrow> snd x \<in> G')) (acquire p) G cur part"
  proof -
    have read: "accounts (\<lambda>x G'' part'. leaves G part x G'' part' \<and> (fst x = 0 \<longrightarrow> snd x \<in> G''))
        (ReadMeasurement Measurement_init) G' cur' part" if "G \<subseteq> G'" for G' cur'
      by (rule accounts_weaken [OF accounts_ReadMeasurement]) (use that in \<open>auto simp: leaves_def\<close>)
    show ?thesis
      unfolding acquire_def
      by (rule accounts_call [where part = part])
        (simp_all add: read accounts_driver, simp_all add: leaves_def)
  qed
  show ?thesis
    unfolding PollWorkHandler_split
  proof (rule accounts_bind [OF acquire])
    fix x :: "errno \<times> Measurement" and G' cur' part'
    assume x: "leaves G part x G' part' \<and> (fst x = 0 \<longrightarrow> snd x \<in> G')"
    then have "good_policy G' (OnReadResult p (fst x) (snd x) now)" for now
      using good_policy_mono [OF assms] good_policy_OnReadResult [of G' p "fst x"]
      by (cases "fst x = 0") (auto simp: leaves_def)
    with x show "accounts (leaves_policy part)
        ((\<lambda>(err, m). Uptime (\<lambda>now. react callback_code (OnReadResult p err m now) now)) x) G' cur' part'"
      by (auto simp: leaves_def accounts_react split: prod.split)
  qed
qed

lemma accounts_Start: "accounts (leaves_policy part) (Start_Sensor a b) G cur part"
proof -
  have service: "accounts (\<lambda>x G' part'. part' = part \<and> good_policy G' (snd x)) (Service_Init p) G' cur' part"
    if "good_policy G' p" for p G' cur'
    unfolding Service_Init_def
    by (simp, rule accounts_call [OF accounts_driver(1)])
      (auto intro!: good_policy_OnReadResult(2) good_policy_mono [OF that])
  show ?thesis
    unfolding Start_Sensor_def
    by (auto intro!: accounts_call [OF accounts_driver(3)] accounts_bind [OF service] simp: good_policy_start
        split: prod.split)
qed

text \<open>Which entries may begin, and what they return.\<close>

definition entry_ready :: "Measurement set \<Rightarrow> firmware_entry \<Rightarrow> bool" where
  "entry_ready G e \<longleftrightarrow> firmware_entry_ok e \<and> (\<forall>p. e = Tick p \<longrightarrow> good_policy G p)"

definition result_good :: "Policy option \<Rightarrow> Measurement set \<Rightarrow> bool" where
  "result_good x G \<longleftrightarrow> (\<forall>p. x = Some p \<longrightarrow> good_policy G p)"

lemma entry_code_accounts:
  assumes "entry_ready G e"
  shows "accounts (completes result_good) (entry_code e) G None []"
proof -
  have ignore: "accounts (completes result_good) (ignore p) G None []"
    if "accounts one_publication p G None []" for p :: "'a io"
    unfolding ignore_def by (rule accounts_bind [OF that]) (auto simp: completes_def result_good_def)
  have plain: "accounts one_publication p G None []" if "accounts (leaves G []) p G None []" for p :: "'a io"
    by (rule accounts_weaken [OF that]) (simp add: leaves_def)
  have leave: "accounts (completes result_good) (leave_policy p) G None []"
    if "accounts (leaves_policy []) p G None []" for p
    unfolding leave_policy_def by (rule accounts_bind [OF that]) (auto simp: completes_def result_good_def)
  show ?thesis
    using assms
    by (cases e)
      (auto simp: entry_ready_def intro!: leave ignore accounts_Start accounts_Tick accounts_Apply
        accounts_ClusterInit plain accounts_CmdSerial accounts_CmdRead accounts_CmdLatest)
qed

interpretation accounting: accounting_entries entry_code firmware_entry_ok entry_ready result_good
  by unfold_locales (auto simp: entry_code_accounts entry_ready_def result_good_def intro: good_policy_mono)


section \<open>The work item\<close>

text \<open>A program that never makes certain calls: arming the work item, or writing an attribute.\<close>

primrec never :: "(act \<Rightarrow> bool) \<Rightarrow> 'a io \<Rightarrow> bool" where
  "never A (Ret x) \<longleftrightarrow> True"
| "never A Undefined \<longleftrightarrow> True"
| "never A (Do a p) \<longleftrightarrow> \<not> A a \<and> never A p"
| "never A (Ask q k) \<longleftrightarrow> (\<forall>r. never A (k r))"
| "never A (I2cRead n k) \<longleftrightarrow> (\<forall>r. never A (k r))"
| "never A (Uptime k) \<longleftrightarrow> (\<forall>t. never A (k t))"
| "never A (GetSnapshot k) \<longleftrightarrow> (\<forall>s. never A (k s))"
| "never A (GetCallback k) \<longleftrightarrow> (\<forall>c. never A (k c))"

fun arming :: "act \<Rightarrow> bool" where
  "arming (WorkSchedule d) = True"
| "arming _ = False"

fun writing :: "act \<Rightarrow> bool" where
  "writing (WriteAttribute x) = True"
| "writing _ = False"

lemma arming_iff: "arming a \<longleftrightarrow> (\<exists>d. a = WorkSchedule d)"
  by (cases a) auto

lemma writing_iff: "writing a \<longleftrightarrow> (\<exists>x. a = WriteAttribute x)"
  by (cases a) auto

text \<open>Marking the snapshot valid, and scheduling work on the Matter thread.\<close>

fun announcing :: "act \<Rightarrow> bool" where
  "announcing (SetEverValid b) = True"
| "announcing ScheduleWork = True"
| "announcing _ = False"

abbreviation never_schedules :: "'a io \<Rightarrow> bool" where "never_schedules \<equiv> never arming"
abbreviation never_writes :: "'a io \<Rightarrow> bool" where "never_writes \<equiv> never writing"

text \<open>Calls that only the service and the adapter make.\<close>

definition foreign :: "(act \<Rightarrow> bool) \<Rightarrow> bool" where
  "foreign A \<longleftrightarrow> (\<forall>a. A a \<longrightarrow> arming a \<or> writing a \<or> announcing a)"

lemma foreign_simps [simp]:
  assumes "foreign A"
  shows "\<not> A (Lock m)" "\<not> A (Unlock m)" "\<not> A (Msleep n)" "\<not> A (ShellPrint s l)" "\<not> A (SetCallback c)"
    "\<not> A (SetMeasurement x)" "\<not> A (SetAgeMs i)" "\<not> A WorkQueueInit" "\<not> A WorkQueueStart" "\<not> A WorkInit"
  using assms arming.simps writing.simps announcing.simps unfolding foreign_def by meson+

lemma foreign_calls: "foreign arming" "foreign writing" "foreign announcing"
  by (simp_all add: foreign_def)

text \<open>
  A program that hands the policy over: on each path it arms the work item once, as its very
  last call, and returns the policy; when \<open>idle\<close> it may also return without.
\<close>

primrec hands_over :: "bool \<Rightarrow> Policy option io \<Rightarrow> bool" where
  "hands_over idle (Ret x) \<longleftrightarrow> idle"
| "hands_over idle Undefined \<longleftrightarrow> True"
| "hands_over idle (Do a p) \<longleftrightarrow>
     (case a of WorkSchedule d \<Rightarrow> (\<exists>q. p = Ret (Some q)) | _ \<Rightarrow> hands_over idle p)"
| "hands_over idle (Ask q k) \<longleftrightarrow> (\<forall>r. hands_over idle (k r))"
| "hands_over idle (I2cRead n k) \<longleftrightarrow> (\<forall>r. hands_over idle (k r))"
| "hands_over idle (Uptime k) \<longleftrightarrow> (\<forall>t. hands_over idle (k t))"
| "hands_over idle (GetSnapshot k) \<longleftrightarrow> (\<forall>s. hands_over idle (k s))"
| "hands_over idle (GetCallback k) \<longleftrightarrow> (\<forall>c. hands_over idle (k c))"

lemma never_bind [intro]: "never A p \<Longrightarrow> (\<And>x. never A (f x)) \<Longrightarrow> never A (io_bind p f)"
  by (induction p) auto

lemma hands_over_bind:
  "never_schedules p \<Longrightarrow> (\<And>x. hands_over idle (f x)) \<Longrightarrow> hands_over idle (io_bind p f)"
  by (induction p) (auto split: act.split)

lemma follows_never: "follows p e p' \<Longrightarrow> never A p \<Longrightarrow> never A p' \<and> (\<forall>a. e = Did a \<longrightarrow> \<not> A a)"
  by (induction rule: follows.induct) auto

lemma follows_never_schedules:
  "follows p e p' \<Longrightarrow> never_schedules p \<Longrightarrow> never_schedules p' \<and> (\<forall>d. e \<noteq> Did (WorkSchedule d))"
  using follows_never by fastforce

lemma follows_hands_over:
  "follows p e p' \<Longrightarrow> hands_over idle p \<Longrightarrow> \<forall>d. e \<noteq> Did (WorkSchedule d) \<Longrightarrow> hands_over idle p'"
  "follows p (Did (WorkSchedule d)) p' \<Longrightarrow> hands_over idle p \<Longrightarrow> \<exists>q. p' = Ret (Some q)"
  by (auto elim!: follows_E split: act.splits)

lemma never_driver:
  assumes "foreign A"
  shows "never A StartMeasurement" "never A (ReadMeasurement m)" "never A IsDataReady"
    "never A Driver_Init" "never A (ReadSerialNumber buf)" "never A Service_GetLatest"
  using assms
  by (auto simp: driver_defs Service_GetLatest_def defined_def Let_def split: option.split prod.split)

lemma never_PublishSnapshot: "never_schedules (PublishSnapshot p now)" "never_writes (PublishSnapshot p now)"
  by (simp_all add: PublishSnapshot_def split: prod.split)

lemma never_acquire: "foreign A \<Longrightarrow> never A (acquire p)"
  unfolding acquire_def by (intro never_bind) (simp_all add: never_driver)

lemma never_shell: "foreign A \<Longrightarrow> never A (shell_print l)" "foreign A \<Longrightarrow> never A (PrintMeasurement m)"
proof -
  have "foreign A \<Longrightarrow> never A (foldr (\<lambda>l p. Do (ShellPrint s l) p) ls (Ret ()))" for ls s
    by (induction ls) simp_all
  then show "foreign A \<Longrightarrow> never A (PrintMeasurement m)" by (simp add: PrintMeasurement_lines)
qed (simp add: shell_print_def)

lemma never_poll_ready: "foreign A \<Longrightarrow> never A (poll_ready i ready)"
proof (induction i ready rule: poll_ready.induct)
  case (1 i ready)
  then show ?case
    by (subst poll_ready.simps) (auto intro!: never_bind never_driver)
qed

lemma never_commands:
  assumes "foreign A"
  shows "never A (CmdSerial buf)" "never A CmdRead" "never A CmdLatest"
  using assms
  by (auto simp: CmdSerial_def CmdRead_def CmdLatest_def defined_def split: option.split
    intro!: never_bind never_driver never_poll_ready never_shell)

lemma never_ignore: "never A p \<Longrightarrow> never A (ignore p)" "never A q \<Longrightarrow> never A (leave_policy q)"
  unfolding ignore_def leave_policy_def by (rule never_bind, simp_all)+

text \<open>Only the start and the poll work item arm the work item.\<close>

lemma never_Apply:
  assumes "foreign A" and "\<And>x. \<not> A (WriteAttribute x)"
  shows "never A ApplyLatestMeasurement" "never A ClusterInit"
proof -
  have "never A (write_all ws)" for ws using assms(2) by (induction ws) (simp_all add: write_all_def)
  then show writes: "never A ApplyLatestMeasurement"
    unfolding ApplyLatestMeasurement_eq using assms(1) by (intro never_bind never_driver) auto
  have "never A (ask_all qs)" for qs by (induction qs) auto
  then show "never A ClusterInit"
    unfolding ClusterInit_ask_all using assms(1) by (auto intro!: never_bind writes)
qed

lemmas never_schedules_Apply = never_Apply(1) [OF foreign_calls(1), simplified]
  and never_schedules_ClusterInit = never_Apply(2) [OF foreign_calls(1), simplified]

text \<open>Only the adapter writes attributes; the poll work item leaves that to the Matter thread.\<close>

lemma never_writes_Tick: "never_writes (entry_code (Tick p))"
proof -
  have call: "callback_code f reading changed = Do ScheduleWork (Ret ())" for f reading changed
    by (cases f) (simp add: OnMeasurementUpdated_def)
  have "never_writes (react callback_code q now)" for q now
    unfolding react_def
    by (intro never_bind never_PublishSnapshot foreign_calls)
      (auto simp: Let_def call defined_def split: option.split)
  then show ?thesis
    by (auto simp: PollWorkHandler_split intro!: never_ignore never_bind never_acquire foreign_calls)
qed

lemma never_Start:
  assumes "foreign A" and "\<And>d. \<not> A (WorkSchedule d)"
  shows "never A (entry_code (Start a b))"
proof -
  have "never A (Service_Init p)" for p
    unfolding Service_Init_def using assms by (auto intro!: never_bind never_driver)
  then show ?thesis
    unfolding entry_code.simps Start_Sensor_def
    by (auto intro!: never_ignore never_bind never_driver [OF assms(1)])
qed

text \<open>Who arms the work item hands the policy over.\<close>

lemma never_hands_over: "never_schedules p \<Longrightarrow> hands_over True p"
  by (induction p) (auto split: act.split)

lemma hands_over_Start: "hands_over True (entry_code (Start a b))"
proof -
  have "hands_over True (io_bind (Service_Init p) (\<lambda>(_, sPolicy). Ret (Some sPolicy)))" for p
    unfolding Service_Init_def
    by (simp add: io_bind_assoc) (intro hands_over_bind never_driver foreign_calls, auto)
  then have "hands_over True (io_bind (io_bind (Service_Init p) (\<lambda>(_, sPolicy). Ret sPolicy)) (\<lambda>q. Ret (Some q)))" for p
    by (simp add: io_bind_assoc split_def)
  then show ?thesis
    unfolding Start_Sensor_def leave_policy_def entry_code.simps
    by (auto simp: io_bind_assoc if_distrib [of "\<lambda>p. io_bind p _"] split_def
      intro!: hands_over_bind [OF never_driver(4) [OF foreign_calls(1)]])
qed

lemma hands_over_Tick:
  assumes "usable p"
  shows "hands_over False (entry_code (Tick p))"
proof -
  have react: "hands_over False (io_bind (react callback_code q now) (\<lambda>q. Ret (Some q)))" if q: "usable q" for q now
  proof -
    obtain d where d: "NextDelayMs q = Some d" "NextDelayMs (MarkNotified q now) = Some d"
      using sen66_policy.delay_defined [OF q] by (auto simp: sen66_policy.delay_acknowledge)
    have call: "callback_code f reading changed = Do ScheduleWork (Ret ())" for f reading changed
      by (cases f) (simp add: OnMeasurementUpdated_def)
    show ?thesis
      unfolding react_def io_bind_assoc
      by (rule hands_over_bind [OF never_PublishSnapshot(1)])
        (auto simp: d Let_def call split: option.split)
  qed
  have "never_schedules (acquire p)" by (rule never_acquire [OF foreign_calls(1)])
  then show ?thesis
    by (auto simp: leave_policy_def PollWorkHandler_split io_bind_assoc split_def react usable_OnReadResult assms
      intro!: hands_over_bind)
qed


section \<open>The firmware with its schedule\<close>

definition main_thread :: nat where "main_thread = 0"
definition poll_thread :: nat where "poll_thread = 1"
definition matter_thread :: nat where "matter_thread = 2"
definition shell_thread :: nat where "shell_thread = 3"

lemmas thread_ids = main_thread_def poll_thread_def matter_thread_def shell_thread_def

record firmware =
  threads :: "Policy option system"
  work_item :: "Policy option"   \<comment> \<open>the armed work item, with the policy its handler will find\<close>
  matter_queue :: nat            \<comment> \<open>how often \<^verbatim>\<open>ApplyLatestMeasurement\<close> waits on the Matter thread\<close>
  started :: bool                \<comment> \<open>\<^verbatim>\<open>main\<close> has begun to start the sensor\<close>

definition firmware_init :: firmware where
  "firmware_init = \<lparr>threads = system_init, work_item = None, matter_queue = 0, started = False\<rparr>"

definition enter :: "nat \<Rightarrow> firmware_entry \<Rightarrow> Policy option system \<Rightarrow> Policy option system" where
  "enter t e s = s\<lparr>thread := (thread s)(t \<mapsto> entry_code e)\<rparr>"

text \<open>
  What a step leaves in the two queues: arming the work item hands it the policy that the
  thread is about to return, scheduling work adds it to the Matter thread's queue.
\<close>

definition new_events :: "Policy option system \<Rightarrow> Policy option system \<Rightarrow> (nat \<times> event) list" where
  "new_events s v = drop (length (trace s)) (trace v)"

definition work_item_after :: "Policy option system \<Rightarrow> Policy option system \<Rightarrow> Policy option \<Rightarrow> Policy option" where
  "work_item_after s v w =
     (case new_events s v of
        [(t, Did (WorkSchedule d))] \<Rightarrow> (case thread v t of Some (Ret q) \<Rightarrow> q | _ \<Rightarrow> None)
      | _ \<Rightarrow> w)"

definition matter_queue_after :: "Policy option system \<Rightarrow> Policy option system \<Rightarrow> nat \<Rightarrow> nat" where
  "matter_queue_after s v n = (case new_events s v of [(t, Did ScheduleWork)] \<Rightarrow> Suc n | _ \<Rightarrow> n)"

fun shell_command :: "firmware_entry \<Rightarrow> bool" where
  "shell_command (Serial serial) = (length serial = kSerialChars)"
| "shell_command Read = True"
| "shell_command Latest = True"
| "shell_command _ = False"

inductive firmware_step :: "firmware \<Rightarrow> firmware \<Rightarrow> bool" where
  Boot: "thread (threads f) main_thread = None \<Longrightarrow> \<not> started f \<Longrightarrow>
    firmware_step f (f\<lparr>threads := enter main_thread (Start a b) (threads f), started := True\<rparr>)"
| Clusters: "thread (threads f) main_thread = None \<Longrightarrow> started f \<Longrightarrow>
    firmware_step f (f\<lparr>threads := enter main_thread Init_Clusters (threads f)\<rparr>)"
| Poll: "thread (threads f) poll_thread = None \<Longrightarrow> work_item f = Some p \<Longrightarrow>
    firmware_step f (f\<lparr>threads := enter poll_thread (Tick p) (threads f), work_item := None\<rparr>)"
| Matter: "thread (threads f) matter_thread = None \<Longrightarrow> matter_queue f \<noteq> 0 \<Longrightarrow>
    firmware_step f (f\<lparr>threads := enter matter_thread Apply (threads f), matter_queue := matter_queue f - 1\<rparr>)"
| Shell: "thread (threads f) shell_thread = None \<Longrightarrow> shell_command e \<Longrightarrow>
    firmware_step f (f\<lparr>threads := enter shell_thread e (threads f)\<rparr>)"
| Inside: "sys_step entry_code (\<lambda>_. False) (threads f) v \<Longrightarrow>
    firmware_step f (f\<lparr>threads := v, work_item := work_item_after (threads f) v (work_item f),
      matter_queue := matter_queue_after (threads f) v (matter_queue f)\<rparr>)"

inductive firmware_reachable :: "firmware \<Rightarrow> bool" where
  init: "firmware_reachable firmware_init"
| step: "firmware_reachable f \<Longrightarrow> firmware_step f g \<Longrightarrow> firmware_reachable g"

section \<open>The invariant\<close>

definition armed :: "Policy option system \<Rightarrow> bool" where
  "armed s \<longleftrightarrow> (\<exists>t d. (t, Did (WorkSchedule d)) \<in> set (trace s))"

text \<open>Who may still arm the work item: \<^verbatim>\<open>main\<close> before the first time, the poll thread after it.\<close>

definition may_arm :: "firmware \<Rightarrow> nat \<Rightarrow> Policy option io \<Rightarrow> bool" where
  "may_arm f t p \<longleftrightarrow>
     started f \<and>
     (if armed (threads f) then t = poll_thread \<and> work_item f = None \<and> hands_over False p
      else t = main_thread \<and> hands_over True p)"

definition poll_alive :: "firmware \<Rightarrow> bool" where
  "poll_alive f \<longleftrightarrow>
     (\<forall>t p. thread (threads f) t = Some p \<longrightarrow> never_schedules p \<or> may_arm f t p) \<and>
     (if armed (threads f)
      then started f \<and>
        (work_item f \<noteq> None \<or> (\<exists>p. thread (threads f) poll_thread = Some p \<and> hands_over False p))
      else work_item f = None)"

lemma poll_aliveD:
  assumes "poll_alive f"
  shows "thread (threads f) t = Some p \<Longrightarrow> never_schedules p \<or> may_arm f t p"
    and "armed (threads f) \<Longrightarrow> started f"
    and "armed (threads f) \<Longrightarrow> work_item f = None \<Longrightarrow>
      \<exists>p. thread (threads f) poll_thread = Some p \<and> hands_over False p"
    and "\<not> armed (threads f) \<Longrightarrow> work_item f = None"
  using assms by (auto simp: poll_alive_def split: if_splits)

lemma enter_simps [simp]:
  "trace (enter t e s) = trace s" "armed (enter t e s) = armed s"
  "thread (enter t e s) = (thread s)(t \<mapsto> entry_code e)"
  by (simp_all add: enter_def armed_def)

text \<open>An entry that leaves the work item alone.\<close>

lemma poll_alive_enter:
  assumes "poll_alive f" and "thread (threads f) t = None" and "never_schedules (entry_code e)"
  shows "poll_alive (f\<lparr>threads := enter t e (threads f)\<rparr>)"
    and "poll_alive (f\<lparr>threads := enter t e (threads f), matter_queue := n\<rparr>)"
  using assms by (auto simp: poll_alive_def may_arm_def split: if_splits)

lemma poll_alive_boot:
  assumes "poll_alive f" and "thread (threads f) main_thread = None" and "\<not> started f"
  shows "poll_alive (f\<lparr>threads := enter main_thread (Start a b) (threads f), started := True\<rparr>)"
proof -
  have "\<not> armed (threads f)" using assms(1,3) by (auto dest: poll_aliveD(2))
  then show ?thesis
    using assms(1) hands_over_Start [of a b] by (auto simp: poll_alive_def may_arm_def)
qed

lemma poll_alive_poll:
  assumes "poll_alive f" and "work_item f = Some p" and "usable p"
  shows "poll_alive (f\<lparr>threads := enter poll_thread (Tick p) (threads f), work_item := None\<rparr>)"
proof -
  have a: "armed (threads f)" using assms(1,2) by (auto dest: poll_aliveD(4))
  then show ?thesis
    using assms hands_over_Tick [OF assms(3)] by (auto simp: poll_alive_def may_arm_def)
qed


text \<open>A step inside the threads.\<close>

lemma new_events_simps:
  "new_events s (s\<lparr>thread := x\<rparr>) = []"
  "event_step t e p s v \<Longrightarrow> new_events s v = [(t, e)]"
  by (simp_all add: new_events_def event_step_def)

lemma work_item_after_simps:
  "work_item_after s (s\<lparr>thread := x\<rparr>) w = w"
  "event_step t e p s v \<Longrightarrow> \<forall>d. e \<noteq> Did (WorkSchedule d) \<Longrightarrow> work_item_after s v w = w"
  "event_step t (Did (WorkSchedule d)) (Ret q) s v \<Longrightarrow> work_item_after s v w = q"
proof -
  show "work_item_after s (s\<lparr>thread := x\<rparr>) w = w" by (simp add: work_item_after_def new_events_simps)
  show "work_item_after s v w = w" if "event_step t e p s v" "\<forall>d. e \<noteq> Did (WorkSchedule d)"
    using that by (simp add: work_item_after_def new_events_simps split: event.split act.split)
  show "work_item_after s v w = q" if "event_step t (Did (WorkSchedule d)) (Ret q) s v"
  proof -
    have "thread v t = Some (Ret q)" using that by (simp add: event_step_def)
    then show ?thesis by (simp add: work_item_after_def new_events_simps(2) [OF that])
  qed
qed

lemma armed_event:
  "event_step t e p s v \<Longrightarrow> armed v \<longleftrightarrow> armed s \<or> (\<exists>d. e = Did (WorkSchedule d))"
  by (auto simp: armed_def event_step_def)

lemma poll_alive_return:
  assumes "poll_alive f" and "thread (threads f) t = Some (Ret x)"
  shows "poll_alive (f\<lparr>threads := (threads f)\<lparr>thread := (thread (threads f))(t := None)\<rparr>, matter_queue := n\<rparr>)"
  using assms by (auto simp: poll_alive_def may_arm_def armed_def split: if_splits)

lemma poll_alive_event:
  assumes alive: "poll_alive f" and th: "thread (threads f) t = Some p" and fo: "follows p e p'"
    and ev: "event_step t e p' (threads f) v" and no: "\<forall>d. e \<noteq> Did (WorkSchedule d)"
  shows "poll_alive (f\<lparr>threads := v, matter_queue := n\<rparr>)"
proof -
  have thv: "thread v = (thread (threads f))(t \<mapsto> p')" using ev by (simp add: event_step_def)
  have arm: "armed v = armed (threads f)" using armed_event [OF ev] no by simp
  have keeps: "hands_over idle p \<Longrightarrow> hands_over idle p'" for idle
    using follows_hands_over(1) [OF fo _ no] .
  let ?g = "f\<lparr>threads := v, matter_queue := n\<rparr>"
  have may: "may_arm f t' q \<Longrightarrow> may_arm ?g t' q" for t' q by (simp add: may_arm_def arm)
  have "never_schedules q \<or> may_arm ?g t' q" if "thread v t' = Some q" for t' q
  proof (cases "t' = t")
    case True
    have "never_schedules p \<or> may_arm f t p" using poll_aliveD(1) [OF alive th] .
    then have "never_schedules p' \<or> may_arm f t p'"
      using follows_never_schedules [OF fo] keeps by (auto simp: may_arm_def split: if_splits)
    then show ?thesis using that may True by (auto simp: thv)
  next
    case False
    then show ?thesis using that may poll_aliveD(1) [OF alive, of t' q] by (auto simp: thv)
  qed
  moreover have "\<exists>q. thread v poll_thread = Some q \<and> hands_over False q"
    if "armed (threads f)" "work_item f = None"
    using poll_aliveD(3) [OF alive that] keeps th by (cases "poll_thread = t") (auto simp: thv)
  ultimately show ?thesis
    using poll_aliveD(2,4) [OF alive] by (auto simp: poll_alive_def arm)
qed

lemma poll_alive_schedule:
  assumes alive: "poll_alive f"
    and th: "thread (threads f) t = Some p" and fo: "follows p (Did (WorkSchedule d)) p'"
    and ev: "event_step t (Did (WorkSchedule d)) p' (threads f) v"
  obtains q where "p' = Ret (Some q)"
    and "poll_alive (f\<lparr>threads := v, work_item := Some q, matter_queue := n\<rparr>)"
proof -
  have thv: "thread v = (thread (threads f))(t \<mapsto> p')" using ev by (simp add: event_step_def)
  have arm: "armed v" using armed_event [OF ev] by simp
  have sch: "\<not> never_schedules p" using follows_never_schedules [OF fo] by blast
  then have may: "may_arm f t p" using poll_aliveD(1) [OF alive th] by simp
  then obtain q where q: "p' = Ret (Some q)"
    using follows_hands_over(2) [OF fo] by (auto simp: may_arm_def split: if_splits)
  have "never_schedules r" if "thread v t' = Some r" for t' r
  proof (cases "t' = t")
    case False
    then have "never_schedules r \<or> may_arm f t' r" using that poll_aliveD(1) [OF alive] by (simp add: thv)
    with may False show ?thesis by (auto simp: may_arm_def split: if_splits)
  qed (use that q in \<open>auto simp: thv\<close>)
  then have "poll_alive (f\<lparr>threads := v, work_item := Some q, matter_queue := n\<rparr>)"
    using may by (auto simp: poll_alive_def arm may_arm_def)
  with q that show thesis by blast
qed


definition firmware_ok :: "firmware \<Rightarrow> bool" where
  "firmware_ok f \<longleftrightarrow>
     reachable entry_code firmware_entry_ok (threads f) \<and> accounting.accounted (threads f) \<and>
     (\<forall>p. work_item f = Some p \<longrightarrow> good_policy (received (trace (threads f))) p) \<and> poll_alive f"

lemma firmware_ok_init: "firmware_ok firmware_init"
  by (auto simp: firmware_ok_def firmware_init_def accounting.accounted_init poll_alive_def armed_def
      system_init_def intro: reachable.start [unfolded system_init_def])
    (use accounting.accounted_init in \<open>simp add: system_init_def\<close>)

text \<open>Entering a program.\<close>

lemma firmware_ok_enter:
  assumes "firmware_ok f" and "thread (threads f) t = None" and "entry_ready (received (trace (threads f))) e"
  shows "reachable entry_code firmware_entry_ok (enter t e (threads f))"
    and "accounting.accounted (enter t e (threads f))"
proof -
  have "sys_step entry_code firmware_entry_ok (threads f) (enter t e (threads f))"
    unfolding enter_def using assms(2,3) by (intro sys_step.Enter) (simp_all add: entry_ready_def)
  then show "reachable entry_code firmware_entry_ok (enter t e (threads f))"
    using assms(1) by (auto simp: firmware_ok_def intro: reachable.step)
  show "accounting.accounted (enter t e (threads f))"
    unfolding enter_def using assms by (intro accounting.accounted_enter) (simp_all add: firmware_ok_def)
qed

lemma shell_command_entry: "shell_command e \<Longrightarrow> entry_ready G e \<and> never_schedules (entry_code e)"
  by (cases e) (auto simp: entry_ready_def never_ignore never_commands foreign_calls)

lemma good_policy_usable: "good_policy G p \<Longrightarrow> usable p"
  by (simp add: good_policy_def)

text \<open>Steps inside the threads.\<close>

lemma firmware_ok_inside:
  assumes ok: "firmware_ok f" and st: "sys_step entry_code (\<lambda>_. False) (threads f) v"
  shows "firmware_ok (f\<lparr>threads := v, work_item := work_item_after (threads f) v (work_item f), matter_queue := n\<rparr>)"
    (is "firmware_ok ?g")
proof -
  have f: "reachable entry_code firmware_entry_ok (threads f)" "accounting.accounted (threads f)"
    "\<And>p. work_item f = Some p \<Longrightarrow> good_policy (received (trace (threads f))) p" "poll_alive f"
    using ok by (simp_all add: firmware_ok_def)
  have v: "reachable entry_code firmware_entry_ok v" "accounting.accounted v"
    using reachable.step [OF f(1) inside_entry [OF st]] accounting.accounted_inside [OF f(2,1) st] .
  have "poll_alive ?g \<and> (\<forall>p. work_item ?g = Some p \<longrightarrow> good_policy (received (trace v)) p)"
    using st
  proof (cases rule: inside_cases)
    case (returns t x)
    then show ?thesis
      using poll_alive_return [OF f(4) returns(1)] f(3) by (simp add: work_item_after_simps(1))
  next
    case (event t e p p')
    have more: "received (trace (threads f)) \<subseteq> received (trace v)"
      using event(3) by (auto simp: event_step_def)
    show ?thesis
    proof (cases "\<exists>d. e = Did (WorkSchedule d)")
      case False
      then have no: "\<forall>d. e \<noteq> Did (WorkSchedule d)" by blast
      have w: "work_item_after (threads f) v w = w" for w by (rule work_item_after_simps(2) [OF event(3) no])
      show ?thesis
        using poll_alive_event [OF f(4) event no] f(3) good_policy_mono [OF _ more] by (simp add: w)
    next
      case True
      then obtain d where e: "e = Did (WorkSchedule d)" by blast
      obtain q where q: "p' = Ret (Some q)"
        "poll_alive (f\<lparr>threads := v, work_item := Some q, matter_queue := n\<rparr>)"
        using poll_alive_schedule [OF f(4) event [unfolded e]] by blast
      then have "work_item_after (threads f) v (work_item f) = Some q"
        using work_item_after_simps(3) event(3) e by simp
      moreover have "thread v t = Some (Ret (Some q))" using event(3) q(1) by (simp add: event_step_def)
      then have "result_good (Some q) (received (trace v))" by (rule accounting.accounted_leave(2) [OF v(2)])
      ultimately show ?thesis using q(2) by (simp add: result_good_def)
    qed
  qed
  then show ?thesis using v by (simp add: firmware_ok_def)
qed

lemma firmware_ok_step: "firmware_step f g \<Longrightarrow> firmware_ok f \<Longrightarrow> firmware_ok g"
proof (induction rule: firmware_step.induct)
  case (Boot f a b)
  have "entry_ready G (Start a b)" for G by (simp add: entry_ready_def)
  then show ?case
    using firmware_ok_enter [OF Boot.prems Boot.hyps(1)] poll_alive_boot [OF _ Boot.hyps] Boot.prems
    by (simp add: firmware_ok_def)
next
  case (Clusters f)
  have "entry_ready G Init_Clusters" for G by (simp add: entry_ready_def)
  then show ?case
    using firmware_ok_enter [OF Clusters.prems Clusters.hyps(1)] Clusters.prems
      poll_alive_enter(1) [OF _ Clusters.hyps(1), of Init_Clusters]
    by (simp add: firmware_ok_def never_ignore never_schedules_ClusterInit never_schedules_Apply)
next
  case (Poll f p)
  have "good_policy (received (trace (threads f))) p" using Poll by (simp add: firmware_ok_def)
  moreover from this have "entry_ready (received (trace (threads f))) (Tick p)"
    by (simp add: entry_ready_def good_policy_usable)
  ultimately show ?case
    using firmware_ok_enter [OF Poll.prems Poll.hyps(1)] poll_alive_poll [OF _ Poll.hyps(2)] Poll.prems
    by (simp add: firmware_ok_def good_policy_usable)
next
  case (Matter f)
  have "entry_ready G Apply" for G by (simp add: entry_ready_def)
  then show ?case
    using firmware_ok_enter [OF Matter.prems Matter.hyps(1)] Matter.prems
      poll_alive_enter(2) [OF _ Matter.hyps(1), of Apply]
    by (simp add: firmware_ok_def never_ignore never_schedules_ClusterInit never_schedules_Apply)
next
  case (Shell f e)
  then show ?case
    using firmware_ok_enter [OF Shell.prems Shell.hyps(1)] shell_command_entry [OF Shell.hyps(2)]
      poll_alive_enter(1) [OF _ Shell.hyps(1), of e]
    by (simp add: firmware_ok_def)
next
  case (Inside f v)
  then show ?case by (intro firmware_ok_inside)
qed

lemma firmware_reachable_ok: "firmware_reachable f \<Longrightarrow> firmware_ok f"
  by (induction rule: firmware_reachable.induct) (auto intro: firmware_ok_init firmware_ok_step)


text \<open>Certain calls are made only by certain threads.\<close>

definition only_by :: "(act \<Rightarrow> bool) \<Rightarrow> nat set \<Rightarrow> Policy option system \<Rightarrow> bool" where
  "only_by A ts s \<longleftrightarrow>
     (\<forall>t. t \<notin> ts \<longrightarrow> (\<forall>a. (t, Did a) \<in> set (trace s) \<longrightarrow> \<not> A a) \<and>
        (\<forall>p. thread s t = Some p \<longrightarrow> never A p))"

lemma only_by_enter:
  "only_by A ts s \<Longrightarrow> t \<in> ts \<or> never A (entry_code e) \<Longrightarrow> only_by A ts (enter t e s)"
  by (auto simp: only_by_def)

lemma only_by_inside:
  assumes "only_by A ts s" and "sys_step entry_code (\<lambda>_. False) s v"
  shows "only_by A ts v"
  using assms(2)
proof (cases rule: inside_cases)
  case (returns t x)
  then show ?thesis using assms(1) by (simp add: only_by_def)
next
  case (event t e p p')
  have v: "thread v = (thread s)(t \<mapsto> p')" "trace v = trace s @ [(t, e)]"
    using event(3) by (simp_all add: event_step_def)
  have "never A p \<Longrightarrow> never A p' \<and> (\<forall>a. e = Did a \<longrightarrow> \<not> A a)" by (rule follows_never [OF event(2)])
  then show ?thesis using assms(1) event(1) by (auto simp: only_by_def v)
qed

lemma firmware_only_by:
  assumes "firmware_reachable f"
    and "main_thread \<in> ts \<or> (\<forall>a b. never A (entry_code (Start a b))) \<and> never A (entry_code Init_Clusters)"
    and "poll_thread \<in> ts \<or> (\<forall>p. never A (entry_code (Tick p)))"
    and "matter_thread \<in> ts \<or> never A (entry_code Apply)"
    and "\<forall>e. shell_command e \<longrightarrow> never A (entry_code e)"
  shows "only_by A ts (threads f)"
  using assms(1)
proof (induction rule: firmware_reachable.induct)
  case init
  then show ?case by (simp add: only_by_def firmware_init_def system_init_def)
next
  case (step f g)
  from step(2,3) show ?case
    by (induction rule: firmware_step.induct)
      (use assms(2-) in \<open>auto intro!: only_by_enter intro: only_by_inside simp del: entry_code.simps\<close>)
qed

text \<open>Attributes are written by \<^verbatim>\<open>main\<close>, inside the cluster initialisation, and by the Matter thread.\<close>

lemma firmware_writers:
  assumes "firmware_reachable f" and "t \<noteq> main_thread" and "t \<noteq> matter_thread"
  shows "writes_by t (trace (threads f)) = []"
proof -
  have "never_writes (entry_code e)" if "shell_command e" for e
    using that by (cases e) (simp_all add: never_ignore never_commands foreign_calls)
  then have "only_by writing {main_thread, matter_thread} (threads f)"
    by (intro firmware_only_by [OF assms(1)]) (simp_all add: never_writes_Tick del: entry_code.simps)
  then have "(t, Did (WriteAttribute x)) \<notin> set (trace (threads f))" for x
    using assms(2,3) by (auto simp: only_by_def writing_iff)
  moreover have "writes_by t tr = []" if "\<And>x. (t, Did (WriteAttribute x)) \<notin> set tr" for tr
  proof -
    have "write_of e = []" if "(t, e) \<in> set tr" for e
      using that \<open>\<And>x. (t, Did (WriteAttribute x)) \<notin> set tr\<close> by (cases e rule: write_of.cases) auto
    then show ?thesis by (auto simp: writes_by_def)
  qed
  ultimately show ?thesis by blast
qed

text \<open>Only the poll thread publishes snapshots and schedules work on the Matter thread.\<close>

abbreviation never_announces :: "'a io \<Rightarrow> bool" where "never_announces \<equiv> never announcing"

lemma never_announces_entries:
  "never_announces (entry_code (Start a b))" "never_announces (entry_code Init_Clusters)"
  "never_announces (entry_code Apply)" "shell_command e \<Longrightarrow> never_announces (entry_code e)"
proof -
  show "never_announces (entry_code (Start a b))" by (rule never_Start [OF foreign_calls(3)]) simp
  show "never_announces (entry_code Init_Clusters)" "never_announces (entry_code Apply)"
    by (simp_all add: never_ignore never_Apply foreign_calls)
  show "never_announces (entry_code e)" if "shell_command e"
    using that by (cases e) (simp_all add: never_ignore never_commands foreign_calls)
qed

lemma firmware_publisher:
  assumes "firmware_reachable f" and "(t, Did (SetEverValid b)) \<in> set (trace (threads f))"
  shows "t = poll_thread"
proof -
  have "only_by announcing {poll_thread} (threads f)"
    by (rule firmware_only_by [OF assms(1)]) (simp_all add: never_announces_entries del: entry_code.simps)
  then show ?thesis using assms(2) by (force simp: only_by_def)
qed

section \<open>What the attributes show\<close>

text \<open>The attributes as the writes of a trace leave them.\<close>

definition show_write :: "attribute_write \<Rightarrow> (attribute \<rightharpoonup> attribute_value) \<Rightarrow> (attribute \<rightharpoonup> attribute_value)" where
  "show_write x s = s(fst (written x) \<mapsto> snd (written x))"

lemma shown_writes: "shown es = fold show_write (concat (map write_of es)) Map.empty"
proof -
  have "show_event e s = fold show_write (write_of e) s" for e s
    by (cases "(e, s)" rule: show_event.cases) (simp_all add: show_write_def)
  then have "fold show_event es s = fold show_write (concat (map write_of es)) s" for s
    by (induction es arbitrary: s) simp_all
  then show ?thesis by (simp add: shown_def)
qed

lemma fold_show_write: "fold show_write xs s a = Some v \<Longrightarrow> s a = Some v \<or> (\<exists>x\<in>set xs. written x = (a, v))"
proof (induction xs arbitrary: s)
  case (Cons x xs)
  then have "show_write x s a = Some v \<or> (\<exists>y\<in>set xs. written y = (a, v))" by simp
  then show ?case by (cases "written x") (auto simp: show_write_def split: if_splits)
qed simp

lemma written_published:
  "x \<in> set (attribute_writes m) \<Longrightarrow> published m (fst (written x)) = Some (snd (written x))"
  unfolding attribute_writes_def published_def Let_def
  by (cases "is_valid m kFieldTemperature"; cases "is_valid m kFieldHumidity"; simp; elim disjE; simp)

lemma writes_by_Cons: "writes_by t (x # tr) = (if fst x = t then write_of (snd x) else []) @ writes_by t tr"
  by (auto simp: writes_by_def split: prod.split)

lemma all_writes_by: "x \<in> set (concat (map write_of (map snd tr))) \<Longrightarrow> \<exists>t. x \<in> set (writes_by t tr)"
  by (induction tr) (auto simp: writes_by_Cons)

lemma only_writer:
  "(\<And>t'. t' \<noteq> t \<Longrightarrow> writes_by t' tr = []) \<Longrightarrow> concat (map write_of (map snd tr)) = writes_by t tr"
proof (induction tr)
  case (Cons x tr)
  then have "t' \<noteq> t \<Longrightarrow> writes_by t' tr = [] \<and> (fst x = t' \<longrightarrow> write_of (snd x) = [])" for t'
    using Cons.prems [of t'] by (cases "fst x = t'") (simp_all add: writes_by_Cons)
  with Cons.IH show ?case by (auto simp: writes_by_Cons)
qed simp

lemma show_publications:
  "fold show_write (concat (map attribute_writes pubs)) s = (if pubs = [] then s else s ++ published (last pubs))"
proof -
  have "fold show_write (attribute_writes m) s = s ++ published m" for m s
    by (simp add: attribute_writes_def published_def Let_def show_write_def)
  then show ?thesis by (induction pubs rule: rev_induct) (simp_all flip: map_add_assoc)
qed

end
