(* ===== verification/Accessory.thy ===== *)
theory Accessory
  imports App_Task
begin

text \<open>
  The accessory after its start: the poll work item, the initialisation of the clusters inside
  \<^verbatim>\<open>StartServer\<close>, the work scheduled on the Matter thread and the shell commands, taken as whole
  steps in any order.  Its reachable states keep the published attributes within the change thresholds of
  the latest reading.
\<close>

section \<open>What the parts leave alone\<close>

lemma shown_events: "list_all (\<lambda>e. \<forall>x. e \<noteq> Did (WriteAttribute x)) es \<Longrightarrow> shown (h @ es) = shown h"
proof -
  assume "list_all (\<lambda>e. \<forall>x. e \<noteq> Did (WriteAttribute x)) es"
  then have "fold show_event es s = s" for s
  proof (induction es arbitrary: s)
    case (Cons e es)
    then have "show_event e s = s" by (cases "(e, s)" rule: show_event.cases) auto
    with Cons show ?case by simp
  qed simp
  then show ?thesis by (simp add: shown_append)
qed

text \<open>A tick writes no attribute itself.\<close>

lemma shown_tick:
  assumes "usable p"
  shows "shown (history (snd (run E (PollWorkHandler callback_code p) w))) = shown (history w)"
proof -
  have "shown (history (exchange E v cmd n)) = shown (history v)" for v cmd n
    unfolding exchange_def by (simp add: shown_events)
  then have read: "shown (history (after_read E p w)) = shown (history w)"
    by (simp add: after_read_def run_acquire run_ReadMeasurement run_StartMeasurement Let_def shown_events)
  have "list_all (\<lambda>e. \<forall>x. e \<noteq> Did (WriteAttribute x)) (poll.notification cb)" for cb
    by (simp add: poll.notification_def split: option.split)
  then show ?thesis
    by (simp add: poll.run_PollWorkHandler [OF assms] shown_events publication_def read)
qed

lemma run_tick:
  assumes "usable p"
  shows "\<exists>v. run E (PollWorkHandler callback_code p) w = (Some (ticked E p w), v) \<and>
    snap v = snapshot_of (fed E p w) (tick_time E p w) \<and> shown (history v) = shown (history w)"
  using shown_tick [OF assms, of E w] by (simp add: poll.run_PollWorkHandler [OF assms])

text \<open>A failed reading leaves the service's snapshot as it was, but for its age.\<close>

lemma snapshot_of_failed:
  assumes "fst (outcome E p w) \<noteq> 0"
  shows "snapshot_of (ticked E p w) now = snapshot_of p now"
  using assms by (simp add: snapshot_of_ticked)
    (simp add: snapshot_of_def fed_def GetLatest_def OnReadResult_failure)

text \<open>
  A program that sets neither the snapshot nor the callback and writes no attribute, whatever
  its calls answer.
\<close>

fun inert :: "act \<Rightarrow> bool" where
  "inert (SetMeasurement _) = False"
| "inert (SetAgeMs _) = False"
| "inert (SetEverValid _) = False"
| "inert (SetCallback _) = False"
| "inert (WriteAttribute _) = False"
| "inert _ = True"

primrec hands_off :: "'a io \<Rightarrow> bool" where
  "hands_off (Ret x) \<longleftrightarrow> True"
| "hands_off Undefined \<longleftrightarrow> True"
| "hands_off (Do a p) \<longleftrightarrow> inert a \<and> hands_off p"
| "hands_off (Ask q k) \<longleftrightarrow> (\<forall>r. hands_off (k r))"
| "hands_off (I2cRead n k) \<longleftrightarrow> (\<forall>r. hands_off (k r))"
| "hands_off (Uptime k) \<longleftrightarrow> (\<forall>t. hands_off (k t))"
| "hands_off (GetSnapshot k) \<longleftrightarrow> (\<forall>s. hands_off (k s))"
| "hands_off (GetCallback k) \<longleftrightarrow> (\<forall>c. hands_off (k c))"

lemma hands_off_bind [intro]: "hands_off p \<Longrightarrow> (\<And>x. hands_off (f x)) \<Longrightarrow> hands_off (io_bind p f)"
  by (induction p) auto

lemma shown_snoc: "(\<And>x. e \<noteq> Did (WriteAttribute x)) \<Longrightarrow> shown (h @ [e]) = shown h"
  by (rule shown_events) simp

lemma inert_effects:
  assumes "inert a"
  shows "snap_effect a s = s" "callback_effect a c = c" "shown (h @ [Did a]) = shown h"
  using assms by (cases a; simp add: shown_snoc)+

lemma hands_off_run:
  assumes "hands_off p"
  shows "snap (snd (run E p w)) = snap w \<and> callback (snd (run E p w)) = callback w \<and>
    shown (history (snd (run E p w))) = shown (history w)"
  using assms
  by (induction p arbitrary: w) (simp_all add: Let_def shown_snoc inert_effects del: split_paired_All)

lemma hands_off_driver: "hands_off StartMeasurement" "hands_off (ReadMeasurement m)" "hands_off IsDataReady"
  "hands_off (ReadSerialNumber buf)"
  by (auto simp: StartMeasurement_def ReadMeasurement_def IsDataReady_def ReadSerialNumber_def
      BusLock_def SendCommand_def ReadBytes_def defined_def Let_def split: option.split prod.split)

lemma hands_off_print: "hands_off (PrintMeasurement m)"
  by (auto simp: PrintMeasurement_def PrintNa_def PrintUnsignedTenth_def PrintSignedFixed_def
      shell_print_def Let_def)

lemma hands_off_poll_ready: "hands_off (poll_ready i ready)"
proof (induction i ready rule: poll_ready.induct)
  case (1 i ready)
  then show ?case
    by (subst poll_ready.simps) (auto intro!: hands_off_bind hands_off_driver)
qed

lemma hands_off_sen66_cmds: "(name, help, cmd) \<in> set (sen66_cmds app_service serial) \<Longrightarrow> hands_off cmd"
  by (auto simp: sen66_cmds_def CmdSerial_def CmdRead_def CmdLatest_def Service_GetLatest_def defined_def
      shell_print_def Let_def split: if_splits option.split
      intro!: hands_off_bind hands_off_driver hands_off_poll_ready hands_off_print)

section \<open>The accessory as a transition system\<close>

record accessory =
  policy :: Policy          \<comment> \<open>\<^verbatim>\<open>sPolicy\<close>, between two ticks\<close>
  device :: world           \<comment> \<open>the shared variables and what has happened\<close>
  scheduled_work :: bool    \<comment> \<open>\<^verbatim>\<open>ApplyLatestMeasurement\<close> waits for the Matter thread\<close>

definition schedules_work :: "world \<Rightarrow> world \<Rightarrow> bool" where
  "schedules_work w w' \<longleftrightarrow> Did ScheduleWork \<in> set (drop (length (history w)) (history w'))"

text \<open>
  A step is one run of the poll work item, of \<^verbatim>\<open>ClusterInit\<close> (which may come at any time
  and may fail), of the scheduled work, or of a shell command.
\<close>

inductive accessory_step :: "env \<Rightarrow> accessory \<Rightarrow> accessory \<Rightarrow> bool" for E where
  poll: "run E (PollWorkHandler callback_code (policy a)) (device a) = (Some q, w) \<Longrightarrow>
    accessory_step E a
      \<lparr>policy = q, device = w, scheduled_work = (scheduled_work a \<or> schedules_work (device a) w)\<rparr>"
| cluster_init: "run E ClusterInit (device a) = (Some ok, w) \<Longrightarrow>
    accessory_step E a (a\<lparr>device := w\<rparr>)"
| work: "scheduled_work a \<Longrightarrow> run E ApplyLatestMeasurement (device a) = (Some (), w) \<Longrightarrow>
    accessory_step E a (a\<lparr>device := w, scheduled_work := False\<rparr>)"
| shell: "(name, help, cmd) \<in> set (sen66_cmds True serial) \<Longrightarrow> length serial = kSerialChars \<Longrightarrow>
    run E cmd (device a) = (Some err, w) \<Longrightarrow> accessory_step E a (a\<lparr>device := w\<rparr>)"

text \<open>The start: the driver has found its bus and the service has been initialised.\<close>

inductive accessory_reachable :: "env \<Rightarrow> accessory \<Rightarrow> bool" for E where
  start: "run E Driver_Init world_init = (Some True, v) \<Longrightarrow>
    run E (Service_Init sPolicy_start) v = (Some (True, p), w) \<Longrightarrow>
    accessory_reachable E \<lparr>policy = p, device = w, scheduled_work = False\<rparr>"
| step: "accessory_reachable E a \<Longrightarrow> accessory_step E a b \<Longrightarrow> accessory_reachable E b"

section \<open>Readings that count as the same\<close>

text \<open>No channel of \<open>m\<close> would be reported against \<open>n\<close>.\<close>

definition close_to :: "Measurement \<Rightarrow> Measurement \<Rightarrow> bool" where
  "close_to n m \<longleftrightarrow> (\<forall>f. \<not> reported ChangeThresholds_default n m f)"

lemma thresholds_positive: "0 < uint (channel_threshold f ChangeThresholds_default)"
  by (cases f) (simp_all add: ChangeThresholds_default_def)

lemma close_to_refl [simp]: "close_to m m"
  using thresholds_positive by (auto simp: close_to_def reported_def moved_def channel_delta_def not_le)

text \<open>Two readings close to the same one differ by less than twice the threshold.\<close>

lemma channel_delta_triangle: "channel_delta f m k \<le> channel_delta f n m + channel_delta f n k"
  by (auto simp: channel_delta_def)

lemma close_to_common:
  assumes "close_to n m" and "close_to n k"
  shows "is_valid m f = is_valid k f"
    and "is_valid k f \<Longrightarrow> channel_delta f m k < 2 * uint (channel_threshold f ChangeThresholds_default)"
proof -
  show same: "is_valid m f = is_valid k f"
    using assms unfolding close_to_def reported_def by blast
  assume "is_valid k f"
  with same assms have "channel_delta f n m < uint (channel_threshold f ChangeThresholds_default)"
    "channel_delta f n k < uint (channel_threshold f ChangeThresholds_default)"
    by (auto simp: close_to_def reported_def moved_def not_le)
  then show "channel_delta f m k < 2 * uint (channel_threshold f ChangeThresholds_default)"
    using channel_delta_triangle [of f m k n] by simp
qed

section \<open>The policy between two ticks\<close>

text \<open>
  The latest reading is close to the last notified one, and while it has a valid channel it is
  younger than the notification by less than the notify interval.
\<close>

definition settled :: "Policy \<Rightarrow> bool" where
  "settled p \<longleftrightarrow> usable p \<and> config p = PolicyConfig_default \<and> well_masked (latest p) \<and>
     well_masked (lastNotified p) \<and> close_to (lastNotified p) (latest p) \<and>
     (valid (latest p) \<noteq> 0 \<longrightarrow> lastUpdateMs p - lastNotifyMs p < uint (notifyIntervalMs PolicyConfig_default))"

lemma default_config_simps [simp]:
  "thresholds PolicyConfig_default = ChangeThresholds_default"
  "0 < uint (notifyIntervalMs PolicyConfig_default)"
  by (simp_all add: PolicyConfig_default_def)

lemma settled_start: "settled sPolicy_start"
  using usable_default by (simp add: settled_def sPolicy_start_def)

lemma settled_failure:
  "settled p \<Longrightarrow> err \<noteq> 0 \<Longrightarrow> settled (OnReadResult p err m now)"
  by (simp add: settled_def usable_OnReadResult) (simp add: OnReadResult_failure)

lemma not_due_close:
  assumes "well_masked m" and "settled p" and "\<not> notify_due p m now"
  shows "close_to (lastNotified p) m"
    and "valid m \<noteq> 0 \<Longrightarrow> now - lastNotifyMs p < uint (notifyIntervalMs PolicyConfig_default)"
proof -
  have masks: "well_masked (lastNotified p)" "config p = PolicyConfig_default"
    using assms(2) by (simp_all add: settled_def)
  show "close_to (lastNotified p) m"
  proof (cases "valid m \<noteq> 0 \<or> valid (lastNotified p) \<noteq> 0")
    case True
    then have "notify_mask ChangeThresholds_default (lastNotified p) m = 0"
      using assms(3) by (simp add: notify_due_def masks)
    then show ?thesis
      using notify_mask_0_iff [OF masks(1) assms(1)] by (simp add: close_to_def)
  next
    case False
    then show ?thesis by (simp add: close_to_def reported_def moved_def is_valid_iff)
  qed
  show "now - lastNotifyMs p < uint (notifyIntervalMs PolicyConfig_default)" if "valid m \<noteq> 0"
    using assms(3) that by (simp add: notify_due_def interval_elapsed_def masks)
qed

lemma ticked_cases:
  assumes "settled p"
  shows "settled (ticked E p w)"
    and "ShouldNotify (fed E p w) \<or> lastNotified (ticked E p w) = lastNotified p \<and>
      hasEverBeenValid (ticked E p w) = hasEverBeenValid p"
proof -
  have u: "usable p" and cfg: "config p = PolicyConfig_default" using assms by (simp_all add: settled_def)
  let ?now = "tick_time E p w"
  have "settled (ticked E p w) \<and> (ShouldNotify (fed E p w) \<or> lastNotified (ticked E p w) = lastNotified p \<and>
      hasEverBeenValid (ticked E p w) = hasEverBeenValid p)"
  proof (rule outcome_cases [of E p w])
    fix ws assume o: "outcome E p w = (0, decode ws)"
    have fed: "fed E p w = OnReadResult p 0 (decode ws) ?now" by (simp add: fed_def o)
    show ?thesis
    proof (cases "notify_due p (decode ws) ?now")
      case True
      then have "ticked E p w = MarkNotified (fed E p w) ?now" "ShouldNotify (fed E p w)"
        by (simp_all add: ticked_def fed ShouldNotify_def OnReadResult_success)
      moreover have "latest (fed E p w) = decode ws" "lastUpdateMs (fed E p w) = ?now"
        by (simp_all add: fed OnReadResult_success)
      ultimately show ?thesis
        using usable_ticked [OF u, of E w] cfg by (simp add: settled_def fed)
    next
      case False
      note close = not_due_close [OF well_masked_decode assms False]
      have t: "ticked E p w = fed E p w" "\<not> ShouldNotify (fed E p w)"
        using False by (simp_all add: ticked_def fed ShouldNotify_def OnReadResult_success)
      have old: "valid (decode ws) = 0 \<or> hasEverBeenValid p"
      proof (rule ccontr)
        assume "\<not> (valid (decode ws) = 0 \<or> hasEverBeenValid p)"
        moreover from this have "valid (lastNotified p) = 0" using u by (simp add: usable_def policy_inv_def)
        ultimately show False using False by (simp add: notify_due_def notify_mask_first)
      qed
      then show ?thesis
        using usable_ticked [OF u, of E w] cfg assms close unfolding t
        by (auto simp: settled_def fed OnReadResult_success)
    qed
  next
    fix err assume "outcome E p w = (err, Measurement_init)" "err \<noteq> 0"
    then have "fed E p w = OnReadResult p err Measurement_init ?now" "err \<noteq> 0" by (simp_all add: fed_def)
    moreover from this have "\<not> ShouldNotify (fed E p w)" by (simp add: ShouldNotify_def OnReadResult_failure)
    ultimately show ?thesis
      using settled_failure [OF assms, of err Measurement_init ?now] by (simp add: ticked_def OnReadResult_failure)
  qed
  then show "settled (ticked E p w)"
    and "ShouldNotify (fed E p w) \<or> lastNotified (ticked E p w) = lastNotified p \<and>
      hasEverBeenValid (ticked E p w) = hasEverBeenValid p" by blast+
qed

section \<open>The invariant\<close>

definition snap_matches :: "Policy \<Rightarrow> Snapshot \<Rightarrow> bool" where
  "snap_matches p s \<longleftrightarrow>
     everValid s = hasEverBeenValid p \<and> (hasEverBeenValid p \<longrightarrow> measurement s = latest p)"

lemma snap_matches_snapshot_of: "snap_matches p (snapshot_of p now)"
  by (simp add: snap_matches_def snapshot_of_def GetLatest_def Snapshot_init_def)

text \<open>
  The attributes show nothing or one reading; once the callback is registered, some reading
  has been valid and no work is waiting, they show one that is close to the last notified.
\<close>

definition tracking :: "accessory \<Rightarrow> bool" where
  "tracking a \<longleftrightarrow>
     settled (policy a) \<and> snap_matches (policy a) (snap (device a)) \<and>
     (shown (history (device a)) = Map.empty \<or> (\<exists>m. shown (history (device a)) = published m)) \<and>
     (scheduled_work a \<longrightarrow> callback (device a) \<noteq> None \<and> hasEverBeenValid (policy a)) \<and>
     (callback (device a) \<noteq> None \<and> \<not> scheduled_work a \<and> hasEverBeenValid (policy a) \<longrightarrow>
        (\<exists>m. shown (history (device a)) = published m \<and> close_to (lastNotified (policy a)) m))"

text \<open>One tick, seen from outside.\<close>

lemma run_tick_work:
  assumes "usable p"
  shows "\<exists>v. run E (PollWorkHandler callback_code p) w = (Some (ticked E p w), v) \<and>
    snap v = snapshot_of (ticked E p w) (tick_time E p w) \<and> callback v = callback w \<and>
    shown (history v) = shown (history w) \<and>
    (schedules_work w v \<longleftrightarrow> ShouldNotify (fed E p w) \<and> callback w \<noteq> None)"
proof -
  obtain es where "history (after_read E p w) = history w @ es" "Did ScheduleWork \<notin> set es"
    using after_read_history by blast
  then show ?thesis
    using shown_tick [OF assms, of E w]
    by (simp add: poll.run_PollWorkHandler [OF assms] snapshot_of_ticked schedules_work_def
        publication_def poll.notification_def split: option.split)
qed

lemma tracking_poll:
  assumes "tracking a" and "run E (PollWorkHandler callback_code (policy a)) (device a) = (Some q, w)"
  shows "tracking \<lparr>policy = q, device = w, scheduled_work = (scheduled_work a \<or> schedules_work (device a) w)\<rparr>"
proof -
  let ?p = "policy a" and ?w = "device a"
  have s: "settled ?p" using assms(1) by (simp add: tracking_def)
  then have \<open>usable ?p\<close> by (simp add: settled_def)
  from run_tick_work [OF this, of E ?w] assms(2)
  have q: "q = ticked E ?p ?w" and w: "snap w = snapshot_of q (tick_time E ?p ?w)" "callback w = callback ?w"
    "shown (history w) = shown (history ?w)"
    "schedules_work ?w w \<longleftrightarrow> ShouldNotify (fed E ?p ?w) \<and> callback ?w \<noteq> None" by auto
  have "settled q" "snap_matches q (snap w)"
    using ticked_cases(1) [OF s] by (simp_all add: q w(1) snap_matches_snapshot_of)
  moreover have "hasEverBeenValid q" if "ShouldNotify (fed E ?p ?w)"
    using that usable_fed [OF \<open>usable ?p\<close>, of E ?w]
    by (simp add: q ticked_def usable_def policy_inv_def ShouldNotify_def)
  ultimately show ?thesis
    using assms(1) ticked_cases(2) [OF s, of E ?w] unfolding q [symmetric] by (auto simp: tracking_def w(2-4))
qed

lemma tracking_apply:
  assumes "tracking a" and "s \<longrightarrow> scheduled_work a"
    and "snap w = snap (device a)"
    and "shown (history w) = (if everValid (snap (device a))
       then shown (history (device a)) ++ published (measurement (snap (device a))) else shown (history (device a)))"
    and "callback w = None \<longrightarrow> callback (device a) = None"
  shows "tracking (a\<lparr>device := w, scheduled_work := s\<rparr>)"
proof -
  let ?p = "policy a"
  have p: "settled ?p" "snap_matches ?p (snap w)" "close_to (lastNotified ?p) (latest ?p)"
    using assms(1,3) by (simp_all add: tracking_def settled_def)
  have s: "s \<longrightarrow> callback w \<noteq> None \<and> hasEverBeenValid ?p"
    using assms(1,2,5) by (auto simp: tracking_def)
  show ?thesis
  proof (cases "hasEverBeenValid ?p")
    case True
    then have "shown (history w) = published (latest ?p)"
      using assms(1,3,4) by (auto simp: tracking_def snap_matches_def)
    with p s show ?thesis by (auto simp: tracking_def)
  next
    case False
    then have "shown (history w) = shown (history (device a))"
      using assms(1,4) by (auto simp: tracking_def snap_matches_def)
    with p s assms(1) False show ?thesis by (auto simp: tracking_def)
  qed
qed

lemma run_ClusterInit:
  assumes "run E ClusterInit w = (Some ok, w')"
  shows "snap w' = snap w"
    and "ok \<Longrightarrow> callback w' = Some OnMeasurementUpdated_fn \<and>
      shown (history w') = (if everValid (snap w) then shown (history w) ++ published (measurement (snap w))
                            else shown (history w))"
    and "\<not> ok \<Longrightarrow> callback w' = callback w \<and> shown (history w') = shown (history w)"
proof -
  obtain rs b where r: "run E (ask_all cluster_inits) w =
      (Some b, w\<lparr>history := history w @ map2 Asked cluster_inits rs\<rparr>)"
    using run_ask_all [of E cluster_inits w] by blast
  let ?v = "w\<lparr>history := history w @ map2 Asked cluster_inits rs\<rparr>"
  let ?u = "perform (SetCallback (Some OnMeasurementUpdated_fn)) ?v"
  have v: "shown (history ?v) = shown (history w)" by (simp add: shown_append fold_asked)
  have u: "shown (history ?u) = shown (history w)"
    unfolding perform_simps(3) v [symmetric] by (rule shown_snoc) simp
  have "ok = b" "w' = (if b then snd (run E ApplyLatestMeasurement ?u) else ?v)"
    using assms r by (auto simp: ClusterInit_ask_all run_bind run_ApplyLatestMeasurement split: if_splits)
  then show "snap w' = snap w"
    and "ok \<Longrightarrow> callback w' = Some OnMeasurementUpdated_fn \<and>
      shown (history w') = (if everValid (snap w) then shown (history w) ++ published (measurement (snap w))
                            else shown (history w))"
    and "\<not> ok \<Longrightarrow> callback w' = callback w \<and> shown (history w') = shown (history w)"
    using v u shown_ApplyLatestMeasurement [of E ?u] by (simp_all add: run_ApplyLatestMeasurement)
qed

lemma tracking_step: "accessory_step E a b \<Longrightarrow> tracking a \<Longrightarrow> tracking b"
proof (induction rule: accessory_step.induct)
  case (poll a q w)
  then show ?case by (intro tracking_poll)
next
  case (cluster_init a ok w)
  have frame: "tracking (a\<lparr>device := w, scheduled_work := scheduled_work a\<rparr>)"
  proof (cases ok)
    case True
    have "callback w \<noteq> None" using run_ClusterInit(2) [OF cluster_init(1)] True by simp
    then show ?thesis
      using run_ClusterInit [OF cluster_init(1)] True cluster_init(2)
      by (intro tracking_apply) (auto simp: tracking_def)
  next
    case False
    then show ?thesis
      using run_ClusterInit [OF cluster_init(1)] cluster_init(2) by (simp add: tracking_def)
  qed
  then show ?case by simp
next
  case (work a w)
  have "callback (device a) \<noteq> None" using work by (auto simp: tracking_def)
  moreover have "w = snd (run E ApplyLatestMeasurement (device a))" using work(2) by simp
  ultimately show ?case
    using work(3) shown_ApplyLatestMeasurement [of E "device a"]
    by (intro tracking_apply) (simp_all add: run_ApplyLatestMeasurement)
next
  case (shell name descr cmd serial a err w)
  then show ?case
    using hands_off_run [OF hands_off_sen66_cmds [OF shell(1)], of E "device a"] by (simp add: tracking_def)
qed

lemma shown_start:
  assumes "run E Driver_Init world_init = (Some ok, v)" and "run E (Service_Init sPolicy_start) v = (Some r, w)"
  shows "snap w = Snapshot_init" "callback w = None" "shown (history w) = Map.empty"
proof -
  have "hands_off Driver_Init" by (simp add: Driver_Init_def Let_def)
  from hands_off_run [OF this, of E world_init] assms(1)
  have v: "snap v = Snapshot_init" "callback v = None" "shown (history v) = Map.empty"
    by (simp_all add: world_init_def) (simp add: shown_def)
  have "hands_off (Service_Init q)" for q
    by (auto simp: Service_Init_def Let_def intro!: hands_off_bind hands_off_driver)
  from hands_off_run [OF this, of E sPolicy_start v] assms(2) v
  show "snap w = Snapshot_init" "callback w = None" "shown (history w) = Map.empty" by simp_all
qed

lemma tracking_start:
  assumes "run E Driver_Init world_init = (Some True, v)" and "run E (Service_Init sPolicy_start) v = (Some (True, p), w)"
  shows "tracking \<lparr>policy = p, device = w, scheduled_work = False\<rparr>"
proof -
  note w = shown_start [OF assms]
  have "p = sPolicy_start \<or> (\<exists>err now. err \<noteq> 0 \<and> p = OnReadResult sPolicy_start err Measurement_init now)"
    using assms(2) by (auto simp: run_Service_Init Let_def split: if_splits)
  moreover have "snap_matches (OnReadResult sPolicy_start err m now) Snapshot_init" if "err \<noteq> 0" for err m now
    using that by (simp add: snap_matches_def OnReadResult_failure sPolicy_start_def Snapshot_init_def)
  moreover have "snap_matches sPolicy_start Snapshot_init"
    by (simp add: snap_matches_def sPolicy_start_def Snapshot_init_def)
  ultimately have "settled p" "snap_matches p Snapshot_init"
    using settled_start settled_failure [OF settled_start] by auto
  with w show ?thesis by (simp add: tracking_def)
qed

lemma reachable_tracking: "accessory_reachable E a \<Longrightarrow> tracking a"
  by (induction rule: accessory_reachable.induct) (blast intro: tracking_start tracking_step)+

section \<open>Attributes and readings\<close>

text \<open>A sensor that acknowledges and answers every read of the measurement with the frame of \<open>ws\<close>.\<close>

definition delivers :: "env \<Rightarrow> u16 list \<Rightarrow> bool" where
  "delivers E ws \<longleftrightarrow>
     (\<forall>w. write_errno E w Cmd_StartMeasurement = 0 \<and> write_errno E w Cmd_ReadMeasuredValues = 0 \<and>
        read_errno E w Cmd_ReadMeasuredValues kMeasurementBytes = 0 \<and>
        response E w Cmd_ReadMeasuredValues kMeasurementBytes = BuildFrame ws)"

lemma outcome_delivers: "delivers E ws \<Longrightarrow> outcome E p w = (0, decode ws)"
  by (simp add: delivers_def outcome_def run_acquire run_ReadMeasurement Let_def payload_words_BuildFrame)

text \<open>A bus that is ready, with a sensor that acknowledges and always sends the same bytes.\<close>

definition working_bus :: "bytes \<Rightarrow> env" where
  "working_bus bs =
     \<lparr>answer = (\<lambda>h q. if q = DeviceIsReady then 1 else 0), bus_data = (\<lambda>h n. (0, \<lambda>i. bs ! i)),
      clock = (\<lambda>h. int (length h))\<rparr>"

lemma answer_working_bus [simp]:
  "answer (working_bus bs) h q = (if q = DeviceIsReady then 1 else 0)"
  by (simp add: working_bus_def)

lemma write_errno_working_bus [simp]: "write_errno (working_bus bs) w cmd = 0"
  by (simp add: write_errno_def)

lemma bus_data_working_bus [simp]: "bus_data (working_bus bs) h n = (0, \<lambda>i. bs ! i)"
  by (simp add: working_bus_def)

lemma delivers_working_bus:
  "length ws = kMeasurementWords \<Longrightarrow> delivers (working_bus (BuildFrame ws)) ws"
  by (auto simp: delivers_def read_errno_def response_def layout_defs intro: nth_equalityI)

lemma ClusterInit_working_bus: "\<exists>w'. run (working_bus bs) ClusterInit w = (Some True, w')"
  by (simp add: ClusterInit_ask_all cluster_inits_eq run_bind run_ApplyLatestMeasurement Let_def)

text \<open>A start and the cluster initialisation, and then one tick and its work.\<close>

lemma working_registered:
  "\<exists>w1. accessory_reachable (working_bus bs) \<lparr>policy = sPolicy_start, device = w1, scheduled_work = False\<rparr> \<and>
     callback w1 = Some OnMeasurementUpdated_fn"
proof -
  let ?E = "working_bus bs"
  obtain v where v: "run ?E Driver_Init world_init = (Some True, v)" by (simp add: Driver_Init_def Let_def)
  obtain w where w: "run ?E (Service_Init sPolicy_start) v = (Some (True, sPolicy_start), w)"
    by (simp add: run_Service_Init Let_def)
  obtain w1 where w1: "run ?E ClusterInit w = (Some True, w1)" using ClusterInit_working_bus by blast
  let ?a = "\<lparr>policy = sPolicy_start, device = w, scheduled_work = False\<rparr>"
  have "accessory_reachable ?E ?a" using v w by (rule accessory_reachable.start)
  moreover have "accessory_step ?E ?a \<lparr>policy = sPolicy_start, device = w1, scheduled_work = False\<rparr>"
    using accessory_step.cluster_init [of ?E ?a] w1 by simp
  ultimately have "accessory_reachable ?E \<lparr>policy = sPolicy_start, device = w1, scheduled_work = False\<rparr>"
    by (rule accessory_reachable.step)
  then show ?thesis using run_ClusterInit(2) [OF w1] by blast
qed

lemma working_run:
  "\<exists>a. accessory_reachable (working_bus (BuildFrame plausible_words)) a \<and> callback (device a) \<noteq> None \<and>
     \<not> scheduled_work a \<and> hasEverBeenValid (policy a) \<and> latest (policy a) = decode plausible_words"
proof -
  let ?E = "working_bus (BuildFrame plausible_words)"
  obtain w1 where w1: "callback w1 = Some OnMeasurementUpdated_fn"
    and a1: "accessory_reachable ?E \<lparr>policy = sPolicy_start, device = w1, scheduled_work = False\<rparr>"
    using working_registered by blast
  let ?a1 = "\<lparr>policy = sPolicy_start, device = w1, scheduled_work = False\<rparr>"
  have u: "usable sPolicy_start" using settled_start by (simp add: settled_def)
  let ?q = "ticked ?E sPolicy_start w1"
  have "outcome ?E sPolicy_start w1 = (0, decode plausible_words)"
    using plausible_frame(1) by (intro outcome_delivers delivers_working_bus)
  then have due: "ShouldNotify (fed ?E sPolicy_start w1)"
    and q: "hasEverBeenValid ?q" "latest ?q = decode plausible_words"
    using plausible_frame(2)
    by (simp_all add: ticked_def fed_def ShouldNotify_def OnReadResult_success notify_due_def
        notify_mask_first sPolicy_start_def)
  obtain w2 where w2: "run ?E (PollWorkHandler callback_code sPolicy_start) w1 = (Some ?q, w2)"
    "callback w2 = callback w1" "schedules_work w1 w2"
    using run_tick_work [OF u, of ?E w1] due w1 by auto
  let ?a2 = "\<lparr>policy = ?q, device = w2, scheduled_work = True\<rparr>"
  have "accessory_step ?E ?a1 ?a2"
    using accessory_step.poll [of ?E ?a1 ?q w2] w2 by simp
  with a1 have a2: "accessory_reachable ?E ?a2" by (rule accessory_reachable.step)
  obtain w3 where w3: "run ?E ApplyLatestMeasurement w2 = (Some (), w3)" "callback w3 = callback w2"
    by (simp add: run_ApplyLatestMeasurement)
  have "accessory_step ?E ?a2 (?a2\<lparr>device := w3, scheduled_work := False\<rparr>)"
    using w3 by (intro accessory_step.work) simp_all
  with a2 have "accessory_reachable ?E (?a2\<lparr>device := w3, scheduled_work := False\<rparr>)"
    by (rule accessory_reachable.step)
  then show ?thesis
    using q w3(2) w2(2) w1 by (intro exI conjI) auto
qed

text \<open>
  C3. The attributes track the sensor.  In every state the accessory can reach from its start, by
  ticks of the poll work item, initialisations of the clusters (failed ones included), runs of
  the scheduled work and shell commands in any order and with any behaviour of the bus: once the
  clusters are registered, a reading has been valid and no work is waiting, the attributes show
  one measurement in full, with null exactly for the channels that are invalid in the latest
  reading, and each valid channel differs from the latest reading by less than twice its
  change threshold; and while some channel is valid, the latest reading came less than the notify
  interval after the last notification.
\<close>

theorem attributes_track_readings:
  assumes "accessory_reachable E a" and "callback (device a) \<noteq> None" and "\<not> scheduled_work a"
    and "hasEverBeenValid (policy a)"
  shows "\<exists>m. shown (history (device a)) = published m \<and>
    (\<forall>f. is_valid m f = is_valid (latest (policy a)) f \<and>
      (is_valid m f \<longrightarrow> channel_delta f m (latest (policy a))
         < 2 * uint (channel_threshold f (thresholds PolicyConfig_default)))) \<and>
    (valid (latest (policy a)) \<noteq> 0 \<longrightarrow>
       lastUpdateMs (policy a) - lastNotifyMs (policy a) < uint (notifyIntervalMs PolicyConfig_default))"
proof -
  have "tracking a" using assms(1) by (rule reachable_tracking)
  with assms(2-4) obtain m where m: "shown (history (device a)) = published m" "close_to (lastNotified (policy a)) m"
    "close_to (lastNotified (policy a)) (latest (policy a))"
    by (auto simp: tracking_def settled_def)
  moreover have "valid (latest (policy a)) \<noteq> 0 \<longrightarrow>
      lastUpdateMs (policy a) - lastNotifyMs (policy a) < uint (notifyIntervalMs PolicyConfig_default)"
    using \<open>tracking a\<close> by (simp add: tracking_def settled_def)
  ultimately show ?thesis
    using close_to_common [OF m(2,3)] by (intro exI [of _ m]) simp
qed

theorem attributes_track_readings_witness:
  "\<exists>a m. accessory_reachable (working_bus (BuildFrame plausible_words)) a \<and>
     shown (history (device a)) = published m \<and>
     is_valid m kFieldCo2 = is_valid (decode plausible_words) kFieldCo2"
proof -
  obtain a where "accessory_reachable (working_bus (BuildFrame plausible_words)) a"
    "callback (device a) \<noteq> None" "\<not> scheduled_work a" "hasEverBeenValid (policy a)"
    "latest (policy a) = decode plausible_words"
    using working_run by blast
  with attributes_track_readings [OF this(1-4)] show ?thesis by metis
qed

text \<open>
  C8. A reading that is due gets published.  In every reachable state with the clusters
  registered, when the next tick reads a frame in which some channel flipped its validity or moved
  by its threshold since the last notification, that tick leaves work for the Matter thread,
  and the work, which can run at once, makes the attributes show exactly this reading.
\<close>

theorem due_reading_gets_published:
  assumes "accessory_reachable E a" and "callback (device a) \<noteq> None"
    and "outcome E (policy a) (device a) = (0, decode ws)"
    and "reported (thresholds PolicyConfig_default) (lastNotified (policy a)) (decode ws) f"
  shows "\<exists>b c. accessory_step E a b \<and> scheduled_work b \<and> accessory_step E b c \<and> \<not> scheduled_work c \<and>
    shown (history (device c)) = published (decode ws)"
proof -
  let ?p = "policy a" and ?w = "device a"
  have t: "tracking a" using assms(1) by (rule reachable_tracking)
  then have p: "settled ?p" "usable ?p" "config ?p = PolicyConfig_default" by (simp_all add: tracking_def settled_def)
  have "bit (notify_mask ChangeThresholds_default (lastNotified ?p) (decode ws)) (field_bit f)"
    using assms(4) by (simp add: bit_notify_mask)
  moreover have "valid (decode ws) \<noteq> 0 \<or> valid (lastNotified ?p) \<noteq> 0"
    using assms(4) by (auto simp: reported_def moved_def is_valid_iff)
  ultimately have due: "notify_due ?p (decode ws) (tick_time E ?p ?w)"
    unfolding notify_due_def p(3) by (metis bit_0_eq bot_apply bot_bool_def default_config_simps(1))
  then have notify: "ShouldNotify (fed E ?p ?w)" and latest: "latest (ticked E ?p ?w) = decode ws"
    by (simp_all add: ticked_def fed_def assms(3) ShouldNotify_def OnReadResult_success)
  obtain v where v: "run E (PollWorkHandler callback_code ?p) ?w = (Some (ticked E ?p ?w), v)"
    "callback v = callback ?w" "schedules_work ?w v"
    using run_tick_work [OF p(2), of E ?w] notify assms(2) by blast
  let ?b = "\<lparr>policy = ticked E ?p ?w, device = v, scheduled_work = True\<rparr>"
  have b: "accessory_step E a ?b" using accessory_step.poll [OF v(1)] v(3) by simp
  then have tb: "tracking ?b" using t by (rule tracking_step)
  obtain u where u: "run E ApplyLatestMeasurement v = (Some (), u)"
    by (simp add: run_ApplyLatestMeasurement)
  have c: "accessory_step E ?b (?b\<lparr>device := u, scheduled_work := False\<rparr>)"
    using u by (intro accessory_step.work) simp_all
  have "shown (history u) = published (decode ws)"
    using tb shown_ApplyLatestMeasurement [of E v] u
    by (auto simp: tracking_def snap_matches_def latest)
  then show ?thesis using b c by (intro exI conjI) (assumption | simp)+
qed

theorem due_reading_gets_published_witness:
  "\<exists>a c :: accessory. accessory_reachable (working_bus (BuildFrame plausible_words)) a \<and>
     \<not> scheduled_work c \<and> shown (history (device c)) = published (decode plausible_words)"
proof -
  let ?E = "working_bus (BuildFrame plausible_words)"
  obtain w1 where w1: "callback w1 = Some OnMeasurementUpdated_fn"
    and a1: "accessory_reachable ?E \<lparr>policy = sPolicy_start, device = w1, scheduled_work = False\<rparr>"
    using working_registered by blast
  let ?a1 = "\<lparr>policy = sPolicy_start, device = w1, scheduled_work = False\<rparr>"
  have "outcome ?E (policy ?a1) (device ?a1) = (0, decode plausible_words)"
    using plausible_frame(1) by (intro outcome_delivers delivers_working_bus)
  moreover have "is_valid (decode plausible_words) kFieldCo2"
    by (simp add: is_valid_decode plausible_frame(1)) (simp add: plausible_words_def sentinel_def sentinel_defs)
  then have "reported (thresholds PolicyConfig_default) (lastNotified (policy ?a1)) (decode plausible_words) kFieldCo2"
    by (simp add: reported_def sPolicy_start_def is_valid_iff)
  moreover have "callback (device ?a1) \<noteq> None" using w1 by simp
  ultimately show ?thesis using due_reading_gets_published [OF a1] a1 by blast
qed

end
