(* ===== verification/Firmware_Runs.thy ===== *)
theory Firmware_Runs
  imports Firmware_Schedule Accessory
begin

text \<open>
  The two models of the running firmware together.  A handler that runs without interruption in
  \<open>Accessory\<close> is one of the interleavings of \<open>Firmware_Schedule\<close>, so the whole-handler model is
  contained in the interleaved one.  The properties of the interleaved firmware close the
  theory.
\<close>

section \<open>A thread that runs alone\<close>

definition solo :: "nat \<Rightarrow> mutex option \<Rightarrow> bool \<Rightarrow> world \<Rightarrow> 'r io \<Rightarrow> 'r system \<Rightarrow> bool" where
  "solo t held seen w p s \<longleftrightarrow>
     thread s t = Some p \<and> well_locked p held seen \<and> (seen \<longrightarrow> callback w \<noteq> None) \<and>
     owner s = (\<lambda>m. if held = Some m then Some t else None) \<and>
     shared_snap s = snap w \<and> shared_callback s = callback w \<and> map snd (trace s) = history w"

text \<open>It makes the steps of \<open>run\<close>, for which nothing has to wait.\<close>

lemma solo_act:
  assumes s: "solo t held seen w (Do a p) s"
  obtains v held' where "sys_step code (\<lambda>_. False) s v" "event_step t (Did a) p s v"
    "solo t held' seen (perform a w) p v"
proof -
  note s' = s [unfolded solo_def]
  consider m where "a = Lock m" | m where "a = Unlock m" | "\<forall>m. a \<noteq> Lock m \<and> a \<noteq> Unlock m" by blast
  then show thesis
  proof cases
    case 1
    let ?v = "(advance t (Did (Lock m)) p s)\<lparr>owner := (owner s)(m \<mapsto> t)\<rparr>"
    have "sys_step code (\<lambda>_. False) s ?v" using s' 1 by (intro sys_step.TakeMutex) auto
    moreover have "event_step t (Did a) p s ?v" "solo t (Some m) seen (perform a w) p ?v"
      using s' 1 by (auto simp: event_step_def advance_def solo_def)
    ultimately show thesis by (rule that)
  next
    case 2
    let ?v = "(advance t (Did (Unlock m)) p s)\<lparr>owner := (owner s)(m := None)\<rparr>"
    have "sys_step code (\<lambda>_. False) s ?v" using s' 2 by (intro sys_step.GiveMutex) auto
    moreover have "event_step t (Did a) p s ?v" "solo t None seen (perform a w) p ?v"
      using s' 2 by (auto simp: event_step_def advance_def solo_def)
    ultimately show thesis by (rule that)
  next
    case 3
    let ?v = "(advance t (Did a) p s)
      \<lparr>shared_snap := snap_effect a (shared_snap s), shared_callback := callback_effect a (shared_callback s)\<rparr>"
    have "sys_step code (\<lambda>_. False) s ?v" using s' 3 by (intro sys_step.Act) auto
    moreover have "event_step t (Did a) p s ?v"
      using unlocked_pass [OF 3] 3 by (simp add: event_step_def advance_def)
    moreover have "well_locked p held seen" "seen \<longrightarrow> callback_effect a (callback w) \<noteq> None"
      using s' 3 by (cases a; auto)+
    then have "solo t held seen (perform a w) p ?v"
      using s' by (simp add: solo_def advance_def)
    ultimately show thesis by (rule that)
  qed
qed

definition goes_on :: "('e \<Rightarrow> 'r io) \<Rightarrow> env \<Rightarrow> nat \<Rightarrow> world \<Rightarrow> 'r io \<Rightarrow> 'r system \<Rightarrow> bool" where
  "goes_on code E t w p s \<longleftrightarrow>
     (\<exists>e p' v w1 held seen. follows p e p' \<and> sys_step code (\<lambda>_. False) s v \<and> event_step t e p' s v \<and>
        solo t held seen w1 p' v \<and> run E p w = run E p' w1 \<and> history w1 = history w @ [e])"

lemma goes_on_plain:
  assumes s: "solo t held seen w p s" and "follows p e p'"
    and "sys_step code (\<lambda>_. False) s (advance t e p' s)" and "run E p w = run E p' (log_event e w)"
    and e: "\<And>a. e \<noteq> Did a" "\<And>s'. e = SawSnapshot s' \<Longrightarrow> s' = shared_snap s"
      "\<And>c. e = SawCallback c \<Longrightarrow> c = shared_callback s"
    and wl: "well_locked p' held seen'" "seen' \<Longrightarrow> callback w \<noteq> None"
  shows "goes_on code E t w p s"
proof -
  have "pass_mutex (t, e) own = own" "snap_after e s' = s'" "callback_after e c = c" for own s' c
    using e(1) by (cases e; auto)+
  then have "event_step t e p' s (advance t e p' s)"
    using e by (auto simp: event_step_def advance_def)
  moreover have "solo t held seen' (log_event e w) p' (advance t e p' s)"
    using s wl by (simp add: solo_def advance_def)
  ultimately show ?thesis using assms(2-4) unfolding goes_on_def by (metis log_event_simps(3))
qed

lemma solo_step:
  assumes s: "solo t held seen w p s" and "\<And>x. p \<noteq> Ret x"
  shows "goes_on code E t w p s"
proof -
  note s' = s [unfolded solo_def]
  show ?thesis
  proof (cases p)
    case (Do a q)
    then obtain v held' where "sys_step code (\<lambda>_. False) s v" "event_step t (Did a) q s v"
      "solo t held' seen (perform a w) q v"
      using solo_act s by metis
    then show ?thesis
      using Do unfolding goes_on_def by (metis follows.intros(1) run.simps(3) perform_simps(3))
  next
    case (Ask q k)
    then show ?thesis
      using s' by (intro goes_on_plain [OF s, where seen' = seen and e = "Asked q (answer E (history w) q)"])
        (auto simp: Let_def intro: follows.intros sys_step.Answer)
  next
    case (I2cRead n k)
    let ?r = "bus_data E (history w) n"
    show ?thesis
      using s' I2cRead
      by (intro goes_on_plain [OF s, where seen' = seen and e = "ReadBus n (fst ?r) (map (snd ?r) [0..<n])" and p' = "k ?r"])
        (auto simp: Let_def simp del: split_paired_All intro: follows.intros sys_step.Transfer)
  next
    case (Uptime k)
    then show ?thesis
      using s' by (intro goes_on_plain [OF s, where seen' = seen and e = "Clock (clock E (history w))"])
        (auto simp: Let_def intro: follows.intros sys_step.ReadClock)
  next
    case (GetSnapshot k)
    then show ?thesis
      using s' sys_step.ReadSnapshot [of s t k]
      by (intro goes_on_plain [OF s, where seen' = seen and e = "SawSnapshot (snap w)"])
        (auto intro: follows.intros)
  next
    case (GetCallback k)
    then show ?thesis
      using s' sys_step.ReadCallback [of s t k]
      by (intro goes_on_plain [OF s, where seen' = "callback w \<noteq> None" and e = "SawCallback (callback w)"])
        (auto intro: follows.intros)
  qed (use assms in \<open>simp_all add: solo_def\<close>)
qed

lemma follows_induct:
  assumes step: "\<And>p. (\<And>e p'. follows p e p' \<Longrightarrow> P p') \<Longrightarrow> P p"
  shows "P p"
  by (induction p) (rule step; auto elim: follows_E)+





section \<open>Handlers that run alone\<close>

definition arms :: "event list \<Rightarrow> bool" where
  "arms es \<longleftrightarrow> (\<exists>d. Did (WorkSchedule d) \<in> set es)"

text \<open>What a program leaves in the firmware when nothing interrupts it.\<close>

definition ran :: "nat \<Rightarrow> firmware \<Rightarrow> world \<Rightarrow> Policy option io \<Rightarrow> Policy option \<Rightarrow> world \<Rightarrow> firmware \<Rightarrow> bool" where
  "ran t f w p x w' g \<longleftrightarrow>
     (\<exists>es. history w' = history w @ es \<and> started g = started f \<and>
        trace (threads g) = trace (threads f) @ map (Pair t) es \<and>
        (\<forall>t'. t' \<noteq> t \<longrightarrow> thread (threads g) t' = thread (threads f) t') \<and>
        work_item g = (if arms es then x else work_item f) \<and> (hands_over False p \<longrightarrow> arms es) \<and>
        (never_schedules p \<longrightarrow> \<not> arms es) \<and> matter_queue g = matter_queue f + count_list es (Did ScheduleWork))"

lemma firmware_run:
  "firmware_reachable f \<Longrightarrow> solo t held seen w p (threads f) \<Longrightarrow> run E p w = (Some x, w') \<Longrightarrow> hands_over True p \<Longrightarrow>
   \<exists>g seen'. firmware_reachable g \<and> solo t None seen' w' (Ret x) (threads g) \<and> ran t f w p x w' g"
proof (induction p arbitrary: f held seen w rule: follows_induct)
  case (1 p)
  show ?case
  proof (cases "\<exists>y. p = Ret y")
    case True
    then have "p = Ret x" "w' = w" using 1(4) by auto
    moreover from this have "held = None" using 1(3) by (auto simp: solo_def)
    ultimately show ?thesis
      using 1(2,3) by (intro exI [of _ f] exI [of _ seen]) (simp add: ran_def arms_def)
  next
    case False
    then have goes: "goes_on entry_code E t w p (threads f)" by (intro solo_step [OF 1(3)]) blast
    then obtain e p' v w1 held1 seen1 where fo: "follows p e p'" and st: "sys_step entry_code (\<lambda>_. False) (threads f) v"
      and ev: "event_step t e p' (threads f) v" and solo1: "solo t held1 seen1 w1 p' v"
      and run1: "run E p' w1 = (Some x, w')" and h1: "history w1 = history w @ [e]"
      using goes [unfolded goes_on_def] 1(4) by auto
    let ?f = "f\<lparr>threads := v, work_item := work_item_after (threads f) v (work_item f),
      matter_queue := matter_queue_after (threads f) v (matter_queue f)\<rparr>"
    have rf: "firmware_reachable ?f" by (rule firmware_reachable.step [OF 1(2) firmware_step.Inside [OF st]])
    have mq: "matter_queue ?f = matter_queue f + (if e = Did ScheduleWork then 1 else 0)"
      using new_events_simps(2) [OF ev] by (auto simp: matter_queue_after_def split: event.split act.split)
    have th: "t' \<noteq> t \<Longrightarrow> thread v t' = thread (threads f) t'" "trace v = trace (threads f) @ [(t, e)]" for t'
      using ev by (simp_all add: event_step_def)
    show ?thesis
    proof (cases "\<exists>d. e = Did (WorkSchedule d)")
      case True
      then obtain d q where d: "e = Did (WorkSchedule d)" "p' = Ret (Some q)"
        using follows_hands_over(2) 1(5) fo by blast
      then have x: "x = Some q" "w' = w1" using run1 by simp_all
      have "held1 = None" using solo1 d(2) by (simp add: solo_def)
      moreover have "work_item ?f = Some q" using work_item_after_simps(3) ev d by simp
      ultimately show ?thesis
        using rf solo1 h1 mq th d x follows_never_schedules [OF fo]
        by (intro exI [of _ ?f] exI [of _ seen1]) (auto simp: ran_def arms_def)
    next
      case no: False
      then have "hands_over True p'" using follows_hands_over(1) [OF fo 1(5)] by blast
      then obtain g seen' where g: "firmware_reachable g" "solo t None seen' w' (Ret x) (threads g)" "ran t ?f w1 p' x w' g"
        using 1(1) [OF fo rf _ run1, of held1 seen1] solo1 by auto
      then obtain es where es: "history w' = history w1 @ es" "started g = started f"
        "trace (threads g) = trace v @ map (Pair t) es" "\<forall>t'. t' \<noteq> t \<longrightarrow> thread (threads g) t' = thread v t'"
        "work_item g = (if arms es then x else work_item ?f)" "hands_over False p' \<longrightarrow> arms es" "never_schedules p' \<longrightarrow> \<not> arms es"
        "matter_queue g = matter_queue ?f + count_list es (Did ScheduleWork)"
        by (auto simp: ran_def)
      have "work_item ?f = work_item f" using work_item_after_simps(2) [OF ev] no by simp
      moreover have "arms (e # es) = arms es" using no by (auto simp: arms_def)
      moreover have "hands_over False p \<longrightarrow> arms es"
        using es(6) follows_hands_over(1) [OF fo, of False] no by blast
      moreover have "never_schedules p \<longrightarrow> \<not> arms es" using es(7) follows_never_schedules [OF fo] by blast
      ultimately have "ran t f w p x w' g"
        unfolding ran_def using es h1 mq th by (intro exI [of _ "e # es"]) auto
      with g show ?thesis by blast
    qed
  qed
qed


text \<open>The firmware between two handlers, in the state of a world.\<close>

definition at_rest :: "firmware \<Rightarrow> world \<Rightarrow> bool" where
  "at_rest f w \<longleftrightarrow>
     firmware_reachable f \<and> (\<forall>t. thread (threads f) t = None) \<and> owner (threads f) = (\<lambda>m. None) \<and>
     shared_snap (threads f) = snap w \<and> shared_callback (threads f) = callback w \<and>
     map snd (trace (threads f)) = history w"

lemma at_rest_init: "at_rest firmware_init world_init"
  by (simp add: at_rest_def firmware_reachable.init)
    (simp add: firmware_init_def system_init_def world_init_def)

lemma handler_runs:
  assumes rest: "at_rest f w" and step: "firmware_step f f1" "threads f1 = enter t e (threads f)"
    and entry: "firmware_entry_ok e" "hands_over True (entry_code e)"
    and run: "run E (entry_code e) w = (Some x, w')"
  shows "\<exists>g es. at_rest g w' \<and> history w' = history w @ es \<and> started g = started f1 \<and>
    trace (threads g) = trace (threads f) @ map (Pair t) es \<and>
    work_item g = (if arms es then x else work_item f1) \<and>
    (hands_over False (entry_code e) \<longrightarrow> arms es) \<and> (never_schedules (entry_code e) \<longrightarrow> \<not> arms es) \<and>
    matter_queue g = matter_queue f1 + count_list es (Did ScheduleWork)"
proof -
  have f1: "firmware_reachable f1" using rest step(1) by (auto simp: at_rest_def intro: firmware_reachable.step)
  have "solo t None False w (entry_code e) (threads f1)"
    using rest entry_code_locked [OF entry(1)] by (simp add: step(2) at_rest_def solo_def enter_def)
  then obtain g seen where g: "firmware_reachable g" "solo t None seen w' (Ret x) (threads g)"
    "ran t f1 w (entry_code e) x w' g"
    using firmware_run [OF f1 _ run entry(2)] by blast
  let ?s = "(threads g)\<lparr>thread := (thread (threads g))(t := None)\<rparr>"
  let ?g = "g\<lparr>threads := ?s, work_item := work_item_after (threads g) ?s (work_item g),
    matter_queue := matter_queue_after (threads g) ?s (matter_queue g)\<rparr>"
  have "sys_step entry_code (\<lambda>_. False) (threads g) ?s"
    using g(2) by (intro sys_step.Leave) (simp add: solo_def)
  then have "firmware_reachable ?g" by (rule firmware_reachable.step [OF g(1) firmware_step.Inside])
  moreover have "thread ?s t' = None" for t'
    using g(3) rest by (auto simp: ran_def step(2) at_rest_def)
  ultimately have "at_rest ?g w'" using g(2) by (simp add: at_rest_def solo_def)
  moreover have "work_item ?g = work_item g" "matter_queue ?g = matter_queue g" "started ?g = started g"
    "trace (threads ?g) = trace (threads g)" "trace (threads f1) = trace (threads f)"
    by (simp_all add: work_item_after_simps(1) matter_queue_after_def new_events_simps(1) step(2))
  ultimately show ?thesis using g(3) unfolding ran_def by metis
qed

section \<open>The whole-handler model is contained in the interleaved one\<close>

lemma hands_over_weaken: "hands_over False p \<Longrightarrow> hands_over True p"
  by (induction p) (auto split: act.splits)

definition embeds :: "accessory \<Rightarrow> firmware \<Rightarrow> bool" where
  "embeds a f \<longleftrightarrow>
     at_rest f (device a) \<and> started f \<and> work_item f = Some (policy a) \<and>
     (scheduled_work a \<longrightarrow> matter_queue f \<noteq> 0)"

lemma run_ignore: "run E p w = (Some x, w') \<Longrightarrow> run E (ignore p) w = (Some None, w')"
  by (simp add: ignore_def run_bind)

lemma run_leave: "run E p w = (Some q, w') \<Longrightarrow> run E (leave_policy p) w = (Some (Some q), w')"
  by (simp add: leave_policy_def run_bind)

lemma embeds_start:
  assumes "run E Driver_Init world_init = (Some True, v)"
    and "run E (Service_Init sPolicy_start) v = (Some (True, p), w)"
  shows "\<exists>f. embeds \<lparr>policy = p, device = w, scheduled_work = False\<rparr> f"
proof -
  let ?f1 = "firmware_init\<lparr>threads := enter main_thread (Start True True) (threads firmware_init), started := True\<rparr>"
  have step: "firmware_step firmware_init ?f1"
    by (rule firmware_step.Boot) (simp_all add: firmware_init_def system_init_def)
  have run: "run E (Start_Sensor True True) world_init = (Some p, w)"
    using assms by (simp add: Start_Sensor_def run_bind)
  have "answer E (history world_init) DeviceIsReady \<noteq> 0"
    using assms(1) by (simp add: Driver_Init_def Let_def)
  then have armed: "history w = history world_init @ es \<Longrightarrow> arms es" for es
    using run_Start_Sensor [of E True True world_init] run by (auto simp: arms_def)
  have "run E (entry_code (Start True True)) world_init = (Some (Some p), w)"
    using run by (simp add: run_leave)
  then obtain g es where "at_rest g w" "history w = history world_init @ es" "started g"
    "work_item g = (if arms es then Some p else work_item ?f1)"
    using handler_runs [OF at_rest_init step _ _ hands_over_Start [of True True],
        where t = main_thread and E = E and x = "Some p" and w' = w] by auto
  then show ?thesis using armed by (intro exI [of _ g]) (simp add: embeds_def)
qed

text \<open>A handler that leaves the work item alone.\<close>

lemma embeds_quiet:
  assumes emb: "embeds a f" and step: "firmware_step f f1" "threads f1 = enter t e (threads f)"
    and f1: "started f1" "work_item f1 = work_item f"
    and entry: "firmware_entry_ok e" "never_schedules (entry_code e)"
    and run: "run E (entry_code e) (device a) = (Some x, w)"
    and b: "policy b = policy a" "device b = w" "scheduled_work b \<Longrightarrow> matter_queue f1 \<noteq> 0"
  shows "\<exists>g es. embeds b g \<and> trace (threads g) = trace (threads f) @ map (Pair t) es"
  using handler_runs [OF _ step entry(1) never_hands_over [OF entry(2)] run] emb f1 entry(2) b
  by (auto simp: embeds_def)

lemma command_entry:
  assumes "(name, help, cmd) \<in> set (sen66_cmds True serial)" and "length serial = kSerialChars"
  shows "\<exists>e. shell_command e \<and> entry_code e = ignore cmd"
  using assms
  by (auto simp: sen66_cmds_def intro: exI [of _ "Serial serial"] exI [of _ Read] exI [of _ Latest])

text \<open>Each step of the whole-handler model, on the thread that makes it.\<close>

abbreviation grows :: "nat \<Rightarrow> firmware \<Rightarrow> firmware \<Rightarrow> bool" where
  "grows t f g \<equiv> \<exists>es. trace (threads g) = trace (threads f) @ map (Pair t) es"

lemma embeds_poll:
  assumes "embeds a f" and "usable (policy a)"
    and "run E (PollWorkHandler callback_code (policy a)) (device a) = (Some q, w)"
  shows "\<exists>g. embeds \<lparr>policy = q, device = w, scheduled_work = (scheduled_work a \<or> schedules_work (device a) w)\<rparr> g \<and>
    grows poll_thread f g"
proof -
  let ?f1 = "f\<lparr>threads := enter poll_thread (Tick (policy a)) (threads f), work_item := None\<rparr>"
  have step: "firmware_step f ?f1"
    using assms(1) by (intro firmware_step.Poll) (simp_all add: embeds_def at_rest_def)
  have "run E (entry_code (Tick (policy a))) (device a) = (Some (Some q), w)"
    using assms(3) by (simp add: run_leave)
  moreover have "hands_over False (entry_code (Tick (policy a)))" using hands_over_Tick [OF assms(2)] .
  moreover from this have "hands_over True (entry_code (Tick (policy a)))" by (rule hands_over_weaken)
  ultimately obtain g es where "at_rest g w" "history w = history (device a) @ es" "started g"
    "work_item g = Some q" "matter_queue g = matter_queue f + count_list es (Did ScheduleWork)"
    "trace (threads g) = trace (threads f) @ map (Pair poll_thread) es"
    using handler_runs [OF _ step, of "device a" poll_thread "Tick (policy a)" E "Some q" w] assms(1,2)
    by (auto simp: embeds_def)
  then show ?thesis
    using assms(1)
    by (intro exI [of _ g]) (auto simp: embeds_def schedules_work_def count_list_0_iff)
qed

lemma embeds_cluster_init:
  assumes "embeds a f" and "run E ClusterInit (device a) = (Some ok, w)"
  shows "\<exists>g. embeds (a\<lparr>device := w\<rparr>) g \<and> grows main_thread f g"
proof -
  let ?f1 = "f\<lparr>threads := enter main_thread Init_Clusters (threads f)\<rparr>"
  have "firmware_step f ?f1"
    using assms(1) by (intro firmware_step.Clusters) (simp_all add: embeds_def at_rest_def)
  then show ?thesis
    using assms embeds_quiet [of a f ?f1 main_thread Init_Clusters E None w "a\<lparr>device := w\<rparr>"]
    by (auto simp: run_ignore never_ignore never_schedules_ClusterInit embeds_def)
qed

lemma embeds_work:
  assumes "embeds a f" and "scheduled_work a" and "run E ApplyLatestMeasurement (device a) = (Some (), w)"
  shows "\<exists>g. embeds (a\<lparr>device := w, scheduled_work := False\<rparr>) g \<and> grows matter_thread f g"
proof -
  let ?f1 = "f\<lparr>threads := enter matter_thread Apply (threads f), matter_queue := matter_queue f - 1\<rparr>"
  have "firmware_step f ?f1"
    using assms by (intro firmware_step.Matter) (simp_all add: embeds_def at_rest_def)
  then show ?thesis
    using assms embeds_quiet [of a f ?f1 matter_thread Apply E None w "a\<lparr>device := w, scheduled_work := False\<rparr>"]
    by (auto simp: run_ignore never_ignore never_schedules_Apply embeds_def)
qed

lemma embeds_shell:
  assumes "embeds a f" and "(name, descr, cmd) \<in> set (sen66_cmds True serial)" and "length serial = kSerialChars"
    and "run E cmd (device a) = (Some err, w)"
  shows "\<exists>g. embeds (a\<lparr>device := w\<rparr>) g \<and> grows shell_thread f g"
proof -
  obtain e where e: "shell_command e" "entry_code e = ignore cmd"
    using command_entry [OF assms(2,3)] by blast
  let ?f1 = "f\<lparr>threads := enter shell_thread e (threads f)\<rparr>"
  have "firmware_step f ?f1"
    using assms(1) e by (intro firmware_step.Shell) (simp_all add: embeds_def at_rest_def)
  then show ?thesis
    using assms shell_command_entry [OF e(1)]
      embeds_quiet [of a f ?f1 shell_thread e E None w "a\<lparr>device := w\<rparr>"]
    by (auto simp: e(2) run_ignore embeds_def entry_ready_def)
qed

lemma embeds_step:
  assumes "accessory_step E a b" and "embeds a f" and "usable (policy a)"
  shows "\<exists>g. embeds b g"
  using assms
proof (induction rule: accessory_step.induct)
  case (poll a q w)
  show ?case using embeds_poll [OF poll(2,3,1)] by blast
next
  case (cluster_init a ok w)
  show ?case using embeds_cluster_init [OF cluster_init(2,1)] by blast
next
  case (work a w)
  show ?case using embeds_work [OF work(3,1,2)] by blast
next
  case (shell name descr cmd serial a err w)
  show ?case using embeds_shell [OF shell(4,1,2,3)] by blast
qed

lemma reachable_embeds: "accessory_reachable E a \<Longrightarrow> \<exists>f. embeds a f"
proof (induction rule: accessory_reachable.induct)
  case (start v p w)
  then show ?case by (rule embeds_start)
next
  case (step a b)
  have "usable (policy a)" using reachable_tracking [OF step(1)] by (simp add: tracking_def settled_def)
  then show ?case using embeds_step [OF step(2)] step(3) by blast
qed


section \<open>A run of the firmware\<close>

lemma show_write_nonempty: "fold show_write xs Map.empty = Map.empty \<longleftrightarrow> xs = []"
  by (cases xs rule: rev_cases) (auto simp: show_write_def)

lemma writes_by_append: "writes_by t (tr @ tr') = writes_by t tr @ writes_by t tr'"
  by (simp add: writes_by_def)

lemma writes_by_other: "t' \<noteq> t \<Longrightarrow> writes_by t' (map (Pair t) es) = []"
  by (induction es) (simp_all add: writes_by_Cons writes_by_def)

lemma writes_by_none:
  assumes "shown (map snd tr) = Map.empty"
  shows "writes_by t tr = []"
proof -
  have "concat (map write_of (map snd tr)) = []"
    using assms by (simp only: shown_writes show_write_nonempty)
  then show ?thesis by (auto simp: writes_by_def)
qed

lemma in_publications:
  assumes "set pubs \<subseteq> G" and "begins_publication G part" and "x \<in> set (concat (map attribute_writes pubs) @ part)"
  shows "\<exists>m\<in>G. x \<in> set (attribute_writes m)"
proof (cases "x \<in> set part")
  case True
  then obtain m where "m \<in> G" "prefix part (attribute_writes m)"
    using assms(2) by (auto simp: begins_publication_def)
  with True show ?thesis using set_mono_prefix by blast
next
  case False
  then have "x \<in> (\<Union>m\<in>set pubs. set (attribute_writes m))" using assms(3) by simp
  with assms(1) show ?thesis by blast
qed

lemma written_was_received:
  assumes "firmware_reachable f" and "x \<in> set (writes_by t (trace (threads f)))"
  shows "\<exists>m \<in> received (trace (threads f)). x \<in> set (attribute_writes m)"
proof -
  let ?tr = "trace (threads f)"
  have "accounting.accounted (threads f)"
    using firmware_reachable_ok [OF assms(1)] by (simp add: firmware_ok_def)
  from accounting.writes_are_publications [OF this]
  obtain pubs part where "set pubs \<subseteq> received ?tr" "begins_publication (received ?tr) part"
    "writes_by t ?tr = concat (map attribute_writes pubs) @ part" .
  then show ?thesis using assms(2) by (intro in_publications) simp_all
qed

lemma shown_was_received:
  assumes "firmware_reachable f" and "shown (map snd (trace (threads f))) a = Some v"
  shows "\<exists>m \<in> received (trace (threads f)). \<exists>x \<in> set (attribute_writes m). written x = (a, v)"
proof -
  let ?tr = "trace (threads f)"
  obtain x where x: "x \<in> set (concat (map write_of (map snd ?tr)))" "written x = (a, v)"
    using fold_show_write [of "concat (map write_of (map snd ?tr))" Map.empty a v] assms(2)
    unfolding shown_writes by auto
  then obtain t where "x \<in> set (writes_by t ?tr)" using all_writes_by by blast
  with x(2) show ?thesis using written_was_received [OF assms(1)] by blast
qed

lemma received_was_read:
  "received tr \<noteq> {} \<Longrightarrow> \<exists>pre t n err bs post. tr = pre @ (t, ReadBus n err bs) # post"
proof -
  assume "received tr \<noteq> {}"
  then obtain t e where te: "(t, e) \<in> set tr" "readings_of e \<noteq> {}" by (auto simp: received_def)
  then obtain n err bs where "e = ReadBus n err bs" by (cases e) simp_all
  with te(1) show ?thesis using split_list by metis
qed

text \<open>
  The start, the clusters, one reading of a working sensor and the work it leaves, after which
  the attributes show the reading.
\<close>

lemma sensed_firmware:
  "\<exists>f :: firmware. firmware_reachable f \<and> (\<forall>t. thread (threads f) t = None) \<and> armed (threads f) \<and>
     writes_by main_thread (trace (threads f)) = [] \<and>
     shown (map snd (trace (threads f))) = published (decode plausible_words) \<and>
     (\<exists>w. at_rest f w) \<and> (\<exists>t. (t, Did ScheduleWork) \<in> set (trace (threads f))) \<and>
     owner (threads f) sSnapshotMutex = None \<and> everValid (shared_snap (threads f)) \<and>
     received (trace (threads f)) \<noteq> {}"
proof -
  let ?E = "working_bus (BuildFrame plausible_words)" and ?p = sPolicy_start
  obtain v where v: "run ?E Driver_Init world_init = (Some True, v)" by (simp add: Driver_Init_def Let_def)
  obtain w where w: "run ?E (Service_Init ?p) v = (Some (True, ?p), w)" by (simp add: run_Service_Init Let_def)
  obtain w1 where w1: "run ?E ClusterInit w = (Some True, w1)" using ClusterInit_working_bus by blast
  let ?a = "\<lambda>p w s. \<lparr>policy = p, device = w, scheduled_work = s\<rparr>"
  obtain f0 where "embeds (?a ?p w False) f0" using embeds_start [OF v w] by blast
  then obtain f1 where f1: "embeds (?a ?p w1 False) f1"
    using embeds_cluster_init [of "?a ?p w False" f0 ?E True w1] w1 by auto
  have c1: "callback w1 = Some OnMeasurementUpdated_fn" "shown (history w1) = Map.empty"
    using run_ClusterInit(2) [OF w1] shown_start [OF v w] by (simp_all add: Snapshot_init_def)
  then have none: "writes_by t (trace (threads f1)) = []" for t
    using f1 by (intro writes_by_none) (simp add: embeds_def at_rest_def)
  have u: "usable ?p" using settled_start by (simp add: settled_def)
  let ?q = "ticked ?E ?p w1"
  have "outcome ?E ?p w1 = (0, decode plausible_words)"
    using plausible_frame(1) by (intro outcome_delivers delivers_working_bus)
  then have due: "ShouldNotify (fed ?E ?p w1)" and q: "hasEverBeenValid ?q" "latest ?q = decode plausible_words"
    using plausible_frame(2)
    by (simp_all add: ticked_def fed_def ShouldNotify_def OnReadResult_success notify_due_def
        notify_mask_first sPolicy_start_def)
  obtain w2 where w2: "run ?E (PollWorkHandler callback_code ?p) w1 = (Some ?q, w2)" "schedules_work w1 w2"
    "snap w2 = snapshot_of ?q (tick_time ?E ?p w1)" "shown (history w2) = Map.empty"
    using run_tick_work [OF u, of ?E w1] due c1 by auto
  then obtain f2 where f2: "embeds (?a ?q w2 True) f2" "grows poll_thread f1 f2"
    using embeds_poll [OF f1, of ?E ?q w2] u by auto
  obtain w3 where w3: "run ?E ApplyLatestMeasurement w2 = (Some (), w3)" by (simp add: run_ApplyLatestMeasurement)
  then obtain f3 where f3: "embeds (?a ?q w3 False) f3" "grows matter_thread f2 f3"
    using embeds_work [OF f2(1), of ?E w3] by auto
  have snap3: "everValid (snap w3)" using w3 w2(3) q(1) by (auto simp: run_ApplyLatestMeasurement snapshot_of_def GetLatest_def)
  have shown3: "shown (history w3) = published (decode plausible_words)"
    using shown_ApplyLatestMeasurement [of ?E w2] w3 w2(3,4) q by (simp add: snapshot_of_def GetLatest_def)
  obtain v3 where "published (decode plausible_words) AirQualityValue = Some v3" by (simp add: published_def Let_def)
  then have "received (trace (threads f3)) \<noteq> {}"
    using shown_was_received [of f3 AirQualityValue v3] f3(1) shown3 by (auto simp: embeds_def at_rest_def)
  moreover have "writes_by main_thread (trace (threads f3)) = []"
    using f2(2) f3(2) none by (auto simp: thread_ids writes_by_append writes_by_other)
  moreover have "armed (threads f3)"
    using f3(1) firmware_reachable_ok [of f3] by (auto simp: embeds_def at_rest_def firmware_ok_def dest: poll_aliveD(4))
  moreover have "Did ScheduleWork \<in> set (map snd (trace (threads f2)))"
    using f2(1) w2(2) by (auto simp: embeds_def at_rest_def schedules_work_def dest: in_set_dropD)
  then have "\<exists>t. (t, Did ScheduleWork) \<in> set (trace (threads f3))" using f3(2) by auto
  ultimately show ?thesis
    using f3(1) snap3 shown3 by (intro exI [of _ f3]) (auto simp: embeds_def at_rest_def)
qed

text \<open>
  With \<^verbatim>\<open>main\<close> having written nothing and the Matter thread between two runs, the attributes show
  the last publication.
\<close>

lemma shown_last_publication:
  assumes "firmware_reachable f" and "writes_by main_thread (trace (threads f)) = []"
    and "thread (threads f) matter_thread = None"
  obtains pubs where "set pubs \<subseteq> received (trace (threads f))"
    "shown (map snd (trace (threads f))) = fold show_write (writes_by matter_thread (trace (threads f))) Map.empty"
    "shown (map snd (trace (threads f))) = (if pubs = [] then Map.empty else published (last pubs))"
proof -
  let ?tr = "trace (threads f)"
  have "accounting.accounted (threads f)"
    using firmware_reachable_ok [OF assms(1)] by (simp add: firmware_ok_def)
  then obtain pubs where p: "set pubs \<subseteq> received ?tr"
    "writes_by matter_thread ?tr = concat (map attribute_writes pubs)"
    using accounting.writes_are_publications [of "threads f" matter_thread] assms(3)
    by (metis append_Nil2)
  have "writes_by t ?tr = []" if "t \<noteq> matter_thread" for t
    using that assms(2) firmware_writers [OF assms(1)] by (cases "t = main_thread") auto
  then have s: "shown (map snd ?tr) = fold show_write (writes_by matter_thread ?tr) Map.empty"
    using only_writer [of matter_thread ?tr] by (simp add: shown_writes)
  then have "shown (map snd ?tr) = (if pubs = [] then Map.empty else published (last pubs))"
    by (simp add: p(2) show_publications)
  with p(1) s show thesis by (intro that) auto
qed




lemma value_published: "value_after cur ops \<noteq> cur \<Longrightarrow> \<exists>v. Publish v \<in> set ops"
  by (induction cur ops rule: value_after.induct) auto

section \<open>Properties\<close>

text \<open>
  C10. Exchanges with the sensor never interleave.  From when a thread takes the bus until it gives
  it back nobody else transfers anything on it.  And every response is read by the thread
  that sent its command, while it holds the bus from before the command until the response: it
  takes the bus, writes the command whose response has that many bytes, waits the execution time
  and reads, never releasing the bus, and between command and response there is no transfer.
\<close>

theorem exchanges_do_not_interleave:
  assumes "reachable entry_code firmware_entry_ok s"
  shows "exclusive kBusMutex (trace s) \<and>
    (\<forall>pre t n err bs post. trace s = pre @ (t, ReadBus n err bs) # post \<longrightarrow>
      (\<exists>cmd before taken between.
         pre = before @ (t, Did (Lock kBusMutex)) # taken @ (t, Asked (I2cWrite (command_bytes cmd)) 0) # between \<and>
         (t, Did (Unlock kBusMutex)) \<notin> set (taken @ between) \<and> response_bytes cmd = Some n \<and>
         (t, Did (Msleep kExecReadMs)) \<in> set between \<and> (\<forall>x \<in> set between. required (snd x) \<noteq> Some kBusMutex)))"
  using exclusive_if_guarded [OF firmware.guarded_trace [OF assms]] firmware.response_follows_command [OF assms]
  by metis

theorem exchanges_do_not_interleave_witness:
  "\<exists>(f :: firmware) before t cmd taken between n err bs post. trace (threads f) =
     (before @ (t, Did (Lock kBusMutex)) # taken @ (t, Asked (I2cWrite (command_bytes cmd)) 0) # between) @
       (t, ReadBus n err bs) # post \<and>
     (t, Did (Unlock kBusMutex)) \<notin> set (taken @ between) \<and> response_bytes cmd = Some n"
proof -
  obtain f where f: "firmware_reachable f" "received (trace (threads f)) \<noteq> {}" using sensed_firmware by blast
  then have r: "reachable entry_code firmware_entry_ok (threads f)"
    using firmware_reachable_ok by (simp add: firmware_ok_def)
  obtain pre t n err bs post where read: "trace (threads f) = pre @ (t, ReadBus n err bs) # post"
    using received_was_read [OF f(2)] by blast
  with exchanges_do_not_interleave [OF r] obtain before cmd taken between where
    "pre = before @ (t, Did (Lock kBusMutex)) # taken @ (t, Asked (I2cWrite (command_bytes cmd)) 0) # between"
    "(t, Did (Unlock kBusMutex)) \<notin> set (taken @ between)" "response_bytes cmd = Some n"
    by blast
  with read show ?thesis by metis
qed

text \<open>
  C11. Snapshots are never torn.  However the threads are interleaved, their accesses to the
  snapshot are a sequence of whole operations, each of them all the accesses of one thread that sets
  the three fields (\<open>Publish\<close>) or copies them (\<open>Fetch\<close>), in the order in which an atomic
  variable would do them: each fetch returns exactly the value of the last publication before it, or
  the initial value when there was none.  Only the poll thread publishes.  After the operations
  comes at most the beginning of one more, while the mutex is held; when it is free the
  snapshot holds what was published last.
\<close>

theorem snapshots_are_never_torn:
  assumes "firmware_reachable f"
  shows "\<exists>ops part. snapshot_accesses (trace (threads f)) = concat (map op_events ops) @ part \<and>
    in_order Snapshot_init (map snd ops) \<and> (\<forall>t v. (t, Publish v) \<in> set ops \<longrightarrow> t = poll_thread) \<and>
    (owner (threads f) sSnapshotMutex = None \<longrightarrow>
       part = [] \<and> shared_snap (threads f) = value_after Snapshot_init (map snd ops)) \<and>
    (\<exists>x. in_order Snapshot_init (map snd ops @ [snd x]) \<and> prefix part (op_events x))"
proof -
  let ?s = "threads f"
  have "reachable entry_code firmware_entry_ok ?s"
    using firmware_reachable_ok [OF assms] by (simp add: firmware_ok_def)
  then obtain ops where ops: "chronicle ?s ops" using firmware.snapshot_chronicle by blast
  have acc: "snapshot_accesses (trace ?s) = concat (map op_events ops) @ pending ?s"
    and ord: "in_order Snapshot_init (map snd ops)"
    and free: "owner ?s sSnapshotMutex = None \<Longrightarrow>
      pending ?s = [] \<and> shared_snap ?s = value_after Snapshot_init (map snd ops)"
    using ops by (auto simp: chronicle_def pending_def)
  have "t = poll_thread" if "(t, Publish v) \<in> set ops" for t v
  proof (rule firmware_publisher [OF assms])
    have "(t, Did (SetEverValid (everValid v))) \<in> set (snapshot_accesses (trace ?s))"
      unfolding acc using that by (force simp: op_events_def)
    then show "(t, Did (SetEverValid (everValid v))) \<in> set (trace ?s)" by (auto simp: snapshot_accesses_def)
  qed
  with acc ord free chronicle_pending [OF ops] show ?thesis
    by (intro exI [of _ ops] exI [of _ "pending ?s"]) blast
qed

theorem snapshots_are_never_torn_witness:
  "\<exists>(f :: firmware) ops v. snapshot_accesses (trace (threads f)) = concat (map op_events ops) \<and>
     in_order Snapshot_init (map snd ops) \<and> (poll_thread, Publish v) \<in> set ops"
proof -
  obtain f where f: "firmware_reachable f" "owner (threads f) sSnapshotMutex = None" "everValid (shared_snap (threads f))"
    using sensed_firmware by blast
  from snapshots_are_never_torn [OF f(1)] f(2) obtain ops where ops:
    "snapshot_accesses (trace (threads f)) = concat (map op_events ops)" "in_order Snapshot_init (map snd ops)"
    "\<forall>t v. (t, Publish v) \<in> set ops \<longrightarrow> t = poll_thread" "shared_snap (threads f) = value_after Snapshot_init (map snd ops)"
    by auto
  have "value_after Snapshot_init (map snd ops) \<noteq> Snapshot_init" using f(3) ops(4) by (auto simp: Snapshot_init_def)
  then obtain t v where "(t, Publish v) \<in> set ops" using value_published by fastforce
  with ops show ?thesis by metis
qed



text \<open>
  Every run of whole handlers, from the start on and in any order, is a run of the interleaved
  firmware: there is a scheduling of its threads that performs the same calls in the same order
  and ends with the same snapshot, the same callback and the work item armed with the same
  policy.
\<close>

theorem whole_handlers_are_interleavings:
  assumes "accessory_reachable E a"
  shows "\<exists>f. firmware_reachable f \<and> (\<forall>t. thread (threads f) t = None) \<and>
    map snd (trace (threads f)) = history (device a) \<and> shared_snap (threads f) = snap (device a) \<and>
    shared_callback (threads f) = callback (device a) \<and> work_item f = Some (policy a)"
  using reachable_embeds [OF assms] by (auto simp: embeds_def at_rest_def)

theorem whole_handlers_are_interleavings_witness:
  "\<exists>(f :: firmware) (a :: accessory). firmware_reachable f \<and> map snd (trace (threads f)) = history (device a) \<and>
     latest (policy a) = decode plausible_words \<and> work_item f = Some (policy a)"
proof -
  obtain a where "accessory_reachable (working_bus (BuildFrame plausible_words)) a"
    "latest (policy a) = decode plausible_words"
    using working_run by blast
  with whole_handlers_are_interleavings [OF this(1)] show ?thesis by blast
qed

text \<open>
  C5. Nothing invented is ever shown.  However the threads are interleaved and whatever the bus
  does, each value an attribute shows is the conversion of a measurement whose frame of nine
  words, all checksums right, was read from the sensor before.
\<close>

theorem every_value_shown_was_sensed:
  assumes "firmware_reachable f" and "shown (map snd (trace (threads f))) a = Some v"
  shows "\<exists>m \<in> received (trace (threads f)). published m a = Some v"
proof -
  obtain m x where "m \<in> received (trace (threads f))" "x \<in> set (attribute_writes m)" "written x = (a, v)"
    using shown_was_received [OF assms] by blast
  then show ?thesis using written_published [of x m] by auto
qed

theorem every_value_shown_was_sensed_witness:
  "\<exists>(f :: firmware) m v. firmware_reachable f \<and> m \<in> received (trace (threads f)) \<and>
     published m AirQualityValue = Some v \<and> published (decode plausible_words) AirQualityValue = Some v"
proof -
  obtain f where f: "firmware_reachable f" "shown (map snd (trace (threads f))) = published (decode plausible_words)"
    using sensed_firmware by blast
  obtain v where "published (decode plausible_words) AirQualityValue = Some v"
    by (simp add: published_def Let_def)
  with every_value_shown_was_sensed [OF f(1), of AirQualityValue v] f show ?thesis by auto
qed


text \<open>
  C6. Publications are never mixed up within a thread.  However the threads are interleaved, what
  a thread writes is a row of whole publications, each of them the eight writes in order for one
  measurement received from the sensor, and at most one begun publication while the thread is
  inside a handler.  The poll thread and the shell thread write no attribute at all.
\<close>

theorem publications_are_whole:
  assumes "firmware_reachable f"
  shows "\<exists>pubs part. set pubs \<subseteq> received (trace (threads f)) \<and>
    writes_by t (trace (threads f)) = concat (map attribute_writes pubs) @ part \<and>
    begins_publication (received (trace (threads f))) part \<and>
    (thread (threads f) t = None \<longrightarrow> part = []) \<and>
    (t = poll_thread \<or> t = shell_thread \<longrightarrow> pubs = [] \<and> part = [])"
proof -
  have "accounting.accounted (threads f)"
    using firmware_reachable_ok [OF assms] by (simp add: firmware_ok_def)
  then obtain pubs part where p: "set pubs \<subseteq> received (trace (threads f))"
    "begins_publication (received (trace (threads f))) part"
    "writes_by t (trace (threads f)) = concat (map attribute_writes pubs) @ part"
    "thread (threads f) t = None \<Longrightarrow> part = []"
    using accounting.writes_are_publications [of "threads f" t] by metis
  have "pubs = [] \<and> part = []" if "t = poll_thread \<or> t = shell_thread"
  proof -
    have "writes_by t (trace (threads f)) = []"
      using firmware_writers [OF assms, of t] that by (auto simp: thread_ids)
    moreover have "attribute_writes m \<noteq> []" for m by (simp add: attribute_writes_def)
    ultimately show ?thesis using p(3) by (cases pubs) auto
  qed
  with p show ?thesis by (intro exI [of _ pubs] exI [of _ part]) simp
qed

theorem publications_are_whole_witness:
  "\<exists>(f :: firmware) pubs. shown (map snd (trace (threads f))) = published (decode plausible_words) \<and>
     set pubs \<subseteq> received (trace (threads f)) \<and>
     writes_by matter_thread (trace (threads f)) = concat (map attribute_writes pubs)"
proof -
  obtain f where f: "firmware_reachable f" "thread (threads f) matter_thread = None"
    "shown (map snd (trace (threads f))) = published (decode plausible_words)"
    using sensed_firmware by blast
  with publications_are_whole [OF f(1), of matter_thread] show ?thesis by auto
qed

text \<open>
  Between two publications the attributes show one frame.  When the clusters were initialised
  before there was any reading to publish, then in every reachable state in which the Matter
  thread is between two runs of its work the attributes show nothing or, all eight of them
  together, the conversions of one measurement that was received from the sensor.
\<close>

theorem attributes_show_one_frame:
  assumes "firmware_reachable f" and "writes_by main_thread (trace (threads f)) = []"
    and "thread (threads f) matter_thread = None"
  shows "shown (map snd (trace (threads f))) = Map.empty \<or>
    (\<exists>m \<in> received (trace (threads f)). shown (map snd (trace (threads f))) = published m)"
proof -
  obtain pubs where p: "set pubs \<subseteq> received (trace (threads f))"
    "shown (map snd (trace (threads f))) = fold show_write (writes_by matter_thread (trace (threads f))) Map.empty"
    "shown (map snd (trace (threads f))) = (if pubs = [] then Map.empty else published (last pubs))"
    by (rule shown_last_publication [OF assms])
  show ?thesis
  proof (cases "pubs = []")
    case False
    then have "last pubs \<in> received (trace (threads f))" using p(1) last_in_set by blast
    moreover have "shown (map snd (trace (threads f))) = published (last pubs)" using p(3) False by simp
    ultimately show ?thesis by blast
  qed (use p(3) in simp)
qed

theorem attributes_show_one_frame_witness:
  "\<exists>f :: firmware. \<exists>m \<in> received (trace (threads f)). shown (map snd (trace (threads f))) = published m \<and>
     published m AirQualityValue \<noteq> None"
proof -
  obtain f where f: "firmware_reachable f" "thread (threads f) matter_thread = None"
    "writes_by main_thread (trace (threads f)) = []"
    "shown (map snd (trace (threads f))) = published (decode plausible_words)"
    using sensed_firmware by blast
  have "published (decode plausible_words) AirQualityValue \<noteq> None" by (simp add: published_def Let_def)
  with attributes_show_one_frame [OF f(1,3,2)] f(4) show ?thesis by (metis (no_types, lifting))
qed

text \<open>
  C7. Polling never stops and \<^verbatim>\<open>sPolicy\<close>, which has no lock, is never shared.  From the first time the
  work item is armed, in every reachable state it is armed or the poll thread is inside its
  handler with every path of the rest ending in arming it again.  At most one thread is running
  code that will hand the policy over, and none while the work item is armed.
\<close>

theorem poll_work_is_never_lost:
  assumes "firmware_reachable f"
  shows "(armed (threads f) \<longrightarrow>
      work_item f \<noteq> None \<or> (\<exists>p. thread (threads f) poll_thread = Some p \<and> hands_over False p)) \<and>
    (\<forall>t p. thread (threads f) t = Some p \<and> \<not> never_schedules p \<longrightarrow>
      work_item f = None \<and>
      (\<forall>t' p'. thread (threads f) t' = Some p' \<and> \<not> never_schedules p' \<longrightarrow> t' = t))"
proof -
  have alive: "poll_alive f" using firmware_reachable_ok [OF assms] by (simp add: firmware_ok_def)
  have "may_arm f t p" if "thread (threads f) t = Some p" "\<not> never_schedules p" for t p
    using poll_aliveD(1) [OF alive that(1)] that(2) by blast
  moreover have "work_item f = None" if "may_arm f t p" for t p
    using that poll_aliveD(4) [OF alive] by (auto simp: may_arm_def split: if_splits)
  moreover have "t' = t" if "may_arm f t p" "may_arm f t' p'" for t p t' p'
    using that by (auto simp: may_arm_def split: if_splits)
  ultimately show ?thesis using poll_aliveD(3) [OF alive] by metis
qed

theorem poll_work_is_never_lost_witness:
  "\<exists>f :: firmware. armed (threads f) \<and> shown (map snd (trace (threads f))) = published (decode plausible_words) \<and>
     work_item f \<noteq> None"
proof -
  obtain f where f: "firmware_reachable f" "armed (threads f)" "thread (threads f) poll_thread = None"
    "shown (map snd (trace (threads f))) = published (decode plausible_words)"
    using sensed_firmware by blast
  with poll_work_is_never_lost [OF f(1)] show ?thesis by auto
qed

end
