(* ===== verification/Matter_Freshness.thy ===== *)
theory Matter_Freshness
  imports Firmware_Runs
begin

text \<open>
  No notification is lost: the Matter thread reads the snapshot again after every call of the update
  callback, and what it shows when it is done is what it has read last.
\<close>

section \<open>A program that publishes what it reads\<close>

fun read_of :: "event \<Rightarrow> Snapshot list" where
  "read_of (SawSnapshot v) = [v]"
| "read_of _ = []"

definition reads_by :: "nat \<Rightarrow> (nat \<times> event) list \<Rightarrow> Snapshot list" where
  "reads_by t tr = concat (map (\<lambda>(t', e). if t' = t then read_of e else []) tr)"

lemma reads_by_simps [simp]:
  "reads_by t [] = []"
  "reads_by t (tr @ [(t', e)]) = reads_by t tr @ (if t' = t then read_of e else [])"
  by (simp_all add: reads_by_def)

text \<open>What a thread has written since it last read the snapshot.\<close>

fun part_after :: "event \<Rightarrow> attribute_write list \<Rightarrow> attribute_write list" where
  "part_after (SawSnapshot v) part = []"
| "part_after e part = part @ write_of e"

definition since_read :: "nat \<Rightarrow> (nat \<times> event) list \<Rightarrow> attribute_write list" where
  "since_read t tr = fold (\<lambda>(t', e) part. if t' = t then part_after e part else part) tr []"

lemma since_read_simps [simp]:
  "since_read t [] = []"
  "since_read t (tr @ [(t', e)]) = (if t' = t then part_after e (since_read t tr) else since_read t tr)"
  by (simp_all add: since_read_def)

lemma part_after_other: "read_of e = [] \<Longrightarrow> part_after e part = part @ write_of e"
  by (cases e) simp_all

lemma since_read_suffix:
  "reads_by t post \<noteq> [] \<Longrightarrow> \<exists>before. writes_by t post = before @ since_read t (pre @ post)"
proof (induction post rule: rev_induct)
  case (snoc x post)
  obtain t' e where x: "x = (t', e)" by fastforce
  have since: "since_read t (pre @ post @ [x]) =
      (if t' = t then part_after e (since_read t (pre @ post)) else since_read t (pre @ post))"
    using since_read_simps(2) [of t "pre @ post"] by (simp add: x)
  show ?case
  proof (cases "t' = t \<and> read_of e \<noteq> []")
    case True
    then show ?thesis unfolding since by (cases e) (simp_all add: x)
  next
    case False
    then have "reads_by t post \<noteq> []" using snoc.prems by (auto simp: x split: if_splits)
    then obtain before where "writes_by t post = before @ since_read t (pre @ post)" using snoc.IH by blast
    with False show ?thesis unfolding since by (auto simp: x part_after_other)
  qed
qed simp

definition publication_of :: "Snapshot \<Rightarrow> attribute_write list" where
  "publication_of v = (if everValid v then attribute_writes (measurement v) else [])"

text \<open>
  \<open>got\<close> is what the program has read last and \<open>part\<close> what it has written since then; it
  returns only after it has read the snapshot and published what it read.
\<close>

primrec echoes :: "'a io \<Rightarrow> Snapshot option \<Rightarrow> Snapshot option \<Rightarrow> attribute_write list \<Rightarrow> bool" where
  "echoes (Ret x) cur got part \<longleftrightarrow> (\<exists>v. got = Some v \<and> part = publication_of v)"
| "echoes Undefined cur got part \<longleftrightarrow> True"
| "echoes (Do a p) cur got part \<longleftrightarrow>
     (case a of
        Lock m \<Rightarrow> if m = sSnapshotMutex then \<forall>s. echoes p (Some s) got part else echoes p cur got part
      | Unlock m \<Rightarrow> if m = sSnapshotMutex then echoes p None got part else echoes p cur got part
      | WriteAttribute x \<Rightarrow> echoes p cur got (part @ [x])
      | _ \<Rightarrow> echoes p (map_option (snap_effect a) cur) got part)"
| "echoes (Ask q k) cur got part \<longleftrightarrow> (\<forall>r. echoes (k r) cur got part)"
| "echoes (I2cRead n k) cur got part \<longleftrightarrow> (\<forall>r. echoes (k r) cur got part)"
| "echoes (Uptime k) cur got part \<longleftrightarrow> (\<forall>t. echoes (k t) cur got part)"
| "echoes (GetSnapshot k) cur got part \<longleftrightarrow> (\<forall>s. cur = Some s \<longrightarrow> echoes (k s) cur (Some s) [])"
| "echoes (GetCallback k) cur got part \<longleftrightarrow> (\<forall>c. echoes (k c) cur got part)"

lemma echoes_write_all:
  "part @ ws = publication_of v \<Longrightarrow> echoes (ignore (write_all ws)) cur (Some v) part"
  by (induction ws arbitrary: part cur) (simp_all add: ignore_def write_all_def)

lemma echoes_Apply: "echoes (entry_code Apply) cur got part"
proof -
  have "echoes (io_bind (write_all (attribute_writes (measurement v))) (\<lambda>_. Ret (None :: Policy option))) cur (Some v) []"
    if "everValid v" for v cur
    using echoes_write_all [of "[]" "attribute_writes (measurement v)" v cur] that
    by (simp add: publication_of_def ignore_def)
  then show ?thesis
    by (auto simp: ApplyLatestMeasurement_eq Service_GetLatest_def ignore_def Let_def io_bind_assoc publication_of_def)
qed

fun got_after :: "event \<Rightarrow> Snapshot option \<Rightarrow> Snapshot option" where
  "got_after (SawSnapshot v) got = Some v"
| "got_after _ got = got"

lemma echoes_follows:
  assumes "echoes p cur got part" and "follows p e p'" and "\<And>x. e = SawSnapshot x \<Longrightarrow> cur = Some x"
  shows "echoes p' (cur_after e cur s) (got_after e got) (part_after e part)"
  using assms(2)
proof cases
  case (1 a)
  show ?thesis
  proof (cases a)
    case (WriteAttribute x)
    with 1 assms show ?thesis by (cases cur) auto
  qed (use 1 assms in \<open>auto split: if_splits\<close>)
qed (use assms in \<open>auto simp del: split_paired_All\<close>)

section \<open>The Matter thread\<close>

text \<open>
  Every scheduling of work is still in the queue, or the Matter thread has not read the snapshot in its
  present run, or it has read it since.
\<close>

definition served :: "firmware \<Rightarrow> Snapshot option \<Rightarrow> bool" where
  "served f got \<longleftrightarrow>
     (\<forall>pre t post. trace (threads f) = pre @ (t, Did ScheduleWork) # post \<longrightarrow>
        matter_queue f \<noteq> 0 \<or> (thread (threads f) matter_thread \<noteq> None \<and> got = None) \<or>
        reads_by matter_thread post \<noteq> [])"

definition matter_ok :: "firmware \<Rightarrow> bool" where
  "matter_ok f \<longleftrightarrow>
     (\<exists>got. (\<forall>v. got = Some v \<longrightarrow> (\<exists>rs. reads_by matter_thread (trace (threads f)) = rs @ [v])) \<and> served f got \<and>
        (case thread (threads f) matter_thread of
           None \<Rightarrow> (case got of None \<Rightarrow> reads_by matter_thread (trace (threads f)) = []
                    | Some v \<Rightarrow> since_read matter_thread (trace (threads f)) = publication_of v)
         | Some p \<Rightarrow>
             echoes p (own_snap (threads f) matter_thread) got (since_read matter_thread (trace (threads f)))))"


lemma served_snoc:
  assumes "served f got" and "trace (threads g) = trace (threads f) @ [(t, e)]"
    and "matter_queue g = matter_queue_after (threads f) (threads g) (matter_queue f)"
    and kept: "thread (threads f) matter_thread \<noteq> None \<Longrightarrow> got = None \<Longrightarrow>
      thread (threads g) matter_thread \<noteq> None \<and> got' = None \<or> t = matter_thread \<and> read_of e \<noteq> []"
  shows "served g got'"
  unfolding served_def
proof (intro allI impI)
  fix pre t' post
  assume tr: "trace (threads g) = pre @ (t', Did ScheduleWork) # post"
  have new: "new_events (threads f) (threads g) = [(t, e)]" using assms(2) by (simp add: new_events_def)
  have q: "matter_queue f \<noteq> 0 \<or> e = Did ScheduleWork \<Longrightarrow> matter_queue g \<noteq> 0"
    using assms(3) new by (auto simp: matter_queue_after_def split: event.split act.split)
  show "matter_queue g \<noteq> 0 \<or> thread (threads g) matter_thread \<noteq> None \<and> got' = None \<or> reads_by matter_thread post \<noteq> []"
  proof (cases post rule: rev_cases)
    case Nil
    then have "e = Did ScheduleWork" using tr assms(2) by simp
    then show ?thesis using q by blast
  next
    case (snoc post' x)
    then have x: "x = (t, e)" and "trace (threads f) = pre @ (t', Did ScheduleWork) # post'"
      using tr assms(2) by simp_all
    then have "matter_queue f \<noteq> 0 \<or> thread (threads f) matter_thread \<noteq> None \<and> got = None \<or>
        reads_by matter_thread post' \<noteq> []"
      using assms(1) by (simp add: served_def)
    then show ?thesis using q kept by (auto simp: snoc x)
  qed
qed

lemma matter_ok_event:
  assumes ok: "matter_ok f" and th: "thread (threads f) t = Some p" and fo: "follows p e p'"
    and ev: "event_step t e p' (threads f) v" and al: "allowed (owner (threads f)) t e"
    and g: "threads g = v" "matter_queue g = matter_queue_after (threads f) v (matter_queue f)"
  shows "matter_ok g"
proof -
  have v: "thread v = (thread (threads f))(t \<mapsto> p')" "trace v = trace (threads f) @ [(t, e)]"
    "\<And>x. e = SawSnapshot x \<Longrightarrow> x = shared_snap (threads f)"
    using ev unfolding event_step_def by blast+
  note own = event_own_snap [OF ev al]
  let ?part = "since_read matter_thread (trace (threads f))"
  obtain got where m:
    "\<forall>v. got = Some v \<longrightarrow> (\<exists>rs. reads_by matter_thread (trace (threads f)) = rs @ [v])" "served f got"
    "case thread (threads f) matter_thread of
       None \<Rightarrow> (case got of None \<Rightarrow> reads_by matter_thread (trace (threads f)) = []
                | Some v \<Rightarrow> ?part = publication_of v)
     | Some p \<Rightarrow> echoes p (own_snap (threads f) matter_thread) got ?part"
    using ok by (auto simp: matter_ok_def)
  show ?thesis
  proof (cases "t = matter_thread")
    case True
    have "own_snap (threads f) t = Some x" if "e = SawSnapshot x" for x
      using al v(3) [OF that] that by (simp add: allowed_def own_snap_def)
    moreover have "echoes p (own_snap (threads f) t) got ?part" using m(3) th True by simp
    ultimately have "echoes p' (own_snap v t) (got_after e got) (part_after e ?part)"
      using echoes_follows [OF _ fo] own(1) by metis
    moreover have "got_after e got = Some x \<Longrightarrow> \<exists>rs. reads_by matter_thread (trace v) = rs @ [x]" for x
      using m(1) True by (cases e) (auto simp: v(2))
    moreover have "served g (got_after e got)"
      by (rule served_snoc [OF m(2), of g t e]) (use v g True in \<open>cases e; simp\<close>)+
    ultimately show ?thesis
      unfolding matter_ok_def g(1) using True
      by - (rule exI [of _ "got_after e got"], simp add: v)
  next
    case False
    have "served g got"
      by (rule served_snoc [OF m(2), of g t e]) (use v g False in simp_all)
    then show ?thesis
      unfolding matter_ok_def g(1) using m False own(2) [of matter_thread]
      by - (rule exI [of _ got], simp add: v cong: option.case_cong)
  qed
qed

lemma matter_ok_return:
  assumes ok: "matter_ok f" and th: "thread (threads f) t = Some (Ret x)"
    and g: "threads g = (threads f)\<lparr>thread := (thread (threads f))(t := None)\<rparr>" "matter_queue g = matter_queue f"
  shows "matter_ok g"
proof -
  let ?part = "since_read matter_thread (trace (threads f))"
  obtain got where m:
    "\<forall>v. got = Some v \<longrightarrow> (\<exists>rs. reads_by matter_thread (trace (threads f)) = rs @ [v])" "served f got"
    "case thread (threads f) matter_thread of
       None \<Rightarrow> (case got of None \<Rightarrow> reads_by matter_thread (trace (threads f)) = []
                | Some v \<Rightarrow> ?part = publication_of v)
     | Some p \<Rightarrow> echoes p (own_snap (threads f) matter_thread) got ?part"
    using ok by (auto simp: matter_ok_def)
  have "served g got"
    using m(2,3) th by (cases "t = matter_thread") (auto simp: served_def g)
  then show ?thesis
    unfolding matter_ok_def using m th
    by - (rule exI [of _ got], cases "t = matter_thread"; auto simp: g cong: option.case_cong)
qed


lemma matter_ok_other:
  assumes ok: "matter_ok f" and "t \<noteq> matter_thread" and "threads g = enter t e (threads f)"
    and "matter_queue g = matter_queue f"
  shows "matter_ok g"
proof -
  have "own_snap (enter t e (threads f)) matter_thread = own_snap (threads f) matter_thread"
    by (simp add: enter_def)
  then show ?thesis using assms by (simp add: matter_ok_def served_def cong: option.case_cong)
qed

lemma matter_ok_enter:
  assumes "matter_ok f" and "thread (threads f) matter_thread = None"
    and "threads g = enter matter_thread Apply (threads f)"
  shows "matter_ok g"
  unfolding matter_ok_def
  by - (rule exI [of _ None], use assms(2,3) echoes_Apply in \<open>simp add: served_def\<close>)

lemma firmware_matter: "firmware_reachable f \<Longrightarrow> matter_ok f"
proof (induction rule: firmware_reachable.induct)
  case init
  show ?case
    unfolding matter_ok_def
    by (rule exI [of _ None]) (simp add: served_def firmware_init_def system_init_def)
next
  case (step f g)
  from step(2,1,3) show ?case
  proof (induction rule: firmware_step.induct)
    case (Matter f)
    show ?case by (rule matter_ok_enter [of f]) (use Matter in simp_all)
  next
    case (Inside f v)
    have r: "reachable entry_code firmware_entry_ok (threads f)"
      using firmware_reachable_ok [OF Inside(2)] by (simp add: firmware_ok_def)
    with inside_entry [OF Inside(1)] have rv: "reachable entry_code firmware_entry_ok v" by (rule reachable.step [rotated])
    from Inside(1) show ?case
    proof (cases rule: inside_cases)
      case (returns t x)
      then show ?thesis
        by (intro matter_ok_return [OF Inside(3) returns(1)])
          (simp_all add: matter_queue_after_def new_events_simps(1))
    next
      case (event t e p p')
      show ?thesis
        by (rule matter_ok_event [OF Inside(3) event accounting.event_allowed [OF r rv event(3)]]) simp_all
    qed
  next
    case (Boot f a b)
    show ?case
      by (rule matter_ok_other [of f main_thread _ "Start a b"]) (use Boot in \<open>simp_all add: thread_ids\<close>)
  next
    case (Clusters f)
    show ?case
      by (rule matter_ok_other [of f main_thread _ Init_Clusters]) (use Clusters in \<open>simp_all add: thread_ids\<close>)
  next
    case (Poll f p)
    show ?case
      by (rule matter_ok_other [of f poll_thread _ "Tick p"]) (use Poll in \<open>simp_all add: thread_ids\<close>)
  next
    case (Shell f e)
    show ?case
      by (rule matter_ok_other [of f shell_thread _ e]) (use Shell in \<open>simp_all add: thread_ids\<close>)
  qed
qed


section \<open>Once a reading was valid\<close>

text \<open>
  \<open>known\<close> is whether the snapshot is marked valid.  A program that announces readings never takes
  the mark away, schedules work only when it is there, and then hands over a policy that
  knows of the reading too.
\<close>

primrec announces :: "Policy option io \<Rightarrow> bool \<Rightarrow> bool" where
  "announces (Ret x) known \<longleftrightarrow> True"
| "announces Undefined known \<longleftrightarrow> True"
| "announces (Do a p) known \<longleftrightarrow>
     (case a of
        SetEverValid b \<Rightarrow> (known \<longrightarrow> b) \<and> announces p b
      | ScheduleWork \<Rightarrow> known \<and> announces p known
      | WorkSchedule d \<Rightarrow> (known \<longrightarrow> (\<forall>q. p = Ret (Some q) \<longrightarrow> hasEverBeenValid q)) \<and> announces p known
      | _ \<Rightarrow> announces p known)"
| "announces (Ask q k) known \<longleftrightarrow> (\<forall>r. announces (k r) known)"
| "announces (I2cRead n k) known \<longleftrightarrow> (\<forall>r. announces (k r) known)"
| "announces (Uptime k) known \<longleftrightarrow> (\<forall>t. announces (k t) known)"
| "announces (GetSnapshot k) known \<longleftrightarrow> (\<forall>s. announces (k s) known)"
| "announces (GetCallback k) known \<longleftrightarrow> (\<forall>c. announces (k c) known)"

lemma announces_bind:
  "never_announces p \<Longrightarrow> never_schedules p \<Longrightarrow> (\<And>x. announces (f x) known) \<Longrightarrow> announces (io_bind p f) known"
  by (induction p) (auto split: act.split)

lemma everValid_snap_effect: "everValid (snap_effect a s) = (case a of SetEverValid b \<Rightarrow> b | _ \<Rightarrow> everValid s)"
  by (cases a) simp_all

lemma everValid_snap_after:
  "everValid (snap_after e s) = (case e of Did a \<Rightarrow> (case a of SetEverValid b \<Rightarrow> b | _ \<Rightarrow> everValid s) | _ \<Rightarrow> everValid s)"
  by (cases e) (simp_all add: everValid_snap_effect)

lemma announces_follows:
  assumes "announces p (everValid s)" and "follows p e p'"
  shows "announces p' (everValid (snap_after e s))" and "everValid s \<Longrightarrow> everValid (snap_after e s)"
    and "e = Did ScheduleWork \<Longrightarrow> everValid s"
    and "e = Did (WorkSchedule d) \<Longrightarrow> p' = Ret (Some q) \<Longrightarrow> everValid s \<Longrightarrow> hasEverBeenValid q"
  using assms(2,1) by (cases; auto simp: everValid_snap_after split: act.splits)+

lemma never_announces_follows:
  assumes "never_announces p" and "follows p e p'"
  shows "never_announces p'" and "everValid (snap_after e s) = everValid s" and "e \<noteq> Did ScheduleWork"
  using follows_never [OF assms(2,1)] by (auto simp: everValid_snap_after split: event.split act.split)

lemma announces_Tick:
  assumes "known \<Longrightarrow> hasEverBeenValid p" and "usable p"
  shows "announces (entry_code (Tick p)) known"
proof -
  have react: "announces (leave_policy (react callback_code q now)) known"
    if q: "usable q" "known \<Longrightarrow> hasEverBeenValid q" for q now
  proof -
    obtain d where d: "NextDelayMs q = Some d" "NextDelayMs (MarkNotified q now) = Some d"
      using sen66_policy.delay_defined [OF q(1)] by (auto simp: sen66_policy.delay_acknowledge)
    have call: "callback_code f reading changed = Do ScheduleWork (Ret ())" for f reading changed
      by (cases f) (simp add: OnMeasurementUpdated_def)
    have "hasEverBeenValid (MarkNotified q now) = hasEverBeenValid q" by (simp add: MarkNotified_def)
    then show ?thesis
      using q(2) by (cases "hasEverBeenValid q"; cases "ShouldNotify q")
        (auto simp: react_def PublishSnapshot_def leave_policy_def GetLatest_def Let_def d call split: option.split)
  qed
  have "hasEverBeenValid p \<Longrightarrow> hasEverBeenValid (OnReadResult p err m now)" for err m now
    by (cases "err = 0") (simp_all add: OnReadResult_success OnReadResult_failure)
  then have "announces (leave_policy (react callback_code (OnReadResult p err m now) now)) known" for err m now
    using assms by (intro react usable_OnReadResult) blast+
  then show ?thesis
    unfolding entry_code.simps PollWorkHandler_split leave_policy_def io_bind_assoc
    by (intro announces_bind [OF never_acquire [OF foreign_calls(3)] never_acquire [OF foreign_calls(1)]])
      (simp add: leave_policy_def split: prod.split)
qed

definition announced :: "firmware \<Rightarrow> bool" where
  "announced f \<longleftrightarrow>
     (let s = threads f; known = everValid (shared_snap s) in
      (\<forall>p. thread s poll_thread = Some p \<longrightarrow>
         announces p known \<and> armed s \<and> (work_item f = None \<or> never_announces p)) \<and>
      (\<forall>t p. t \<noteq> poll_thread \<and> thread s t = Some p \<longrightarrow> never_announces p) \<and>
      (\<forall>p. work_item f = Some p \<and> known \<longrightarrow> hasEverBeenValid p) \<and>
      (known \<longrightarrow> armed s) \<and>
      (\<forall>pre t post. trace s = pre @ (t, Did ScheduleWork) # post \<longrightarrow>
         known \<and> (\<forall>t' v. (t', SawSnapshot v) \<in> set post \<longrightarrow> everValid v)))"

lemma announcedD:
  assumes "announced f"
  shows "thread (threads f) poll_thread = Some p \<Longrightarrow> announces p (everValid (shared_snap (threads f)))"
    and "thread (threads f) poll_thread = Some p \<Longrightarrow> armed (threads f)"
    and "thread (threads f) poll_thread = Some p \<Longrightarrow> work_item f = None \<or> never_announces p"
    and "t \<noteq> poll_thread \<Longrightarrow> thread (threads f) t = Some p \<Longrightarrow> never_announces p"
    and "work_item f = Some q \<Longrightarrow> everValid (shared_snap (threads f)) \<Longrightarrow> hasEverBeenValid q"
    and "everValid (shared_snap (threads f)) \<Longrightarrow> armed (threads f)"
    and "trace (threads f) = pre @ (t, Did ScheduleWork) # post \<Longrightarrow> everValid (shared_snap (threads f))"
    and "trace (threads f) = pre @ (t, Did ScheduleWork) # post \<Longrightarrow> (t', SawSnapshot v) \<in> set post \<Longrightarrow> everValid v"
  using assms unfolding announced_def Let_def by blast+

lemma announced_init: "announced firmware_init"
  by (simp add: announced_def firmware_init_def system_init_def Snapshot_init_def)

lemma shared_snap_enter [simp]: "shared_snap (enter t e s) = shared_snap s"
  by (simp add: enter_def)

lemma announced_enter:
  assumes "announced f" and "never_announces (entry_code e)" and "t \<noteq> poll_thread"
    and "threads g = enter t e (threads f)" and "work_item g = work_item f"
  shows "announced g"
  using assms by (auto simp: announced_def Let_def)

lemma announced_poll:
  assumes "announced f" and "work_item f = Some p" and "usable p" and "armed (threads f)"
    and "threads g = enter poll_thread (Tick p) (threads f)" and "work_item g = None"
  shows "announced g"
  using assms announces_Tick [of "everValid (shared_snap (threads f))" p]
  by (auto simp: announced_def Let_def simp del: entry_code.simps)

lemma announced_return:
  assumes "announced f" and "threads g = (threads f)\<lparr>thread := (thread (threads f))(t := None)\<rparr>"
    and "work_item g = work_item f"
  shows "announced g"
proof -
  have "armed (threads g) = armed (threads f)" by (simp add: assms(2) armed_def)
  then show ?thesis using assms by (auto simp: announced_def Let_def split: if_splits)
qed

lemma announced_event:
  assumes an: "announced f" and alive: "poll_alive f" and th: "thread (threads f) t = Some p" and fo: "follows p e p'"
    and ev: "event_step t e p' (threads f) v"
    and g: "threads g = v" "work_item g = work_item_after (threads f) v (work_item f)"
  shows "announced g"
proof -
  let ?s = "threads f"
  have v: "thread v = (thread ?s)(t \<mapsto> p')" "trace v = trace ?s @ [(t, e)]"
    "shared_snap v = snap_after e (shared_snap ?s)" "\<And>x. e = SawSnapshot x \<Longrightarrow> x = shared_snap ?s"
    using ev unfolding event_step_def by blast+
  note A = announcedD [OF an]
  have arm: "armed ?s \<Longrightarrow> armed v" using armed_event [OF ev] by blast
  have never: "t \<noteq> poll_thread \<Longrightarrow> never_announces p" using A(4) th by blast
  have known: "everValid (shared_snap ?s) \<Longrightarrow> everValid (shared_snap v)"
    unfolding v(3) using never_announces_follows(2) [OF never fo] announces_follows(2) [OF A(1) fo] th
    by (cases "t = poll_thread") auto
  have sched: "e = Did ScheduleWork \<Longrightarrow> everValid (shared_snap ?s)"
    using never_announces_follows(3) [OF never fo] announces_follows(3) [OF A(1) fo] th
    by (cases "t = poll_thread") auto
  have item: "hasEverBeenValid q" if w: "work_item g = Some q" and k: "everValid (shared_snap v)" for q
  proof (cases "\<exists>d. e = Did (WorkSchedule d)")
    case True
    then obtain d where d: "e = Did (WorkSchedule d)" by blast
    obtain q' where q': "p' = Ret (Some q')"
      using poll_alive_schedule [OF alive th fo [unfolded d] ev [unfolded d]] by blast
    then have q: "q' = q" using w work_item_after_simps(3) ev d g(2) by simp
    have same: "everValid (shared_snap ?s)" using k by (simp add: v(3) d)
    then have "armed ?s" using A(6) by blast
    moreover have "\<not> never_schedules p" using follows_never_schedules [OF fo] d by blast
    ultimately have "t = poll_thread" using poll_aliveD(1) [OF alive th] by (simp add: may_arm_def)
    then show ?thesis using announces_follows(4) [OF A(1) fo d q' same] th q by simp
  next
    case False
    then have wf: "work_item f = Some q" using w work_item_after_simps(2) [OF ev] g(2) by auto
    have "everValid (shared_snap ?s)"
    proof (cases "never_announces p")
      case True
      then show ?thesis using never_announces_follows(2) [OF True fo] k by (simp add: v(3))
    next
      case False
      then show ?thesis using never A(3) th wf by (cases "t = poll_thread") auto
    qed
    with wf show ?thesis by (rule A(5))
  qed
  have poll: "announces q (everValid (shared_snap v)) \<and> armed v \<and> (work_item g = None \<or> never_announces q)"
    if q: "thread v poll_thread = Some q" for q
  proof (cases "t = poll_thread")
    case True
    then have "q = p'" using q v(1) by simp
    moreover have "announces p' (everValid (shared_snap v))"
      unfolding v(3) using announces_follows(1) [OF A(1) fo] th True by simp
    moreover have "work_item g = None \<or> never_announces p'"
    proof (cases "\<exists>d. e = Did (WorkSchedule d)")
      case True
      then show ?thesis using poll_alive_schedule [OF alive th] fo ev by (metis never.simps(1))
    next
      case False
      then show ?thesis
        using A(3) th \<open>t = poll_thread\<close> never_announces_follows(1) [OF _ fo] work_item_after_simps(2) [OF ev] g(2)
        by auto
    qed
    ultimately show ?thesis using A(2) th True arm by blast
  next
    case False
    then have pq: "thread ?s poll_thread = Some q" using q v(1) by simp
    have "everValid (shared_snap v) = everValid (shared_snap ?s)"
      unfolding v(3) by (rule never_announces_follows(2) [OF never [OF False] fo])
    moreover have "work_item g = None \<or> never_announces q"
    proof (cases "\<exists>d. e = Did (WorkSchedule d)")
      case True
      have "armed ?s" using A(2) pq .
      moreover have "\<not> never_schedules p" using follows_never_schedules [OF fo] True by blast
      ultimately show ?thesis using poll_aliveD(1) [OF alive th] False by (simp add: may_arm_def)
    next
      case no: False
      then show ?thesis using A(3) [OF pq] work_item_after_simps(2) [OF ev] g(2) by auto
    qed
    ultimately show ?thesis using A(1,2) [OF pq] arm by simp
  qed
  have others: "never_announces q" if "t' \<noteq> poll_thread" "thread v t' = Some q" for t' q
    using that A(4) [OF that(1)] never_announces_follows(1) [OF never fo] by (auto simp: v(1) split: if_splits)
  have reads: "everValid (shared_snap v) \<and> (\<forall>t' x. (t', SawSnapshot x) \<in> set post \<longrightarrow> everValid x)"
    if tr: "trace v = pre @ (u, Did ScheduleWork) # post" for pre u post
  proof (cases post rule: rev_cases)
    case Nil
    then have "e = Did ScheduleWork" using tr v(2) by simp
    then show ?thesis using Nil sched known by simp
  next
    case (snoc post' x)
    then have x: "x = (t, e)" and tr': "trace ?s = pre @ (u, Did ScheduleWork) # post'"
      using tr v(2) by simp_all
    then have "everValid (shared_snap ?s)" using A(7) by blast
    then show ?thesis using A(8) [OF tr'] known v(4) by (auto simp: snoc x)
  qed
  have "everValid (shared_snap v) \<Longrightarrow> armed v"
  proof (cases "t = poll_thread")
    case True
    then show "armed v" using A(2) th arm by blast
  next
    case False
    then show "everValid (shared_snap v) \<Longrightarrow> armed v"
      using never_announces_follows(2) [OF never fo] A(6) arm by (simp add: v(3))
  qed
  then show ?thesis
    unfolding announced_def Let_def g(1) using poll others item reads by blast
qed


lemma firmware_announced: "firmware_reachable f \<Longrightarrow> announced f"
proof (induction rule: firmware_reachable.induct)
  case init
  show ?case by (rule announced_init)
next
  case (step f g)
  from step(2,1,3) show ?case
  proof (induction rule: firmware_step.induct)
    case (Poll f p)
    have ok: "firmware_ok f" using Poll(3) by (rule firmware_reachable_ok)
    then have "usable p" using Poll(2) by (auto simp: firmware_ok_def good_policy_def)
    moreover have "armed (threads f)" using ok Poll(2) by (auto simp: firmware_ok_def dest: poll_aliveD(4))
    ultimately show ?case by (intro announced_poll [OF Poll(4,2)]) simp_all
  next
    case (Inside f v)
    have alive: "poll_alive f" using firmware_reachable_ok [OF Inside(2)] by (simp add: firmware_ok_def)
    from Inside(1) show ?case
    proof (cases rule: inside_cases)
      case (returns t x)
      show ?thesis by (rule announced_return [OF Inside(3), of _ t]) (simp_all add: returns(2) work_item_after_simps(1))
    next
      case (event t e p p')
      show ?thesis by (rule announced_event [OF Inside(3) alive event]) simp_all
    qed
  next
    case (Boot f a b)
    show ?case
      by (rule announced_enter [OF Boot(4) never_announces_entries(1), where t = main_thread])
        (simp_all add: thread_ids)
  next
    case (Clusters f)
    show ?case
      by (rule announced_enter [OF Clusters(4) never_announces_entries(2), where t = main_thread])
        (simp_all add: thread_ids)
  next
    case (Matter f)
    show ?case
      by (rule announced_enter [OF Matter(4) never_announces_entries(3), where t = matter_thread])
        (simp_all add: thread_ids)
  next
    case (Shell f e)
    show ?case
      by (rule announced_enter [OF Shell(4) never_announces_entries(4) [OF Shell(2)], where t = shell_thread])
        (simp_all add: thread_ids)
  qed
qed

section \<open>What the attributes show when the Matter thread is done\<close>

lemma reads_by_append: "reads_by t (tr @ tr') = reads_by t tr @ reads_by t tr'"
  by (simp add: reads_by_def)

lemma reads_by_Cons: "reads_by t (x # tr) = (if fst x = t then read_of (snd x) else []) @ reads_by t tr"
  by (auto simp: reads_by_def split: prod.split)

lemma reads_by_saw: "v \<in> set (reads_by t tr) \<Longrightarrow> (t, SawSnapshot v) \<in> set tr"
proof (induction tr)
  case (Cons x tr)
  then show ?case by (cases x; cases "snd x") (auto simp: reads_by_Cons split: if_splits)
qed simp

lemma show_one_more:
  "fold show_write (xs @ [x]) s a = (if fst (written x) = a then Some (snd (written x)) else fold show_write xs s a)"
  by (simp add: show_write_def)

text \<open>The value shown last is the last write of one of the threads that write.\<close>

lemma shown_by_either:
  fixes s :: "attribute \<rightharpoonup> attribute_value"
  defines "now \<equiv> \<lambda>tr. fold show_write (concat (map write_of (map snd tr))) s"
  assumes "\<And>t'. t' \<noteq> t \<Longrightarrow> t' \<noteq> u \<Longrightarrow> writes_by t' tr = []"
  shows "now tr a = fold show_write (writes_by t tr) s a \<or>
    (\<exists>x \<in> set (writes_by u tr). fst (written x) = a \<and> now tr a = Some (snd (written x)))"
  using assms(2) unfolding now_def
proof (induction tr rule: rev_induct)
  case (snoc y tr)
  obtain t' e where y: "y = (t', e)" by fastforce
  have IH: "fold show_write (concat (map write_of (map snd tr))) s a = fold show_write (writes_by t tr) s a \<or>
    (\<exists>x \<in> set (writes_by u tr). fst (written x) = a \<and>
       fold show_write (concat (map write_of (map snd tr))) s a = Some (snd (written x)))"
    using snoc by (simp add: y)
  show ?case
  proof (cases "\<exists>x. e = Did (WriteAttribute x)")
    case True
    then obtain x where e: "e = Did (WriteAttribute x)" ..
    then have "t' = t \<or> t' = u" using snoc.prems [of t'] by (auto simp: y)
    then show ?thesis using IH by (cases "fst (written x) = a") (auto simp: y e show_one_more simp del: fold_append)
  next
    case False
    then have "write_of e = []" by (cases e rule: write_of.cases) auto
    then show ?thesis using IH by (simp add: y)
  qed
qed simp

lemma show_publication: "fold show_write (attribute_writes m) s = s ++ published m"
  using show_publications [of "[m]" s] by simp

lemma matter_done:
  assumes f: "firmware_reachable f" and tr: "trace (threads f) = pre @ (t, Did ScheduleWork) # post"
    and q: "matter_queue f = 0" and idle: "thread (threads f) matter_thread = None"
  obtains v before where "(matter_thread, SawSnapshot v) \<in> set post" "everValid v"
    "writes_by matter_thread post = before @ attribute_writes (measurement v)"
proof -
  obtain got where m:
    "\<forall>v. got = Some v \<longrightarrow> (\<exists>rs. reads_by matter_thread (trace (threads f)) = rs @ [v])" "served f got"
    "case got of None \<Rightarrow> reads_by matter_thread (trace (threads f)) = []
     | Some v \<Rightarrow> since_read matter_thread (trace (threads f)) = publication_of v"
    using firmware_matter [OF f] idle by (auto simp: matter_ok_def)
  have read: "reads_by matter_thread post \<noteq> []"
    using m(2) tr q idle by (auto simp: served_def)
  moreover have all: "reads_by matter_thread (trace (threads f)) = reads_by matter_thread pre @ reads_by matter_thread post"
    by (simp add: tr reads_by_append reads_by_Cons)
  ultimately obtain v where v: "got = Some v" using m(3) by (cases got) auto
  then obtain rs where "reads_by matter_thread (trace (threads f)) = rs @ [v]" using m(1) by blast
  then have "v \<in> set (reads_by matter_thread post)"
    using all read by (metis last_appendR last_in_set last_snoc)
  then have saw: "(matter_thread, SawSnapshot v) \<in> set post" by (rule reads_by_saw)
  then have ever: "everValid v" by (rule announcedD(8) [OF firmware_announced [OF f] tr])
  obtain before where "writes_by matter_thread post = before @ since_read matter_thread (trace (threads f))"
    using since_read_suffix [OF read, of "pre @ [(t, Did ScheduleWork)]"] tr by auto
  then show thesis using that [OF saw ever] m(3) v ever by (simp add: publication_of_def)
qed


text \<open>The Matter thread can always finish the work that waits for it.\<close>

lemma drain:
  "at_rest f w \<Longrightarrow> \<exists>g w'. at_rest g w' \<and> matter_queue g = 0 \<and> (\<exists>es. trace (threads g) = trace (threads f) @ map (Pair matter_thread) es)"
proof (induction "matter_queue f" arbitrary: f w)
  case 0
  then show ?case by (intro exI [of _ f] exI [of _ w]) auto
next
  case (Suc n)
  let ?f1 = "f\<lparr>threads := enter matter_thread Apply (threads f), matter_queue := matter_queue f - 1\<rparr>"
  obtain E :: env where True by simp
  obtain w' where w': "run E ApplyLatestMeasurement w = (Some (), w')"
    "history w' = history w @ fetched w @
        (if everValid (snap w) then map (Did \<circ> WriteAttribute) (attribute_writes (measurement (snap w))) else [])"
    by (simp add: run_ApplyLatestMeasurement)
  have step: "firmware_step f ?f1"
    using Suc by (intro firmware_step.Matter) (auto simp: at_rest_def)
  obtain g es where g: "at_rest g w'" "history w' = history w @ es"
    "trace (threads g) = trace (threads f) @ map (Pair matter_thread) es"
    "matter_queue g = matter_queue ?f1 + count_list es (Did ScheduleWork)"
    using handler_runs [OF Suc.prems step, of matter_thread Apply E None w'] w'(1)
    by (auto simp: run_ignore never_hands_over never_ignore never_schedules_Apply)
  have "count_list es (Did ScheduleWork) = 0"
    using g(2) w'(2) by (auto simp: fetched_def count_list_0_iff split: if_splits)
  then have "n = matter_queue g" using g(4) Suc.hyps(2) by simp
  then obtain h w'' es' where "at_rest h w''" "matter_queue h = 0"
    "trace (threads h) = trace (threads g) @ map (Pair matter_thread) es'"
    using Suc.hyps(1) [OF _ g(1)] by blast
  then show ?case
    using g(3) by (intro exI [of _ h] exI [of _ w'']) (auto intro: exI [of _ "es @ es'"])
qed

section \<open>Properties\<close>

text \<open>
  C4. No notification is lost.  However the threads are interleaved, once the Matter thread has
  worked off its queue it has, after every call of the update callback, read the snapshot again
  and published what it read: each attribute shows the conversion of one snapshot read after the
  call, or a value that \<^verbatim>\<open>main\<close>, publishing from \<^verbatim>\<open>ClusterInit\<close>, wrote to it after the call.  Without
  such a write all eight attributes show that snapshot.  Several scheduled runs may be one publication
  each of the same snapshot, but none is missed.
\<close>

theorem no_notification_is_lost:
  assumes "firmware_reachable f" and "trace (threads f) = pre @ (t, Did ScheduleWork) # post"
    and "matter_queue f = 0" and "thread (threads f) matter_thread = None"
  shows "\<exists>v. (matter_thread, SawSnapshot v) \<in> set post \<and> everValid v \<and>
    (\<forall>a. shown (map snd (trace (threads f))) a = published (measurement v) a \<or>
       (\<exists>x \<in> set (writes_by main_thread post). fst (written x) = a \<and>
          shown (map snd (trace (threads f))) a = Some (snd (written x)))) \<and>
    (writes_by main_thread post = [] \<longrightarrow> shown (map snd (trace (threads f))) = published (measurement v))"
proof -
  let ?tr = "trace (threads f)"
  obtain v before where v: "(matter_thread, SawSnapshot v) \<in> set post" "everValid v"
    "writes_by matter_thread post = before @ attribute_writes (measurement v)"
    using matter_done [OF assms] by blast
  have "writes_by t' post = []" if "t' \<noteq> matter_thread" "t' \<noteq> main_thread" for t'
    using firmware_writers [OF assms(1) that(2,1)] by (simp add: assms(2) writes_by_append writes_by_Cons)
  note last = shown_by_either [of matter_thread main_thread post, OF this]
  obtain s where s: "shown (map snd ?tr) = fold show_write (concat (map write_of (map snd post))) s"
    by (simp add: shown_writes assms(2))
  have each: "shown (map snd ?tr) a = published (measurement v) a \<or>
      (\<exists>x \<in> set (writes_by main_thread post). fst (written x) = a \<and> shown (map snd ?tr) a = Some (snd (written x)))" for a
  proof (cases "a \<in> dom (published (measurement v))")
    case True
    then have "fold show_write (writes_by matter_thread post) s a = published (measurement v) a"
      by (auto simp: v(3) show_publication)
    then show ?thesis using last [of s a] by (simp add: s)
  next
    case False
    have "shown (map snd ?tr) a = None"
    proof (rule ccontr)
      assume "shown (map snd ?tr) a \<noteq> None"
      then obtain m x y where "x \<in> set (attribute_writes m)" "written x = (a, y)"
        using shown_was_received [OF assms(1), of a] by blast
      then have "a \<in> dom (published m)" using written_published [of x m] by auto
      with False show False by (simp add: dom_published [of m "measurement v"])
    qed
    with False show ?thesis by (simp add: domIff)
  qed
  then have "writes_by main_thread post = [] \<longrightarrow> shown (map snd ?tr) = published (measurement v)" by (auto simp: fun_eq_iff)
  with v(1,2) each show ?thesis by blast
qed

theorem no_notification_is_lost_witness:
  "\<exists>(f :: firmware) v. (matter_thread, SawSnapshot v) \<in> set (trace (threads f)) \<and> matter_queue f = 0 \<and>
     everValid v \<and> shown (map snd (trace (threads f))) = published (measurement v)"
proof -
  obtain f w t where f: "at_rest f w" "writes_by main_thread (trace (threads f)) = []"
    "(t, Did ScheduleWork) \<in> set (trace (threads f))"
    using sensed_firmware by blast
  obtain g w' es where g: "at_rest g w'" "matter_queue g = 0"
    "trace (threads g) = trace (threads f) @ map (Pair matter_thread) es"
    using drain [OF f(1)] by blast
  have main: "writes_by main_thread (trace (threads g)) = []"
    using f(2) by (simp add: g(3) writes_by_append writes_by_other thread_ids)
  obtain pre post where tr: "trace (threads g) = pre @ (t, Did ScheduleWork) # post"
    using f(3) by (auto simp: g(3) dest!: split_list)
  have "firmware_reachable g" "thread (threads g) matter_thread = None"
    using g(1) by (simp_all add: at_rest_def)
  from no_notification_is_lost [OF this(1) tr g(2) this(2)]
  obtain v where "(matter_thread, SawSnapshot v) \<in> set post" "everValid v"
    "shown (map snd (trace (threads g))) = published (measurement v)"
    using main by (auto simp: tr writes_by_append writes_by_Cons)
  then show ?thesis using g(2) tr by (intro exI [of _ g] exI [of _ v]) simp
qed

end
