(* ===== verification/Spec2Isabelle.thy ===== *)
theory Spec2Isabelle
  imports Gen_Config Matter_Freshness
begin

text \<open>
  The firmware of an air-quality accessory: a SEN66 sensor on an I2C bus, polled by a work-queue
  thread, whose readings are published as Matter attributes and can be inspected from a shell.
  The development models the whole of the C++ code under \<^verbatim>\<open>src/\<close> that the repository itself
  provides, and proves what makes it correct.

  \<^bold>\<open>How the parts interact.\<close>  \<^verbatim>\<open>main\<close> starts the application, which starts the Matter stack
  (whose initialisation runs \<^verbatim>\<open>ClusterInit\<close>), the driver and the measurement service, and then
  dispatches tasks.  A timer runs the poll work item on its own thread: it asks the driver for
  a reading, feeds it to the policy, publishes the policy's snapshot under a mutex, calls the
  adapter's callback when a notification is due, and re-arms itself with the delay the
  policy prescribes.  The callback schedules the adapter on the Matter thread, which converts
  the snapshot and writes the attributes.  Shell commands use the driver and the snapshot from
  a third thread.  \<^verbatim>\<open>sPolicy\<close> is touched without a lock, by the start of the service and then by
  the work item alone; in the model it is handed over with the work item.

  \<^bold>\<open>Theories and the files they model\<close> (definitions keep the names of the code).
  \<^item> \<^verbatim>\<open>Prelude\<close>: fixed-width integers, checked buffer accesses, lemmas on words and lists.
  \<^item> \<^verbatim>\<open>Sen66_Crc\<close>: \<^verbatim>\<open>sen66/sen66_crc.cpp\<close>, loop by loop; the checksum is the remainder of a
    polynomial division, whence the errors it detects.
  \<^item> \<^verbatim>\<open>Sen66_Protocol\<close>: \<^verbatim>\<open>sen66/sen66_protocol.h\<close> and \<^verbatim>\<open>.cpp\<close>; both parsers, as inverses of
    the encodings of a sensor, with every buffer access checked.
  \<^item> \<^verbatim>\<open>Measurement_Policy\<close>: \<^verbatim>\<open>measurement_service/measurement_policy.h\<close> and \<^verbatim>\<open>.cpp\<close>, the
    record of the class \<^verbatim>\<open>Policy\<close> and its member functions; the invariant of its reachable states, its
    refinement of a plain counter of failures, the notification decision.  A locale states the
    contract a client of the policy relies on; it is interpreted on these functions.
  \<^item> \<^verbatim>\<open>Firmware_Io\<close>: programs of kernel, bus and Matter calls (\<open>io\<close>), a world with the snapshot, the
    callback and the history of events, an environment that answers arbitrarily, and the lock
    discipline \<open>well_locked\<close> of a program.
  \<^item> \<^verbatim>\<open>Sen66_Driver\<close>: \<^verbatim>\<open>sen66/sen66_driver.cpp\<close>; every entry point is one locked exchange.
  \<^item> \<^verbatim>\<open>Measurement_Service\<close>: \<^verbatim>\<open>measurement_service/measurement_service.cpp\<close>; the poll work item,
    proved against the locale \<open>update_listener\<close>, the contract of the function behind the callback.
  \<^item> \<^verbatim>\<open>Binary32\<close>, \<^verbatim>\<open>Air_Quality_Policy\<close>: rounding to single precision, and
    \<^verbatim>\<open>air_quality_endpoint/air_quality_policy.cpp\<close> over it; a locale \<open>classified_channel\<close>
    turns the float comparisons of a channel into integer thresholds.
  \<^item> \<^verbatim>\<open>Matter_Adapter\<close>: \<^verbatim>\<open>air_quality_endpoint/air_quality_matter_adapter.cpp\<close>; what the
    attributes show after a publication; the adapter's callback interprets \<open>update_listener\<close>.
  \<^item> \<^verbatim>\<open>Poll_Loop\<close>: the service with that callback, one tick and the schedule of all ticks.
  \<^item> \<^verbatim>\<open>Sen66_Shell\<close>: \<^verbatim>\<open>sen66/sen66_shell.cpp\<close> with the printed text.
  \<^item> \<^verbatim>\<open>App_Task\<close>: \<^verbatim>\<open>app_task.cpp\<close> and \<^verbatim>\<open>main.cpp\<close>.
  \<^item> \<^verbatim>\<open>Interleaved_System\<close>: threads that run programs of calls, interleaved at every call by an
    inductive step relation.  The locale \<open>disciplined_entries\<close> asks two things of every entry point: the
    lock discipline, and that each command is sent, waited for and answered, and each
    publication or fetch of the snapshot made, under one lock (\<open>tidy\<close>).  From them follow mutual exclusion,
    the pairing of responses with commands, the sequence of whole operations on the snapshot
    (\<open>chronicle\<close>), freedom from deadlock, and that no thread races on the snapshot.
  \<^item> \<^verbatim>\<open>Firmware_Threads\<close>: the entry points of the firmware, on which the locale is interpreted.
  \<^item> \<^verbatim>\<open>Firmware_Schedule\<close>: the same threads with what decides when each of them gets a handler to run:
    the main thread once, the poll thread when the work item is armed, the Matter thread when work was
    scheduled on it, the shell thread always.  The locale \<open>accounting_entries\<close> follows every
    value from the bus to the policy, the snapshot and the attributes; it is interpreted on the entry points.
  \<^item> \<^verbatim>\<open>Endpoint_Config\<close>, \<^verbatim>\<open>Data_Model\<close>: the tables of
    \<^verbatim>\<open>default_zap/zap-generated/endpoint_config.h\<close>, that they fit together, and that the adapter
    writes only what they declare.
  \<^item> \<^verbatim>\<open>Cluster_Dispatch\<close>: \<^verbatim>\<open>IMClusterCommandHandler.cpp\<close>, \<^verbatim>\<open>CodeDrivenInitShutdown.cpp\<close>,
    \<^verbatim>\<open>callback-stub.cpp\<close> and \<^verbatim>\<open>access.h\<close> of the same directory.
  \<^item> \<^verbatim>\<open>Gen_Config\<close>: the build switches \<^verbatim>\<open>gen_config.h\<close> and the plugin list of
    \<^verbatim>\<open>PluginApplicationCallbacks.h\<close>, which agree with the tables.
  \<^item> \<^verbatim>\<open>Accessory\<close>: the started accessory as an inductive step relation whose steps are whole handlers
    (a tick, the cluster initialisation, the scheduled work, a shell command) in any order; an
    invariant relates the attributes to the policy, and from it the attributes track the
    readings up to the change thresholds.
  \<^item> \<^verbatim>\<open>Firmware_Runs\<close>: every run of \<open>Accessory\<close> is a run of \<open>Firmware_Schedule\<close>, so the first model is
    one schedule of the second; the properties of the interleaved firmware: exchanges and
    snapshots are whole, where published values come from, that polling goes on, and the race on the
    callback pointer.
  \<^item> \<^verbatim>\<open>Matter_Freshness\<close>: no notification is lost between the poll thread and the Matter thread.
  \<^item> This theory: the path from the frame of the sensor to the attributes, over all components.

  \<^bold>\<open>How code is represented.\<close>  Structs are records, enums datatypes; \<^verbatim>\<open>uint8_t\<close> to \<^verbatim>\<open>uint32_t\<close> and
  \<^verbatim>\<open>int16_t\<close> are words that wrap; 64-bit times are integers, and \<open>timestamps_do_not_overflow\<close> shows
  that they stay in range; floats are rationals rounded to binary32.  Undefined behaviour
  (an access outside a buffer, a null callback called) is the value \<open>None\<close>, so each statement that a
  function returns \<open>Some\<close> excludes it.  Errno values are integers.

  \<^bold>\<open>Bounds and fuel.\<close>  The endless loops are modelled by a number of rounds over which the
  properties quantify: ticks of the work item (\<open>work_queue\<close>), dispatches of
  \<^verbatim>\<open>StartApp\<close> (\<open>dispatch_loop\<close>).  The other loops terminate by a measure or by structure;
  that of \<^verbatim>\<open>sen66 read\<close> makes at most its 20 polls.  The theorems about the failure counter
  assume a threshold below \<open>2 ^ 32 - 3\<close> (the code's is 3).

  \<^bold>\<open>What the properties show.\<close>  Protocol: a response is accepted exactly when it is an encoding,
  decodes to it, and up to three flipped bits are always detected.  Service: the poll
  loop never dies and follows its backoff schedule, the policy stays in its invariant, each tick
  publishes, notifies and restarts as designed.  Adapter: the attributes are the conversions of
  the snapshot, the overall level is the worst channel with single-precision rounding accounted
  for, the values fit the data model.  Accessory: whatever happens in which order, the
  attributes show a reading that has the validity of the latest one and is within twice the change
  thresholds of it, and a reading that is due gets published.  Threads: every response is read in the
  exchange of its command, the snapshot behaves as an atomic variable that only the poll thread
  sets, no deadlock, no access out of bounds, no null call; every value shown was sensed,
  publications are whole, the work item is never lost, and an idle Matter thread has published a snapshot
  read after the latest notification.
  Some properties state behaviour that the documentation of the
  repository describes differently: \<open>outage_is_not_shown\<close> (readings of a disconnected sensor stay
  published as they were), \<open>silence_while_all_invalid\<close> (no heartbeat without a valid channel), \<open>Humidity_conversion\<close> (negative
  readings) and \<open>sensor_endpoint_attributes_are_served\<close> (a feature map nothing serves);
  \<open>callback_registration_is_raced\<close> shows a data race: \<^verbatim>\<open>main\<close> writes the plain pointer
  \<^verbatim>\<open>sUpdateCallback\<close> while the poll thread may read it.

  \<^bold>\<open>Not modelled.\<close>  Log output.  The Zephyr kernel, the I2C driver and the Matter SDK are not
  under \<^verbatim>\<open>src/\<close>: their calls are events, their answers are those of an arbitrary environment, and
  decoders and callbacks of the SDK are parameters.  The
  inputs of the ZAP generator, prototypes, build files, option files and device
  trees have no operations.  Priorities and the timing of threads are not modelled: the
  step relations allow every order, at every call in \<^verbatim>\<open>Firmware_Threads\<close> and
  \<^verbatim>\<open>Firmware_Schedule\<close>, and between whole handlers in \<^verbatim>\<open>Accessory\<close>.  Each access to a shared
  variable is one atomic step of the interleaving; for the snapshot this is justified by the absence of
  races (\<open>no_interleaving_is_undefined\<close>), for the callback pointer it is an assumption on the
  target, where an aligned pointer is stored whole.  Whether the cluster
  initialisation excludes the work scheduled on the Matter thread depends on the locking of
  the SDK; therefore \<open>no_notification_is_lost\<close> lets a value be shown that the initialisation has
  written later.  What an attribute shows is the value last handed to its accessor: the code ignores
  the status the accessors return, and whether they accept the value is up to the stack.
  The lines of the source that no definition translates are includes, comments, licence
  headers, prototypes and log messages.
\<close>

section \<open>From the sensor to the attributes\<close>

text \<open>
  One tick of the poll work item, and then \<^verbatim>\<open>ApplyLatestMeasurement\<close> on the Matter thread if the tick
  has scheduled it.
\<close>

definition tick_and_work :: "env \<Rightarrow> Policy \<Rightarrow> world \<Rightarrow> (Policy \<times> world) option" where
  "tick_and_work E p w =
     (case run E (PollWorkHandler callback_code p) w of
        (None, v) \<Rightarrow> None
      | (Some q, v) \<Rightarrow>
          if schedules_work w v
          then (case run E ApplyLatestMeasurement v of (None, w') \<Rightarrow> None | (Some u, w') \<Rightarrow> Some (q, w'))
          else Some (q, v))"

lemma delivers_steady_bus:
  "length ws = kMeasurementWords \<Longrightarrow> delivers (steady_bus (BuildFrame ws)) ws"
  by (simp add: delivers_def layout_defs)

lemma fed_delivered:
  "delivers E ws \<Longrightarrow> fed E p w = OnReadResult p 0 (decode ws) (tick_time E p w)"
  by (simp add: fed_def outcome_delivers)

text \<open>
  C2. The whole path from the sensor to the Matter attributes.  Whatever usable state the service is
  in, when the sensor answers with a frame of nine words of which some channel is available, one tick puts
  exactly the decoded words into the snapshot.  If a callback is registered and the policy finds the
  reading worth a notification, the tick schedules the adapter, and the eight attributes
  then show exactly the conversions of those words, with null for each channel that carries its sentinel,
  and no other attribute has changed; in every other case no attribute has changed.
\<close>

theorem frame_reaches_attributes:
  assumes "usable p" and "delivers E ws" and "ws ! field_bit f \<noteq> sentinel f"
  shows "\<exists>q w'. tick_and_work E p w = Some (q, w') \<and>
    measurement (snap w') = decode ws \<and> ageMs (snap w') = 0 \<and> everValid (snap w') \<and>
    shown (history w') =
      (if callback w \<noteq> None \<and> notify_due p (decode ws) (tick_time E p w)
       then shown (history w) ++ published (decode ws) else shown (history w))"
proof -
  obtain v where tick: "run E (PollWorkHandler callback_code p) w = (Some (ticked E p w), v)"
    and snap: "snap v = snapshot_of (ticked E p w) (tick_time E p w)" and shown: "shown (history v) = shown (history w)"
    and work: "schedules_work w v \<longleftrightarrow> ShouldNotify (fed E p w) \<and> callback w \<noteq> None"
    using run_tick_work [OF assms(1)] by blast
  have "is_valid (decode ws) f" using assms(3) by (simp add: is_valid_decode)
  then have "valid (decode ws) \<noteq> 0" by (auto simp: is_valid_def)
  then have "snap v = \<lparr>measurement = decode ws, ageMs = 0, everValid = True\<rparr>"
    by (simp add: snap [unfolded snapshot_of_ticked] snapshot_of_def fed_delivered [OF assms(2)] GetLatest_def OnReadResult_success)
  moreover have "ShouldNotify (fed E p w) \<longleftrightarrow> notify_due p (decode ws) (tick_time E p w)"
    by (simp add: fed_delivered [OF assms(2)] ShouldNotify_def OnReadResult_success)
  ultimately show ?thesis
    using shown_ApplyLatestMeasurement [of E v] shown work
    by (auto simp: tick_and_work_def tick run_ApplyLatestMeasurement)
qed

theorem frame_reaches_attributes_witness:
  "\<exists>q w'. tick_and_work (steady_bus (BuildFrame plausible_words)) (Policy_init PolicyConfig_default)
      (world_init\<lparr>callback := Some OnMeasurementUpdated_fn\<rparr>) = Some (q, w') \<and>
    shown (history w') = published (decode plausible_words)"
proof -
  let ?p = "Policy_init PolicyConfig_default" and ?w = "world_init\<lparr>callback := Some OnMeasurementUpdated_fn\<rparr>"
  have co2: "plausible_words ! field_bit kFieldCo2 \<noteq> sentinel kFieldCo2"
    by (simp add: plausible_words_def sentinel_def sentinel_defs)
  have "shown (history ?w) = Map.empty" by (simp add: world_init_def shown_def)
  moreover have "notify_due ?p (decode plausible_words) now" for now
    using plausible_frame(2) by (simp add: notify_due_def notify_mask_first)
  ultimately show ?thesis
    using frame_reaches_attributes [OF usable_default delivers_steady_bus [OF plausible_frame(1)] co2, of ?w] by auto
qed

lemma work_queue_outage:
  assumes "usable p" and "list_all (\<lambda>e. e \<noteq> 0) (read_errors E callback_code n p w)" and "0 < n"
  shows "\<exists>q w' now. run E (work_queue callback_code n p) w = (Some q, w') \<and>
    snap w' = snapshot_of p now \<and> shown (history w') = shown (history w)"
  using assms
proof (induction n arbitrary: p w)
  case 0
  then show ?case by simp
next
  case (Suc n)
  obtain v where tick: "run E (PollWorkHandler callback_code p) w = (Some (ticked E p w), v)"
    and snap: "snap v = snapshot_of (fed E p w) (tick_time E p w)" and shown: "shown (history v) = shown (history w)"
    using run_tick [OF Suc.prems(1)] by blast
  have failed: "fst (outcome E p w) \<noteq> 0" using Suc.prems(2) by simp
  have step: "run E (work_queue callback_code (Suc n) p) w = run E (work_queue callback_code n (ticked E p w)) v"
    by (simp add: run_bind tick)
  show ?case
  proof (cases "n = 0")
    case True
    then show ?thesis
      using snap shown snapshot_of_failed [OF failed] unfolding step by (auto simp: snapshot_of_ticked)
  next
    case False
    moreover have "list_all (\<lambda>e. e \<noteq> 0) (read_errors E callback_code n (ticked E p w) v)"
      using Suc.prems(2) by (simp add: tick)
    ultimately obtain q w' now where "run E (work_queue callback_code n (ticked E p w)) v = (Some q, w')"
      "snap w' = snapshot_of (ticked E p w) now" "shown (history w') = shown (history v)"
      using Suc.IH [OF usable_ticked [OF Suc.prems(1)], of E w v] by auto
    then show ?thesis
      using shown snapshot_of_failed [OF failed] unfolding step by auto
  qed
qed

text \<open>
  C9. An outage of the sensor does not show on the Matter side.  However many ticks in a row fail
  to read it, publishing afterwards makes the attributes show what the last good reading showed:
  the values are neither cleared nor marked invalid, however old they have become.
\<close>

theorem outage_is_not_shown:
  assumes "usable p" and "hasEverBeenValid p" and "0 < n"
    and "list_all (\<lambda>e. e \<noteq> 0) (read_errors E callback_code n p w)"
  shows "\<exists>w'. snd (run E (io_bind (work_queue callback_code n p) (\<lambda>_. ApplyLatestMeasurement)) w) = w' \<and>
    shown (history w') = shown (history w) ++ published (latest p) \<and>
    everValid (snap w')"
proof -
  obtain q v now where v: "run E (work_queue callback_code n p) w = (Some q, v)"
    "snap v = snapshot_of p now" "shown (history v) = shown (history w)"
    using work_queue_outage [OF assms(1,4,3)] by blast
  moreover have "snapshot_of p now = \<lparr>measurement = latest p, ageMs = now - lastUpdateMs p, everValid = True\<rparr>"
    using assms(2) by (simp add: snapshot_of_def GetLatest_def)
  ultimately show ?thesis
    using shown_ApplyLatestMeasurement [of E v] by (simp add: run_bind run_ApplyLatestMeasurement)
qed

text \<open>A service that has read one good frame.\<close>

definition fed_once :: Policy where
  "fed_once = OnReadResult (Policy_init PolicyConfig_default) 0 (decode plausible_words) 1000"

theorem outage_is_not_shown_witness:
  "\<exists>w'. snd (run dead_bus (io_bind (work_queue callback_code 50 fed_once) (\<lambda>_. ApplyLatestMeasurement)) world_init) = w' \<and>
    shown (history w') = shown (history world_init) ++ published (decode plausible_words) \<and>
    everValid (snap w')"
proof -
  have "usable fed_once" unfolding fed_once_def by (rule usable_OnReadResult [OF usable_default])
  moreover have "hasEverBeenValid fed_once" "latest fed_once = decode plausible_words"
    using plausible_frame(2) by (simp_all add: fed_once_def OnReadResult_success)
  moreover have "list_all (\<lambda>e. e \<noteq> 0) (read_errors dead_bus callback_code 50 fed_once world_init)"
    by (simp add: EIO_def list_all_iff)
  ultimately show ?thesis
    using outage_is_not_shown [of fed_once 50 dead_bus world_init] by simp
qed

end
